(* ===== verification/Prelude.thy ===== *)
theory Prelude
  imports Main "HOL-Library.Word"
begin

text \<open>
  Shared vocabulary of the development.

  C code runs on memory the model keeps explicit.  A \<^emph>\<open>fault\<close> is what the C standard leaves
  undefined (a read or write outside an object, a null dereference, a free of something that is
  not an allocated block, a directory function called on what is no stream) together with the two ways a call may never return (a loop that does
  not end, a mutex locked twice by its owner).  A computation of type \<open>'a res\<close> is either such a
  fault or a value; \<open>and_then\<close> sequences them.

  A \<^emph>\<open>buffer\<close> is the list of the bytes of a C array, a pointer into it is an index, and every
  access goes through \<open>rd\<close> and \<open>wr\<close>, which fault outside the array.  A C string starts at an
  index and stops before the first NUL byte.
\<close>

section \<open>Faults and results\<close>

datatype fault =
    Read_oob        \<comment> \<open>read outside an array\<close>
  | Write_oob       \<comment> \<open>write outside an array\<close>
  | Null_deref      \<comment> \<open>dereference of a null pointer\<close>
  | Bad_free        \<comment> \<open>\<open>free\<close> of an address that is not an allocated block\<close>
  | Bad_stream      \<comment> \<open>a directory function called on what is not an open stream\<close>
  | Nonterminating  \<comment> \<open>a loop that never reaches its exit\<close>
  | Deadlock        \<comment> \<open>a mutex locked by the thread that already holds it\<close>

type_synonym 'a res = "fault + 'a"

definition and_then :: "'a res \<Rightarrow> ('a \<Rightarrow> 'b res) \<Rightarrow> 'b res" where
  "and_then m f = (case m of Inl e \<Rightarrow> Inl e | Inr x \<Rightarrow> f x)"

named_theorems res_iff \<open>when a sequence of computations returns a value\<close>

lemma and_then_simps [simp]:
  "and_then (Inl e) f = Inl e"
  "and_then (Inr x) f = f x"
  by (simp_all add: and_then_def)

lemma and_then_Inr_iff [res_iff]: "and_then m f = Inr y \<longleftrightarrow> (\<exists>x. m = Inr x \<and> f x = Inr y)"
  by (cases m) auto

lemma and_then_Inl_iff [res_iff]:
  "and_then m f = Inl e \<longleftrightarrow> m = Inl e \<or> (\<exists>x. m = Inr x \<and> f x = Inl e)"
  by (cases m) auto

lemma and_then_assoc: "and_then (and_then m f) g = and_then m (\<lambda>x. and_then (f x) g)"
  by (cases m) auto

lemma and_then_cong [fundef_cong]:
  "m = m' \<Longrightarrow> (\<And>x. m' = Inr x \<Longrightarrow> f x = f' x) \<Longrightarrow> and_then m f = and_then m' f'"
  by (cases m') auto

text \<open>Results that agree on faults and are related on values have the same continuation.\<close>

lemma rel_sum_and_then:
  assumes "rel_sum (=) R m n" and "\<And>x y. R x y \<Longrightarrow> f x = g y"
  shows "and_then m f = and_then n g"
  using assms by (cases m; cases n) auto

section \<open>Buffers\<close>

type_synonym buf = "char list"

abbreviation NUL :: char where
  "NUL \<equiv> CHR 0x00"

abbreviation newline :: char where
  "newline \<equiv> CHR 0x0A"

definition rd :: "buf \<Rightarrow> nat \<Rightarrow> char res" where
  "rd b i = (if i < length b then Inr (b ! i) else Inl Read_oob)"

definition wr :: "buf \<Rightarrow> nat \<Rightarrow> char \<Rightarrow> buf res" where
  "wr b i c = (if i < length b then Inr (b[i := c]) else Inl Write_oob)"

lemma rd_append [simp]: "rd (pre @ c # post) (length pre) = Inr c"
  by (simp add: rd_def)

lemma wr_append [simp]: "wr (pre @ c # post) (length pre) d = Inr (pre @ d # post)"
  by (simp add: wr_def)

lemma rd_0_Cons [simp]: "rd (c # b) 0 = Inr c"
  by (simp add: rd_def)

text \<open>
  The C string that starts at index \<open>s\<close>: what a callee reads that is handed the pointer.
\<close>

definition get_str :: "buf \<Rightarrow> nat \<Rightarrow> string res" where
  "get_str b s =
     (if NUL \<in> set (drop s b) then Inr (takeWhile (\<lambda>c. c \<noteq> NUL) (drop s b)) else Inl Read_oob)"

definition c_str :: "string \<Rightarrow> bool" where
  "c_str x \<longleftrightarrow> NUL \<notin> set x"

lemma c_str_simps [simp]:
  "c_str []"
  "c_str (c # x) \<longleftrightarrow> c \<noteq> NUL \<and> c_str x"
  "c_str (x @ y) \<longleftrightarrow> c_str x \<and> c_str y"
  by (auto simp: c_str_def)

lemma c_str_subset: "set y \<subseteq> set x \<Longrightarrow> c_str x \<Longrightarrow> c_str y"
  by (auto simp: c_str_def)

lemma c_str_take [intro]: "c_str x \<Longrightarrow> c_str (take n x)"
  by (rule c_str_subset [OF set_take_subset])

lemma c_str_drop [intro]: "c_str x \<Longrightarrow> c_str (drop n x)"
  by (rule c_str_subset [OF set_drop_subset])

lemma c_str_dropWhile [intro]: "c_str x \<Longrightarrow> c_str (dropWhile P x)"
  by (auto simp: c_str_def dest: set_dropWhileD)

lemma c_str_takeWhile [intro]: "c_str x \<Longrightarrow> c_str (takeWhile P x)"
  by (auto simp: c_str_def dest: set_takeWhileD)

lemma c_str_takeWhile_NUL [simp]: "c_str (takeWhile (\<lambda>c. c \<noteq> NUL) x)"
  by (auto simp: c_str_def dest: set_takeWhileD)

lemma takeWhile_NUL_c_str [simp]: "c_str x \<Longrightarrow> takeWhile (\<lambda>c. c \<noteq> NUL) (x @ NUL # r) = x"
  by (induction x) (auto simp: c_str_def)

lemma takeWhile_NUL_id [simp]: "c_str x \<Longrightarrow> takeWhile (\<lambda>c. c \<noteq> NUL) x = x"
  by (induction x) (auto simp: c_str_def)

lemma get_str_append [simp]:
  "c_str x \<Longrightarrow> get_str (pre @ x @ NUL # r) (length pre) = Inr x"
  by (simp add: get_str_def)

lemma get_str_0 [simp]: "c_str x \<Longrightarrow> get_str (x @ NUL # r) 0 = Inr x"
  by (simp add: get_str_def)

lemma split_at_NUL:
  assumes "NUL \<in> set x"
  obtains r where "x = takeWhile (\<lambda>c. c \<noteq> NUL) x @ NUL # r"
proof -
  obtain y r where x: "x = y @ NUL # r" and "NUL \<notin> set y"
    using split_list_first [OF assms] by blast
  then have "takeWhile (\<lambda>c. c \<noteq> NUL) x = y"
    by (simp add: c_str_def)
  with x have "x = takeWhile (\<lambda>c. c \<noteq> NUL) x @ NUL # r"
    by simp
  then show thesis
    by (rule that)
qed

text \<open>Every buffer with a terminator at or after \<open>s\<close> has the shape the component lemmas use.\<close>

lemma buf_split:
  assumes "get_str b s = Inr x"
  obtains r where "b = take s b @ x @ NUL # r" and "c_str x" and "length (take s b) = s"
proof -
  from assms have nul: "NUL \<in> set (drop s b)" and x: "x = takeWhile (\<lambda>c. c \<noteq> NUL) (drop s b)"
    by (auto simp: get_str_def split: if_splits)
  from nul obtain r where "drop s b = x @ NUL # r"
    unfolding x by (rule split_at_NUL)
  then have b: "b = take s b @ x @ NUL # r"
    by (metis append_take_drop_id)
  from nul have len: "length (take s b) = s"
    by (cases "s < length b") auto
  show thesis
    by (rule that [OF b _ len]) (simp add: x)
qed

section \<open>Character classes of the C library\<close>

text \<open>\<open>isspace\<close> in the C locale: tab, newline, vertical tab, form feed, carriage return, space.\<close>

definition isspace :: "char \<Rightarrow> bool" where
  "isspace c \<longleftrightarrow> c \<in> set [CHR 0x09, CHR 0x0A, CHR 0x0B, CHR 0x0C, CHR 0x0D, CHR 0x20]"

lemma not_isspace_NUL [simp]: "\<not> isspace NUL"
  by (simp add: isspace_def)

text \<open>
  \<open>strchr(s, c) != NULL\<close>: the terminating NUL is part of the string that is searched, so the
  character NUL is always found.
\<close>

definition strchr_found :: "string \<Rightarrow> char \<Rightarrow> bool" where
  "strchr_found s c \<longleftrightarrow> c = NUL \<or> c \<in> set s"

section \<open>Machine integers\<close>

text \<open>A value that fits survives the way through a 32-bit signed integer.\<close>

lemma sint32_of_int:
  "- (2 ^ 31) \<le> k \<Longrightarrow> k < 2 ^ 31 \<Longrightarrow> sint (word_of_int k :: 32 word) = k"
  by (simp add: int_word_sint mod_pos_pos_trivial)

section \<open>Conversion to int\<close>

text \<open>A wider integer (\<open>size_t\<close>, \<open>ssize_t\<close>) stored in an \<open>int\<close>: the low 32 bits, signed.\<close>

definition c_int :: "int \<Rightarrow> int" where
  "c_int z = sint (word_of_int z :: 32 word)"

lemma c_int_id: "- (2 ^ 31) \<le> z \<Longrightarrow> z < 2 ^ 31 \<Longrightarrow> c_int z = z"
  by (simp add: c_int_def sint32_of_int)

end
