(* ===== verification/Ini_Strings.thy ===== *)
theory Ini_Strings
  imports Prelude
begin

text \<open>
  The string helpers of \<^verbatim>\<open>conf.c\<close> (\<open>rstrip\<close>, \<open>lskip\<close>, \<open>find_chars_or_comment\<close>,
  \<open>strncpy0\<close>), byte by byte on the buffer they walk.  Next to each one stands a function on
  strings that says what it computes, and a lemma that the walk computes it without leaving the
  buffer.
\<close>

section \<open>strlen\<close>

function c_strlen :: "buf \<Rightarrow> nat \<Rightarrow> nat res" where
  "c_strlen b i =
     (if i < length b
      then (if b ! i = NUL then Inr 0 else and_then (c_strlen b (Suc i)) (\<lambda>n. Inr (Suc n)))
      else Inl Read_oob)"
  by pat_completeness auto
termination
  by (relation "measure (\<lambda>(b, i). length b - i)") auto

declare c_strlen.simps [simp del]

lemma c_strlen_str:
  "c_str x \<Longrightarrow> c_strlen (pre @ x @ NUL # r) (length pre) = Inr (length x)"
proof (induction x arbitrary: pre)
  case Nil
  show ?case
    by (subst c_strlen.simps) simp
next
  case (Cons c x)
  have "c_strlen ((pre @ [c]) @ x @ NUL # r) (length (pre @ [c])) = Inr (length x)"
    using Cons.prems by (intro Cons.IH) auto
  with Cons.prems show ?case
    by (subst c_strlen.simps) simp
qed

section \<open>rstrip\<close>

fun rstrip_loop :: "buf \<Rightarrow> nat \<Rightarrow> nat \<Rightarrow> buf res" where
  "rstrip_loop b s 0 = Inr b"
| "rstrip_loop b s (Suc p) =
     (if Suc p > s
      then and_then (rd b p) (\<lambda>c.
             if isspace c then and_then (wr b p NUL) (\<lambda>b'. rstrip_loop b' s p) else Inr b)
      else Inr b)"

definition rstrip :: "buf \<Rightarrow> nat \<Rightarrow> buf res" where
  "rstrip b s = and_then (c_strlen b s) (\<lambda>n. rstrip_loop b s (s + n))"

definition rstrip_str :: "string \<Rightarrow> string" where
  "rstrip_str x = rev (dropWhile isspace (rev x))"

lemma rstrip_str_snoc [simp]:
  "rstrip_str (x @ [c]) = (if isspace c then rstrip_str x else x @ [c])"
  by (simp add: rstrip_str_def)

lemma rstrip_str_Nil [simp]: "rstrip_str [] = []"
  by (simp add: rstrip_str_def)

lemma rstrip_str_prefix: "\<exists>y. x = rstrip_str x @ y \<and> (\<forall>c \<in> set y. isspace c)"
proof (induction x rule: rev_induct)
  case Nil
  show ?case by simp
next
  case (snoc c x)
  then obtain y where "x = rstrip_str x @ y" "\<forall>c \<in> set y. isspace c"
    by blast
  then show ?case
    by (cases "isspace c") (auto intro!: exI [of _ "y @ [c]"])
qed

lemma rstrip_str_len: "length (rstrip_str x) \<le> length x"
  by (metis rstrip_str_prefix length_append le_add1)

lemma c_str_rstrip_str [intro]: "c_str x \<Longrightarrow> c_str (rstrip_str x)"
  by (metis rstrip_str_prefix c_str_simps(3))

lemma rstrip_str_last: "rstrip_str x \<noteq> [] \<Longrightarrow> \<not> isspace (last (rstrip_str x))"
  by (induction x rule: rev_induct) auto

lemma rstrip_str_id: "x = [] \<or> \<not> isspace (last x) \<Longrightarrow> rstrip_str x = x"
  by (cases x rule: rev_cases) auto

lemma rstrip_loop_str:
  "rstrip_loop (pre @ x @ r) (length pre) (length pre + length x) =
     Inr (pre @ rstrip_str x @ replicate (length x - length (rstrip_str x)) NUL @ r)"
proof (induction x arbitrary: r rule: rev_induct)
  case Nil
  show ?case
    by (cases "length pre") simp_all
next
  case (snoc c x)
  have r: "rd (pre @ (x @ [c]) @ r) (length pre + length x) = Inr c"
    using rd_append [of "pre @ x" c r] by simp
  have w: "wr (pre @ (x @ [c]) @ r) (length pre + length x) NUL = Inr (pre @ x @ NUL # r)"
    using wr_append [of "pre @ x" c r NUL] by simp
  have "replicate (length x - length (rstrip_str x)) NUL @ NUL # r =
          replicate (Suc (length x) - length (rstrip_str x)) NUL @ r"
    using rstrip_str_len [of x] by (simp add: Suc_diff_le replicate_app_Cons_same)
  with r w snoc.IH [of "NUL # r"] show ?case
    by simp
qed

lemma rstrip_ok:
  assumes "c_str x"
  shows "rstrip (pre @ x @ NUL # r) (length pre) =
           Inr (pre @ rstrip_str x @ NUL # replicate (length x - length (rstrip_str x)) NUL @ r)"
  using assms rstrip_loop_str [of pre x "NUL # r"]
  by (simp add: rstrip_def c_strlen_str replicate_app_Cons_same)

section \<open>lskip\<close>

function lskip :: "buf \<Rightarrow> nat \<Rightarrow> nat res" where
  "lskip b s =
     (if s < length b
      then (if b ! s \<noteq> NUL \<and> isspace (b ! s) then lskip b (Suc s) else Inr s)
      else Inl Read_oob)"
  by pat_completeness auto
termination
  by (relation "measure (\<lambda>(b, s). length b - s)") auto

declare lskip.simps [simp del]

lemma lskip_ok:
  "c_str x \<Longrightarrow>
   lskip (pre @ x @ NUL # r) (length pre) = Inr (length pre + length (takeWhile isspace x))"
proof (induction x arbitrary: pre)
  case Nil
  show ?case
    by (subst lskip.simps) simp
next
  case (Cons c x)
  have "lskip ((pre @ [c]) @ x @ NUL # r) (length (pre @ [c])) =
          Inr (length (pre @ [c]) + length (takeWhile isspace x))"
    using Cons.prems by (intro Cons.IH) auto
  with Cons.prems show ?case
    by (subst lskip.simps) simp
qed

section \<open>find\_chars\_or\_comment\<close>

text \<open>
  \<open>chars = None\<close> is the null pointer.  The loop runs under the defaults of \<^verbatim>\<open>conf.h\<close>:
  inline comments are allowed and start with a semicolon that follows white space.
\<close>

definition stops_at :: "string option \<Rightarrow> bool \<Rightarrow> char \<Rightarrow> bool" where
  "stops_at chars was_space c \<longleftrightarrow>
     (case chars of None \<Rightarrow> False | Some cs \<Rightarrow> strchr_found cs c) \<or>
     (was_space \<and> strchr_found '';'' c)"

function find_loop :: "buf \<Rightarrow> string option \<Rightarrow> bool \<Rightarrow> nat \<Rightarrow> nat res" where
  "find_loop b chars was_space s =
     (if s < length b
      then (if b ! s \<noteq> NUL \<and> \<not> stops_at chars was_space (b ! s)
            then find_loop b chars (isspace (b ! s)) (Suc s) else Inr s)
      else Inl Read_oob)"
  by pat_completeness auto
termination
  by (relation "measure (\<lambda>(b, chars, was_space, s). length b - s)") auto

declare find_loop.simps [simp del]

definition find_chars_or_comment :: "buf \<Rightarrow> nat \<Rightarrow> string option \<Rightarrow> nat res" where
  "find_chars_or_comment b s chars = find_loop b chars False s"

text \<open>
  The part of the string before the stop, and the rest from the stop on.  A stop is one of the
  characters asked for, or a semicolon behind white space.
\<close>

definition ends_part :: "string option \<Rightarrow> bool \<Rightarrow> char \<Rightarrow> bool" where
  "ends_part chars was_space c \<longleftrightarrow>
     c \<in> (case chars of None \<Rightarrow> {} | Some cs \<Rightarrow> set cs) \<or> (was_space \<and> c = CHR '';'')"

lemma ends_part_simps [simp]:
  "ends_part None was_space c \<longleftrightarrow> was_space \<and> c = CHR '';''"
  "ends_part (Some cs) was_space c \<longleftrightarrow> c \<in> set cs \<or> was_space \<and> c = CHR '';''"
  by (auto simp: ends_part_def)

lemma stops_at_ends: "c \<noteq> NUL \<Longrightarrow> stops_at chars was_space c \<longleftrightarrow> ends_part chars was_space c"
  by (auto simp: stops_at_def ends_part_def strchr_found_def split: option.splits)

fun before_stop :: "string option \<Rightarrow> bool \<Rightarrow> string \<Rightarrow> string" where
  "before_stop chars was_space [] = []"
| "before_stop chars was_space (c # x) =
     (if ends_part chars was_space c then [] else c # before_stop chars (isspace c) x)"

definition from_stop :: "string option \<Rightarrow> string \<Rightarrow> string" where
  "from_stop chars x = drop (length (before_stop chars False x)) x"

lemma before_stop_prefix: "take (length (before_stop chars w x)) x = before_stop chars w x"
  by (induction chars w x rule: before_stop.induct) auto

lemma before_from_stop: "before_stop chars False x @ from_stop chars x = x"
  by (metis before_stop_prefix from_stop_def append_take_drop_id)

lemma c_str_before_stop [intro]: "c_str x \<Longrightarrow> c_str (before_stop chars w x)"
  by (metis before_stop_prefix c_str_take)

lemma c_str_from_stop [intro]: "c_str x \<Longrightarrow> c_str (from_stop chars x)"
  by (auto simp: from_stop_def)

lemma find_loop_str:
  "c_str x \<Longrightarrow>
   find_loop (pre @ x @ NUL # r) chars w (length pre) =
     Inr (length pre + length (before_stop chars w x))"
proof (induction x arbitrary: pre w)
  case Nil
  show ?case
    by (subst find_loop.simps) simp
next
  case (Cons c x)
  have "find_loop ((pre @ [c]) @ x @ NUL # r) chars (isspace c) (length (pre @ [c])) =
          Inr (length (pre @ [c]) + length (before_stop chars (isspace c) x))"
    using Cons.prems by (intro Cons.IH) auto
  with Cons.prems show ?case
    by (subst find_loop.simps) (simp add: stops_at_ends)
qed

lemma find_ok:
  "c_str x \<Longrightarrow>
   find_chars_or_comment (pre @ x @ NUL # r) (length pre) chars =
     Inr (length pre + length (before_stop chars False x))"
  by (simp add: find_chars_or_comment_def find_loop_str)

section \<open>strncpy0\<close>

text \<open>
  \<open>strncpy0_loop dest src s n i\<close> is the loop with \<open>n\<close> bytes of room left before the last one.
\<close>

fun strncpy0_loop :: "buf \<Rightarrow> buf \<Rightarrow> nat \<Rightarrow> nat \<Rightarrow> nat \<Rightarrow> buf res" where
  "strncpy0_loop dest src s 0 i = wr dest i NUL"
| "strncpy0_loop dest src s (Suc n) i =
     and_then (rd src (s + i)) (\<lambda>c.
       if c \<noteq> NUL then and_then (wr dest i c) (\<lambda>dest'. strncpy0_loop dest' src s n (Suc i))
       else wr dest i NUL)"

definition strncpy0 :: "buf \<Rightarrow> buf \<Rightarrow> nat \<Rightarrow> nat \<Rightarrow> buf res" where
  "strncpy0 dest src s sz = strncpy0_loop dest src s (sz - 1) 0"

lemma strncpy0_loop_str:
  assumes "c_str x2" and "length d = length x1" and "n < length rest"
  shows "strncpy0_loop (d @ rest) (pre @ x1 @ x2 @ NUL # r) (length pre) n (length x1) =
           Inr (d @ take n x2 @ NUL # drop (Suc (length (take n x2))) rest)"
  using assms
proof (induction n arbitrary: x1 x2 d rest)
  case 0
  then obtain t rest' where "rest = t # rest'"
    by (cases rest) auto
  with 0 show ?case
    using wr_append [of d t rest' NUL] by simp
next
  case (Suc n)
  from Suc.prems obtain t rest' where rest: "rest = t # rest'"
    by (cases rest) auto
  have w: "wr (d @ rest) (length x1) c = Inr (d @ c # rest')" for c
    using wr_append [of d t rest' c] Suc.prems(2) rest by simp
  show ?case
  proof (cases x2)
    case Nil
    then show ?thesis
      using w rd_append [of "pre @ x1" NUL r] rest by simp
  next
    case (Cons c x3)
    have "strncpy0_loop ((d @ [c]) @ rest') (pre @ (x1 @ [c]) @ x3 @ NUL # r) (length pre) n
            (length (x1 @ [c])) =
          Inr ((d @ [c]) @ take n x3 @ NUL # drop (Suc (length (take n x3))) rest')"
      using Suc.prems Cons rest by (intro Suc.IH) auto
    then show ?thesis
      using w rd_append [of "pre @ x1" c "x3 @ NUL # r"] Suc.prems(1) Cons rest by simp
  qed
qed

lemma strncpy0_ok:
  assumes "c_str x" and "0 < sz" and "sz \<le> length dest"
  shows "strncpy0 dest (pre @ x @ NUL # r) (length pre) sz =
           Inr (take (sz - 1) x @ NUL # drop (Suc (length (take (sz - 1) x))) dest)"
  using strncpy0_loop_str [of x "[]" "[]" "sz - 1" dest pre r] assms
  by (simp add: strncpy0_def)

end
