(* ===== verification/Ini_Reader.thy ===== *)
theory Ini_Reader
  imports Ini_Strings
begin

text \<open>
  The line readers behind \<open>ini_parse_stream\<close>: the C library's \<open>fgets\<close> on a file and
  \<open>ini_reader_string\<close> of \<^verbatim>\<open>conf.c\<close> on a string.  The parser is handed one of them as a function
  pointer (\<open>ini_reader\<close>), so what it relies on is the locale \<open>line_reader\<close>: a reader stores the
  next line, or the next \<open>num - 1\<close> bytes of a longer one, and its terminator into the buffer,
  stays inside it, and returns null exactly when nothing is left.  Both readers are
  interpretations of it.
\<close>

section \<open>Lines\<close>

text \<open>The bytes one call delivers: up to and including a newline, at most \<open>n\<close> of them.\<close>

fun first_line :: "nat \<Rightarrow> string \<Rightarrow> string" where
  "first_line 0 cs = []"
| "first_line (Suc n) [] = []"
| "first_line (Suc n) (c # cs) = (if c = newline then [c] else c # first_line n cs)"

lemma first_line_empty [simp]: "first_line n [] = []"
  by (cases n) auto

lemma first_line_len: "length (first_line n cs) \<le> n"
  by (induction n cs rule: first_line.induct) auto

lemma first_line_prefix: "take (length (first_line n cs)) cs = first_line n cs"
  by (induction n cs rule: first_line.induct) auto

lemma first_line_Nil_iff [simp]: "first_line n cs = [] \<longleftrightarrow> n = 0 \<or> cs = []"
  by (induction n cs rule: first_line.induct) auto

lemma first_line_le_rest: "length (first_line n cs) \<le> length cs"
  by (metis first_line_prefix length_take min.cobounded1)

lemma first_line_newline:
  "newline \<notin> set x \<Longrightarrow> length x < n \<Longrightarrow> first_line n (x @ newline # r) = x @ [newline]"
proof (induction x arbitrary: n)
  case Nil
  then show ?case by (cases n) auto
next
  case (Cons c x)
  then show ?case by (cases n) auto
qed

text \<open>What a call leaves in the buffer: the bytes, the terminator, then the old contents.\<close>

definition store :: "string \<Rightarrow> buf \<Rightarrow> buf" where
  "store x b = x @ NUL # drop (Suc (length x)) b"

lemma length_store: "length x < length b \<Longrightarrow> length (store x b) = length b"
  by (simp add: store_def)

section \<open>The contract of a reader\<close>

type_synonym 'st ini_reader = "buf \<Rightarrow> int \<Rightarrow> 'st \<Rightarrow> (buf option \<times> 'st) res"

locale line_reader =
  fixes reader :: "'st ini_reader"
    and unread :: "'st \<Rightarrow> string"
    and invar :: "'st \<Rightarrow> bool"
  assumes read_end:
      "invar st \<Longrightarrow> unread st = [] \<Longrightarrow> 2 \<le> num \<Longrightarrow> num \<le> int (length b) \<Longrightarrow>
       \<exists>st'. reader b num st = Inr (None, st')"
    and read_line:
      "invar st \<Longrightarrow> unread st \<noteq> [] \<Longrightarrow> 2 \<le> num \<Longrightarrow> num \<le> int (length b) \<Longrightarrow>
       \<exists>st'. reader b num st = Inr (Some (store (first_line (nat num - 1) (unread st)) b), st') \<and>
             invar st' \<and>
             unread st' = drop (length (first_line (nat num - 1) (unread st))) (unread st)"

section \<open>fgets\<close>

text \<open>A stdio stream opened for reading, as the bytes it has still to deliver.\<close>

record c_file =
  f_unread :: string

definition fgets :: "c_file ini_reader" where
  "fgets b num f =
     (if num < 1 then Inr (None, f)
      else if num = 1 then and_then (wr b 0 NUL) (\<lambda>b'. Inr (Some b', f))
      else if f_unread f = [] then Inr (None, f)
      else let x = first_line (nat num - 1) (f_unread f)
           in if length x < length b
              then Inr (Some (store x b), f\<lparr>f_unread := drop (length x) (f_unread f)\<rparr>)
              else Inl Write_oob)"

interpretation file_reader: line_reader fgets f_unread "\<lambda>_. True"
proof
  fix f :: c_file and num :: int and b :: buf
  assume "f_unread f = []" and "2 \<le> num"
  then show "\<exists>f'. fgets b num f = Inr (None, f')"
    by (simp add: fgets_def)
next
  fix f :: c_file and num :: int and b :: buf
  assume "f_unread f \<noteq> []" and "2 \<le> num" and "num \<le> int (length b)"
  then show "\<exists>f'. fgets b num f =
      Inr (Some (store (first_line (nat num - 1) (f_unread f)) b), f') \<and> True \<and>
      f_unread f' = drop (length (first_line (nat num - 1) (f_unread f))) (f_unread f)"
    using first_line_len [of "nat num - 1" "f_unread f"] by (simp add: fgets_def Let_def)
qed

section \<open>ini\_reader\_string\<close>

text \<open>
  The context of \<^verbatim>\<open>ini_parse_string_ctx\<close>: the pointer \<open>ptr\<close> is an index into the object it
  points into, \<open>ctx_base\<close>.
\<close>

record ini_parse_string_ctx =
  ctx_base :: buf
  ctx_ptr :: nat
  ctx_num_left :: nat

function reader_loop :: "buf \<Rightarrow> nat \<Rightarrow> int \<Rightarrow> ini_parse_string_ctx \<Rightarrow>
    (buf \<times> nat \<times> ini_parse_string_ctx) res" where
  "reader_loop str strp num ctx =
     (if num > 1 \<and> ctx_num_left ctx \<noteq> 0
      then and_then (rd (ctx_base ctx) (ctx_ptr ctx)) (\<lambda>c.
             let ctx' = ctx\<lparr>ctx_ptr := Suc (ctx_ptr ctx), ctx_num_left := ctx_num_left ctx - 1\<rparr>
             in and_then (wr str strp c) (\<lambda>str'.
                  if c = newline then Inr (str', Suc strp, ctx')
                  else reader_loop str' (Suc strp) (num - 1) ctx'))
      else Inr (str, strp, ctx))"
  by pat_completeness auto
termination
  by (relation "measure (\<lambda>(str, strp, num, ctx). ctx_num_left ctx)") auto

declare reader_loop.simps [simp del]

definition ini_reader_string :: "ini_parse_string_ctx ini_reader" where
  "ini_reader_string str num ctx =
     (if ctx_num_left ctx = 0 \<or> num < 2 then Inr (None, ctx)
      else and_then (reader_loop str 0 num ctx) (\<lambda>(str', strp, ctx').
             and_then (wr str' strp NUL) (\<lambda>str''. Inr (Some str'', ctx'))))"

definition ctx_ok :: "ini_parse_string_ctx \<Rightarrow> bool" where
  "ctx_ok ctx \<longleftrightarrow> ctx_ptr ctx + ctx_num_left ctx \<le> length (ctx_base ctx)"

definition ctx_unread :: "ini_parse_string_ctx \<Rightarrow> string" where
  "ctx_unread ctx = take (ctx_num_left ctx) (drop (ctx_ptr ctx) (ctx_base ctx))"

definition ctx_advance :: "nat \<Rightarrow> ini_parse_string_ctx \<Rightarrow> ini_parse_string_ctx" where
  "ctx_advance n ctx = ctx\<lparr>ctx_ptr := ctx_ptr ctx + n, ctx_num_left := ctx_num_left ctx - n\<rparr>"

lemma ctx_advance_0 [simp]: "ctx_advance 0 ctx = ctx"
  by (simp add: ctx_advance_def)

lemma ctx_unread_Nil_iff: "ctx_ok ctx \<Longrightarrow> ctx_unread ctx = [] \<longleftrightarrow> ctx_num_left ctx = 0"
  by (auto simp: ctx_ok_def ctx_unread_def)

lemma length_ctx_unread: "ctx_ok ctx \<Longrightarrow> length (ctx_unread ctx) = ctx_num_left ctx"
  by (auto simp: ctx_ok_def ctx_unread_def)

lemma ctx_unread_advance: "ctx_unread (ctx_advance n ctx) = drop n (ctx_unread ctx)"
  by (simp add: ctx_unread_def ctx_advance_def drop_take add.commute)

lemma ctx_ok_advance: "ctx_ok ctx \<Longrightarrow> n \<le> ctx_num_left ctx \<Longrightarrow> ctx_ok (ctx_advance n ctx)"
  by (auto simp: ctx_ok_def ctx_advance_def)

lemma ctx_step:
  assumes "ctx_ok ctx" and "ctx_num_left ctx \<noteq> 0"
  obtains c where "rd (ctx_base ctx) (ctx_ptr ctx) = Inr c"
    and "ctx_unread ctx = c # ctx_unread (ctx_advance 1 ctx)"
proof -
  from assms have lt: "ctx_ptr ctx < length (ctx_base ctx)"
    by (auto simp: ctx_ok_def)
  then have "drop (ctx_ptr ctx) (ctx_base ctx) =
      ctx_base ctx ! ctx_ptr ctx # drop (Suc (ctx_ptr ctx)) (ctx_base ctx)"
    by (rule Cons_nth_drop_Suc [symmetric])
  with assms(2) have "ctx_unread ctx = ctx_base ctx ! ctx_ptr ctx # ctx_unread (ctx_advance 1 ctx)"
    by (simp add: ctx_unread_def ctx_advance_def take_Cons')
  with lt show thesis
    by (intro that) (simp_all add: rd_def)
qed

lemma ctx_advance_one:
  "ctx\<lparr>ctx_ptr := Suc (ctx_ptr ctx), ctx_num_left := ctx_num_left ctx - Suc 0\<rparr> = ctx_advance (Suc 0) ctx"
  "ctx_advance m (ctx_advance (Suc 0) ctx) = ctx_advance (Suc m) ctx"
  by (simp_all add: ctx_advance_def)

lemma reader_loop_ok:
  assumes "ctx_ok ctx" and "length d = strp" and "num - 1 \<le> int (length t)"
  shows "reader_loop (d @ t) strp num ctx =
           (let x = first_line (nat (num - 1)) (ctx_unread ctx)
            in Inr (d @ x @ drop (length x) t, strp + length x, ctx_advance (length x) ctx))"
  using assms
proof (induction "ctx_num_left ctx" arbitrary: ctx d t strp num)
  case 0
  then have "ctx_unread ctx = []"
    by (simp add: ctx_unread_Nil_iff)
  with 0 show ?case
    by (subst reader_loop.simps) simp
next
  case (Suc k)
  show ?case
  proof (cases "num > 1")
    case False
    then show ?thesis
      by (subst reader_loop.simps) simp
  next
    case True
    from Suc.prems(1) Suc.hyps(2) obtain c
      where c: "rd (ctx_base ctx) (ctx_ptr ctx) = Inr c"
        and u: "ctx_unread ctx = c # ctx_unread (ctx_advance 1 ctx)"
      by (metis ctx_step nat.distinct(1))
    from True Suc.prems(3) obtain a t' where t: "t = a # t'"
      by (cases t) auto
    from Suc.prems(2) have w: "wr (d @ t) strp c = Inr ((d @ [c]) @ t')"
      using wr_append [of d a t' c] t by simp
    from True have n: "nat (num - 1) = Suc (nat (num - 2))"
      by simp
    have IH: "reader_loop ((d @ [c]) @ t') (Suc strp) (num - 1) (ctx_advance 1 ctx) =
           (let x = first_line (nat (num - 1 - 1)) (ctx_unread (ctx_advance 1 ctx))
            in Inr ((d @ [c]) @ x @ drop (length x) t', Suc strp + length x,
                    ctx_advance (length x) (ctx_advance 1 ctx)))"
      using Suc.hyps(2) Suc.prems t
      by (intro Suc.hyps(1)) (auto simp: ctx_advance_def ctx_ok_def)
    show ?thesis
      using True Suc.hyps(2) c u w IH t
      by (subst reader_loop.simps) (simp add: ctx_advance_one n Let_def)
  qed
qed

interpretation string_reader: line_reader ini_reader_string ctx_unread ctx_ok
proof
  fix ctx num b
  assume "ctx_ok ctx" and "ctx_unread ctx = []"
  then show "\<exists>ctx'. ini_reader_string b num ctx = Inr (None, ctx')"
    by (simp add: ini_reader_string_def ctx_unread_Nil_iff)
next
  fix ctx :: ini_parse_string_ctx and num :: int and b :: buf
  assume ok: "ctx_ok ctx" and ne: "ctx_unread ctx \<noteq> []"
    and num: "2 \<le> num" "num \<le> int (length b)"
  let ?x = "first_line (nat num - 1) (ctx_unread ctx)"
  have nn: "nat (num - 1) = nat num - 1"
    using num by simp
  have len: "length ?x < length b"
    using first_line_len [of "nat num - 1" "ctx_unread ctx"] num by linarith
  then obtain a t where t: "drop (length ?x) b = a # t"
    by (metis Cons_nth_drop_Suc)
  then have t': "t = drop (Suc (length ?x)) b"
    by (metis drop_Suc list.sel(3) tl_drop)
  have loop: "reader_loop b 0 num ctx = Inr (?x @ a # t, length ?x, ctx_advance (length ?x) ctx)"
    using reader_loop_ok [OF ok, of "[]" 0 num b] num t by (simp add: nn Let_def)
  have "ini_reader_string b num ctx = Inr (Some (store ?x b), ctx_advance (length ?x) ctx)"
    using ok ne num loop t' by (simp add: ini_reader_string_def ctx_unread_Nil_iff store_def)
  moreover have "length ?x \<le> ctx_num_left ctx"
    using first_line_le_rest [of "nat num - 1" "ctx_unread ctx"] ok by (simp add: length_ctx_unread)
  ultimately show "\<exists>ctx'. ini_reader_string b num ctx = Inr (Some (store ?x b), ctx') \<and>
      ctx_ok ctx' \<and> ctx_unread ctx' = drop (length ?x) (ctx_unread ctx)"
    using ok by (auto intro: ctx_ok_advance simp: ctx_unread_advance)
qed

section \<open>Chunks of a text\<close>

text \<open>The text as the parser sees it: one chunk per call of the reader.\<close>

function chunks :: "nat \<Rightarrow> string \<Rightarrow> string list" where
  "chunks n cs =
     (if n = 0 \<or> cs = [] then []
      else first_line n cs # chunks n (drop (length (first_line n cs)) cs))"
  by pat_completeness auto
termination
  by (relation "measure (\<lambda>(n, cs). length cs)") auto

declare chunks.simps [simp del]

lemma chunks_Nil [simp]: "chunks n [] = []"
  by (subst chunks.simps) simp

lemma chunks_step:
  "0 < n \<Longrightarrow> cs \<noteq> [] \<Longrightarrow>
   chunks n cs = first_line n cs # chunks n (drop (length (first_line n cs)) cs)"
  by (subst chunks.simps) simp

lemma chunks_line:
  "newline \<notin> set x \<Longrightarrow> length x < n \<Longrightarrow> chunks n (x @ newline # r) = (x @ [newline]) # chunks n r"
  by (subst chunks_step) (auto simp: first_line_newline)

lemma concat_chunks: "0 < n \<Longrightarrow> concat (chunks n cs) = cs"
proof (induction n cs rule: chunks.induct)
  case (1 n cs)
  show ?case
  proof (cases "cs = []")
    case True
    then show ?thesis by simp
  next
    case False
    with 1 have "concat (chunks n cs) =
        take (length (first_line n cs)) cs @ drop (length (first_line n cs)) cs"
      by (simp add: chunks_step first_line_prefix)
    then show ?thesis by simp
  qed
qed

end
