(* ===== verification/Ini_Parser.thy ===== *)
theory Ini_Parser
  imports Ini_Reader
begin

text \<open>
  The INI parser of \<^verbatim>\<open>conf.c\<close>: \<open>ini_parse_stream\<close>, \<open>ini_parse_file\<close>, \<open>ini_parse\<close> and
  \<open>ini_parse_string\<close>, compiled with the defaults of \<^verbatim>\<open>conf.h\<close> (a line buffer of 200 bytes on the
  stack, multi-line values, a byte order mark, inline comments after a semicolon; no stop at the
  first error, no handler call for a section, no name without a value).

  The first half is the program on its three buffers.  The second half is what it computes: a
  classification of each line (\<open>ini_entry\<close>) and its effect on section, previous name, first
  error and user data (\<open>ini_step\<close>).  That the program computes it is shown for all compile
  options at once, in \<open>Ini_Line_Refine\<close> and \<open>Ini_Stream_Refine\<close>; \<open>Ini_Build\<close> has the result for
  the options of the build.
\<close>

section \<open>The program\<close>

definition MAX_SECTION :: nat where "MAX_SECTION = 50"
definition MAX_NAME :: nat where "MAX_NAME = 50"
definition INI_MAX_LINE :: nat where "INI_MAX_LINE = 200"
definition INI_START_COMMENT_PREFIXES :: string where "INI_START_COMMENT_PREFIXES = '';#''"

lemmas ini_consts [simp] =
  MAX_SECTION_def MAX_NAME_def INI_MAX_LINE_def INI_START_COMMENT_PREFIXES_def

text \<open>A handler is called with the user data, section, name and value; 0 reports an error.\<close>

type_synonym 'u ini_handler = "'u \<Rightarrow> string \<Rightarrow> string \<Rightarrow> string \<Rightarrow> (int \<times> 'u) res"

text \<open>
  The local variables of \<open>ini_parse_stream\<close> that live across lines.  The two counters are of type
  \<open>int\<close> in the code and unbounded here: they agree for a file of fewer than \<open>2\<^sup>3\<^sup>1\<close> lines, which the
  theorems on the number returned assume.
\<close>

record 'u ini_state =
  line_buf :: buf
  section_buf :: buf
  prev_name_buf :: buf
  lineno :: nat
  ini_error :: nat
  ini_user :: 'u

definition set_error :: "'u ini_state \<Rightarrow> 'u ini_state" where
  "set_error st = (if ini_error st = 0 then st\<lparr>ini_error := lineno st\<rparr> else st)"

definition call_handler :: "'u ini_handler \<Rightarrow> 'u ini_state \<Rightarrow> string \<Rightarrow> string \<Rightarrow> 'u ini_state res"
where
  "call_handler h st name val =
     and_then (get_str (section_buf st) 0) (\<lambda>s.
     and_then (h (ini_user st) s name val) (\<lambda>(rc, u).
       let st' = st\<lparr>ini_user := u\<rparr> in Inr (if rc = 0 then set_error st' else st')))"

definition skip_bom :: "'u ini_state \<Rightarrow> nat res" where
  "skip_bom st =
     (if lineno st = 1
      then and_then (rd (line_buf st) 0) (\<lambda>c0.
           if c0 = CHR 0xEF then and_then (rd (line_buf st) 1) (\<lambda>c1.
           if c1 = CHR 0xBB then and_then (rd (line_buf st) 2) (\<lambda>c2.
           Inr (if c2 = CHR 0xBF then 3 else 0)) else Inr 0) else Inr 0)
      else Inr 0)"

definition section_line :: "'u ini_state \<Rightarrow> nat \<Rightarrow> 'u ini_state res" where
  "section_line st start =
     and_then (find_chars_or_comment (line_buf st) (start + 1) (Some '']'')) (\<lambda>fin.
     and_then (rd (line_buf st) fin) (\<lambda>e.
       if e = CHR '']''
       then and_then (wr (line_buf st) fin NUL) (\<lambda>l.
            and_then (strncpy0 (section_buf st) l (start + 1) MAX_SECTION) (\<lambda>sec.
            and_then (wr (prev_name_buf st) 0 NUL) (\<lambda>pn.
              Inr (st\<lparr>line_buf := l, section_buf := sec, prev_name_buf := pn\<rparr>))))
       else Inr (set_error st)))"

definition pair_line :: "'u ini_handler \<Rightarrow> 'u ini_state \<Rightarrow> nat \<Rightarrow> 'u ini_state res" where
  "pair_line h st start =
     and_then (find_chars_or_comment (line_buf st) start (Some ''=:'')) (\<lambda>fin.
     and_then (rd (line_buf st) fin) (\<lambda>e.
       if e = CHR ''='' \<or> e = CHR '':''
       then and_then (wr (line_buf st) fin NUL) (\<lambda>l.
            and_then (rstrip l start) (\<lambda>l.
            let val = fin + 1 in
            and_then (find_chars_or_comment l val None) (\<lambda>fin.
            and_then (rd l fin) (\<lambda>e.
            and_then (if e \<noteq> NUL then wr l fin NUL else Inr l) (\<lambda>l.
            and_then (lskip l val) (\<lambda>val.
            and_then (rstrip l val) (\<lambda>l.
            and_then (strncpy0 (prev_name_buf st) l start MAX_NAME) (\<lambda>pn.
            and_then (get_str l start) (\<lambda>name_s.
            and_then (get_str l val) (\<lambda>val_s.
              call_handler h (st\<lparr>line_buf := l, prev_name_buf := pn\<rparr>) name_s val_s))))))))))
       else Inr (set_error st)))"

text \<open>The body of the loop over the lines, after the reader has filled the buffer.\<close>

definition ini_line :: "'u ini_handler \<Rightarrow> 'u ini_state \<Rightarrow> 'u ini_state res" where
  "ini_line h st0 =
     (let st1 = st0\<lparr>lineno := Suc (lineno st0)\<rparr> in
      and_then (skip_bom st1) (\<lambda>s0.
      and_then (rstrip (line_buf st1) s0) (\<lambda>l.
      and_then (lskip l s0) (\<lambda>start.
      and_then (rd l start) (\<lambda>c.
      and_then (rd (prev_name_buf st1) 0) (\<lambda>p0.
        let st = st1\<lparr>line_buf := l\<rparr> in
        if strchr_found INI_START_COMMENT_PREFIXES c then Inr st
        else if p0 \<noteq> NUL \<and> c \<noteq> NUL \<and> start > 0
          then and_then (get_str (prev_name_buf st) 0) (\<lambda>name_s.
               and_then (get_str l start) (\<lambda>val_s. call_handler h st name_s val_s))
        else if c = CHR ''['' then section_line st start
        else if c \<noteq> NUL then pair_line h st start
        else Inr st))))))"

partial_function (option) ini_loop ::
    "'st ini_reader \<Rightarrow> 'u ini_handler \<Rightarrow> 'st \<Rightarrow> 'u ini_state \<Rightarrow> ('u ini_state res) option" where
  "ini_loop reader h stream st =
     (case reader (line_buf st) (int INI_MAX_LINE) stream of
        Inl e \<Rightarrow> Some (Inl e)
      | Inr (r, stream') \<Rightarrow>
          (case r of
             None \<Rightarrow> Some (Inr st)
           | Some l \<Rightarrow>
               (case ini_line h (st\<lparr>line_buf := l\<rparr>) of
                  Inl e \<Rightarrow> Some (Inl e)
                | Inr st' \<Rightarrow> ini_loop reader h stream' st')))"

definition ini_start :: "'u \<Rightarrow> 'u ini_state" where
  "ini_start user =
     \<lparr>line_buf = replicate INI_MAX_LINE NUL,
      section_buf = replicate MAX_SECTION NUL,
      prev_name_buf = replicate MAX_NAME NUL,
      lineno = 0, ini_error = 0, ini_user = user\<rparr>"

definition ini_parse_stream :: "'st ini_reader \<Rightarrow> 'st \<Rightarrow> 'u ini_handler \<Rightarrow> 'u \<Rightarrow> (int \<times> 'u) res" where
  "ini_parse_stream reader stream h user =
     (case ini_loop reader h stream (ini_start user) of
        None \<Rightarrow> Inl Nonterminating
      | Some r \<Rightarrow> and_then r (\<lambda>st. Inr (int (ini_error st), ini_user st)))"

definition ini_parse_file :: "c_file \<Rightarrow> 'u ini_handler \<Rightarrow> 'u \<Rightarrow> (int \<times> 'u) res" where
  "ini_parse_file file h user = ini_parse_stream fgets file h user"

text \<open>
  \<open>ini_parse\<close> opens the file by name and closes it at the end.  \<open>c_fopen\<close> and \<open>c_fclose\<close> are the
  C library's, acting on the world the user data is part of; \<open>None\<close> is the null pointer.
\<close>

definition ini_parse :: "(string \<Rightarrow> 'u \<Rightarrow> c_file option \<times> 'u) \<Rightarrow> ('u \<Rightarrow> 'u) \<Rightarrow>
    string \<Rightarrow> 'u ini_handler \<Rightarrow> 'u \<Rightarrow> (int \<times> 'u) res" where
  "ini_parse c_fopen c_fclose filename h user =
     (case c_fopen filename user of
        (None, user') \<Rightarrow> Inr (-1, user')
      | (Some file, user') \<Rightarrow>
          and_then (ini_parse_file file h user') (\<lambda>(error, user''). Inr (error, c_fclose user'')))"

text \<open>The argument is the buffer the C string lives in, from the string's first byte.\<close>

definition ini_parse_string :: "buf \<Rightarrow> 'u ini_handler \<Rightarrow> 'u \<Rightarrow> (int \<times> 'u) res" where
  "ini_parse_string s h user =
     and_then (c_strlen s 0) (\<lambda>n.
       ini_parse_stream ini_reader_string
         \<lparr>ctx_base = s, ctx_ptr = 0, ctx_num_left = n\<rparr> h user)"

section \<open>What it computes\<close>

datatype ini_entry =
    Skip                  \<comment> \<open>blank or comment\<close>
  | More string           \<comment> \<open>continuation of the previous value\<close>
  | Section string
  | Pair string string
  | Malformed

definition has_bom :: "string \<Rightarrow> bool" where
  "has_bom x \<longleftrightarrow> take 3 x = [CHR 0xEF, CHR 0xBB, CHR 0xBF]"

definition section_entry :: "string \<Rightarrow> ini_entry" where
  "section_entry z =
     (let r = from_stop (Some '']'') z
      in if r \<noteq> [] \<and> hd r = CHR '']'' then Section (before_stop (Some '']'') False z) else Malformed)"

definition pair_entry :: "string \<Rightarrow> ini_entry" where
  "pair_entry z =
     (let r = from_stop (Some ''=:'') z
      in if r \<noteq> [] \<and> (hd r = CHR ''='' \<or> hd r = CHR '':'')
         then Pair (rstrip_str (before_stop (Some ''=:'') False z))
                (rstrip_str (dropWhile isspace (before_stop None False (tl r))))
         else Malformed)"

definition ini_entry :: "bool \<Rightarrow> bool \<Rightarrow> string \<Rightarrow> ini_entry" where
  "ini_entry first cont x =
     (let bom = first \<and> has_bom x;
          y = rstrip_str (if bom then drop 3 x else x);
          z = dropWhile isspace y
      in if z = [] \<or> hd z \<in> set INI_START_COMMENT_PREFIXES then Skip
         else if cont \<and> (bom \<or> z \<noteq> y) then More z
         else if hd z = CHR ''['' then section_entry (tl z)
         else pair_entry z)"

record 'u ini_abs =
  a_section :: string
  a_prev :: string
  a_lineno :: nat
  a_error :: nat
  a_user :: 'u

definition a_fail :: "'u ini_abs \<Rightarrow> 'u ini_abs" where
  "a_fail a = (if a_error a = 0 then a\<lparr>a_error := a_lineno a\<rparr> else a)"

definition a_emit :: "'u ini_handler \<Rightarrow> 'u ini_abs \<Rightarrow> string \<Rightarrow> string \<Rightarrow> 'u ini_abs res" where
  "a_emit h a name val =
     and_then (h (a_user a) (a_section a) name val) (\<lambda>(rc, u).
       let a' = a\<lparr>a_user := u\<rparr> in Inr (if rc = 0 then a_fail a' else a'))"

definition a_effect :: "'u ini_handler \<Rightarrow> 'u ini_abs \<Rightarrow> ini_entry \<Rightarrow> 'u ini_abs res" where
  "a_effect h a e =
     (case e of
        Skip \<Rightarrow> Inr a
      | More v \<Rightarrow> a_emit h a (a_prev a) v
      | Section s \<Rightarrow> Inr (a\<lparr>a_section := take (MAX_SECTION - 1) s, a_prev := []\<rparr>)
      | Pair n v \<Rightarrow> a_emit h (a\<lparr>a_prev := take (MAX_NAME - 1) n\<rparr>) n v
      | Malformed \<Rightarrow> Inr (a_fail a))"

definition ini_step :: "'u ini_handler \<Rightarrow> 'u ini_abs \<Rightarrow> string \<Rightarrow> 'u ini_abs res" where
  "ini_step h a x =
     (let a' = a\<lparr>a_lineno := Suc (a_lineno a)\<rparr>
      in a_effect h a' (ini_entry (a_lineno a' = 1) (a_prev a' \<noteq> []) x))"

fun ini_run :: "'u ini_handler \<Rightarrow> 'u ini_abs \<Rightarrow> string list \<Rightarrow> 'u ini_abs res" where
  "ini_run h a [] = Inr a"
| "ini_run h a (x # xs) = and_then (ini_step h a x) (\<lambda>a'. ini_run h a' xs)"

text \<open>The C string a chunk leaves in the buffer, and the result for a whole text.\<close>

definition c_view :: "string \<Rightarrow> string" where
  "c_view x = takeWhile (\<lambda>c. c \<noteq> NUL) x"

definition ini_init :: "'u \<Rightarrow> 'u ini_abs" where
  "ini_init u = \<lparr>a_section = [], a_prev = [], a_lineno = 0, a_error = 0, a_user = u\<rparr>"

definition ini_text :: "'u ini_handler \<Rightarrow> 'u \<Rightarrow> string \<Rightarrow> (int \<times> 'u) res" where
  "ini_text h u txt =
     and_then (ini_run h (ini_init u) (map c_view (chunks (INI_MAX_LINE - 1) txt)))
       (\<lambda>a. Inr (int (a_error a), a_user a))"

section \<open>Buffers that hold a string\<close>

definition holds_str :: "nat \<Rightarrow> buf \<Rightarrow> string \<Rightarrow> bool" where
  "holds_str n b x \<longleftrightarrow> length b = n \<and> c_str x \<and> (\<exists>r. b = x @ NUL # r)"

lemma holds_str_get: "holds_str n b x \<Longrightarrow> get_str b 0 = Inr x"
  by (auto simp: holds_str_def)

lemma holds_str_rd0:
  "holds_str n b x \<Longrightarrow> \<exists>c. rd b 0 = Inr c \<and> (c = NUL \<longleftrightarrow> x = [])"
  by (cases x) (auto simp: holds_str_def)

lemma holds_str_clear: "holds_str n b x \<Longrightarrow> \<exists>b'. wr b 0 NUL = Inr b' \<and> holds_str n b' []"
  by (cases b) (auto simp: holds_str_def wr_def)

lemma holds_str_copy:
  assumes "c_str x" and "holds_str n b y" and "0 < n"
  shows "\<exists>b'. strncpy0 b (pre @ x @ NUL # r) (length pre) n = Inr b' \<and>
              holds_str n b' (take (n - 1) x)"
proof -
  have "strncpy0 b (pre @ x @ NUL # r) (length pre) n =
      Inr (take (n - 1) x @ NUL # drop (Suc (length (take (n - 1) x))) b)"
    using assms by (intro strncpy0_ok) (auto simp: holds_str_def)
  then show ?thesis
    using assms by (auto simp: holds_str_def intro: c_str_take)
qed

lemma skip_bom_ok:
  assumes "line_buf st = x @ NUL # r"
  shows "skip_bom st = Inr (if lineno st = 1 \<and> has_bom x then 3 else 0)"
proof (cases "\<exists>c0 c1 c2 y. x = c0 # c1 # c2 # y")
  case True
  with assms show ?thesis
    by (auto simp: skip_bom_def has_bom_def rd_def)
next
  case False
  then consider "x = []" | c0 where "x = [c0]" | c0 c1 where "x = [c0, c1]"
    by (metis neq_Nil_conv)
  then show ?thesis
    using assms by cases (auto simp: skip_bom_def has_bom_def rd_def)
qed

text \<open>\<open>lskip(rstrip(start))\<close>: the white space is gone on both sides, the rest of the line is kept.\<close>

lemma trim_ok:
  fixes pre :: string
  assumes x: "c_str x"
  defines "q \<equiv> pre @ takeWhile isspace (rstrip_str x)"
    and "z \<equiv> dropWhile isspace (rstrip_str x)"
  obtains r' where "rstrip (pre @ x @ NUL # r) (length pre) = Inr (q @ z @ NUL # r')"
    "lskip (q @ z @ NUL # r') (length pre) = Inr (length q)"
    "length (q @ z @ NUL # r') = length (pre @ x @ NUL # r)"
proof
  let ?y = "rstrip_str x"
  let ?r = "replicate (length x - length ?y) NUL @ r"
  have qz: "q @ z @ NUL # ?r = pre @ ?y @ NUL # ?r"
    by (simp add: q_def z_def)
  show "rstrip (pre @ x @ NUL # r) (length pre) = Inr (q @ z @ NUL # ?r)"
    unfolding qz by (rule rstrip_ok [OF x])
  show "lskip (q @ z @ NUL # ?r) (length pre) = Inr (length q)"
    unfolding qz using lskip_ok [of ?y pre ?r] x by (auto simp: q_def)
  show "length (q @ z @ NUL # ?r) = length (pre @ x @ NUL # r)"
    unfolding qz using rstrip_str_len [of x] by simp
qed

lemma c_view_store:
  assumes "length x < length b"
  obtains r where "store x b = c_view x @ NUL # r"
proof (cases "c_str x")
  case True
  then show thesis
    using that by (simp add: store_def c_view_def)
next
  case False
  then obtain y where "x = c_view x @ NUL # y"
    unfolding c_view_def by (metis c_str_def split_at_NUL)
  then show thesis
    using that [of "y @ NUL # drop (Suc (length x)) b"]
    by (metis store_def append.assoc append_Cons)
qed

lemma c_str_c_view [simp]: "c_str (c_view x)"
  by (simp add: c_view_def)

end
