(* ===== verification/Ini_Options.thy ===== *)
theory Ini_Options
  imports Ini_Parser
begin

text \<open>
  \<open>ini_parse_stream\<close> of \<^verbatim>\<open>conf.c\<close> with its compile options: every \<open>#if\<close> of the function is a test of
  the record \<open>ini_options\<close>, whose fields are the macros of \<^verbatim>\<open>conf.h\<close>.  The line buffer is an array on
  the stack, or a block from \<open>ini_malloc\<close>, which \<open>INI_ALLOW_REALLOC\<close> lets grow while a line does not
  fit.  The allocation functions are a parameter (\<open>allocator\<close>), as \<open>INI_CUSTOM_ALLOCATOR\<close> has it.
\<close>

section \<open>Options\<close>

record ini_options =
  o_handler_lineno :: bool
  o_allow_multiline :: bool
  o_allow_bom :: bool
  o_start_comment_prefixes :: string
  o_allow_inline_comments :: bool
  o_inline_comment_prefixes :: string
  o_use_stack :: bool
  o_max_line :: nat
  o_allow_realloc :: bool
  o_initial_alloc :: nat
  o_stop_on_first_error :: bool
  o_call_handler_on_new_section :: bool
  o_allow_no_value :: bool

definition default_options :: ini_options where
  "default_options =
     \<lparr>o_handler_lineno = False, o_allow_multiline = True, o_allow_bom = True,
      o_start_comment_prefixes = '';#'', o_allow_inline_comments = True,
      o_inline_comment_prefixes = '';'', o_use_stack = True, o_max_line = 200,
      o_allow_realloc = False, o_initial_alloc = 200, o_stop_on_first_error = False,
      o_call_handler_on_new_section = False, o_allow_no_value = False\<rparr>"

text \<open>
  The null pointer for name or value is \<open>None\<close>; the line number is passed when the option says so.
\<close>

type_synonym 'u opt_handler =
  "'u \<Rightarrow> string \<Rightarrow> string option \<Rightarrow> string option \<Rightarrow> nat option \<Rightarrow> (int \<times> 'u) res"

text \<open>
  A block is named by its address; a new one comes with the bytes that happen to be in it.  The
  functions act on the world the user data is part of.
\<close>

record 'u allocator =
  ini_malloc :: "nat \<Rightarrow> 'u \<Rightarrow> (nat \<times> buf) option \<times> 'u"
  ini_realloc :: "nat \<Rightarrow> buf \<Rightarrow> nat \<Rightarrow> 'u \<Rightarrow> (nat \<times> buf) option \<times> 'u"
  ini_free :: "nat \<Rightarrow> 'u \<Rightarrow> 'u res"

section \<open>A line\<close>

definition opt_stops_at :: "ini_options \<Rightarrow> string option \<Rightarrow> bool \<Rightarrow> char \<Rightarrow> bool" where
  "opt_stops_at opts chars was_space c \<longleftrightarrow>
     (case chars of None \<Rightarrow> False | Some cs \<Rightarrow> strchr_found cs c) \<or>
     (o_allow_inline_comments opts \<and> was_space \<and> strchr_found (o_inline_comment_prefixes opts) c)"

function opt_find_loop :: "ini_options \<Rightarrow> buf \<Rightarrow> string option \<Rightarrow> bool \<Rightarrow> nat \<Rightarrow> nat res" where
  "opt_find_loop opts b chars was_space s =
     (if s < length b
      then (if b ! s \<noteq> NUL \<and> \<not> opt_stops_at opts chars was_space (b ! s)
            then opt_find_loop opts b chars (isspace (b ! s)) (Suc s) else Inr s)
      else Inl Read_oob)"
  by pat_completeness auto
termination
  by (relation "measure (\<lambda>(opts, b, chars, was_space, s). length b - s)") auto

declare opt_find_loop.simps [simp del]

definition opt_find_chars_or_comment :: "ini_options \<Rightarrow> buf \<Rightarrow> nat \<Rightarrow> string option \<Rightarrow> nat res" where
  "opt_find_chars_or_comment opts b s chars = opt_find_loop opts b chars False s"

text \<open>The macro \<open>HANDLER\<close> with the test around it.\<close>

definition opt_call_handler ::
    "ini_options \<Rightarrow> 'u opt_handler \<Rightarrow> 'u ini_state \<Rightarrow> string option \<Rightarrow> string option \<Rightarrow> 'u ini_state res"
where
  "opt_call_handler opts h st name val =
     and_then (get_str (section_buf st) 0) (\<lambda>s.
     and_then (h (ini_user st) s name val (if o_handler_lineno opts then Some (lineno st) else None))
       (\<lambda>(rc, u). let st' = st\<lparr>ini_user := u\<rparr> in Inr (if rc = 0 then set_error st' else st')))"

definition opt_section_line ::
    "ini_options \<Rightarrow> 'u opt_handler \<Rightarrow> 'u ini_state \<Rightarrow> nat \<Rightarrow> 'u ini_state res" where
  "opt_section_line opts h st start =
     and_then (opt_find_chars_or_comment opts (line_buf st) (start + 1) (Some '']'')) (\<lambda>fin.
     and_then (rd (line_buf st) fin) (\<lambda>e.
       if e = CHR '']''
       then and_then (wr (line_buf st) fin NUL) (\<lambda>l.
            and_then (strncpy0 (section_buf st) l (start + 1) MAX_SECTION) (\<lambda>sec.
            and_then (wr (prev_name_buf st) 0 NUL) (\<lambda>pn.
            let st = st\<lparr>line_buf := l, section_buf := sec, prev_name_buf := pn\<rparr> in
              if o_call_handler_on_new_section opts then opt_call_handler opts h st None None
              else Inr st)))
       else Inr (set_error st)))"

text \<open>\<open>*end = 0\<close> at the inline comment, when these are allowed.\<close>

definition opt_cut_comment :: "ini_options \<Rightarrow> buf \<Rightarrow> nat \<Rightarrow> buf res" where
  "opt_cut_comment opts l val =
     (if o_allow_inline_comments opts
      then and_then (opt_find_chars_or_comment opts l val None) (\<lambda>fin.
           and_then (rd l fin) (\<lambda>e. if e \<noteq> NUL then wr l fin NUL else Inr l))
      else Inr l)"

definition opt_pair_line ::
    "ini_options \<Rightarrow> 'u opt_handler \<Rightarrow> 'u ini_state \<Rightarrow> nat \<Rightarrow> 'u ini_state res" where
  "opt_pair_line opts h st start =
     and_then (opt_find_chars_or_comment opts (line_buf st) start (Some ''=:'')) (\<lambda>fin.
     and_then (rd (line_buf st) fin) (\<lambda>e.
       if e = CHR ''='' \<or> e = CHR '':''
       then and_then (wr (line_buf st) fin NUL) (\<lambda>l.
            and_then (rstrip l start) (\<lambda>l.
            let val = fin + 1 in
            and_then (opt_cut_comment opts l val) (\<lambda>l.
            and_then (lskip l val) (\<lambda>val.
            and_then (rstrip l val) (\<lambda>l.
            and_then (strncpy0 (prev_name_buf st) l start MAX_NAME) (\<lambda>pn.
            and_then (get_str l start) (\<lambda>name_s.
            and_then (get_str l val) (\<lambda>val_s.
              opt_call_handler opts h (st\<lparr>line_buf := l, prev_name_buf := pn\<rparr>)
                (Some name_s) (Some val_s)))))))))
       else if ini_error st = 0
       then (if o_allow_no_value opts
             then and_then (wr (line_buf st) fin NUL) (\<lambda>l.
                  and_then (rstrip l start) (\<lambda>l.
                  and_then (get_str l start) (\<lambda>name_s.
                    opt_call_handler opts h (st\<lparr>line_buf := l\<rparr>) (Some name_s) None)))
             else Inr (set_error st))
       else Inr st))"

definition opt_line :: "ini_options \<Rightarrow> 'u opt_handler \<Rightarrow> 'u ini_state \<Rightarrow> 'u ini_state res" where
  "opt_line opts h st0 =
     (let st1 = st0\<lparr>lineno := Suc (lineno st0)\<rparr> in
      and_then (if o_allow_bom opts then skip_bom st1 else Inr 0) (\<lambda>s0.
      and_then (rstrip (line_buf st1) s0) (\<lambda>l.
      and_then (lskip l s0) (\<lambda>start.
      and_then (rd l start) (\<lambda>c.
      and_then (rd (prev_name_buf st1) 0) (\<lambda>p0.
        let st = st1\<lparr>line_buf := l\<rparr> in
        if strchr_found (o_start_comment_prefixes opts) c then Inr st
        else if o_allow_multiline opts \<and> p0 \<noteq> NUL \<and> c \<noteq> NUL \<and> start > 0
          then and_then (get_str (prev_name_buf st) 0) (\<lambda>name_s.
               and_then (get_str l start) (\<lambda>val_s.
                 opt_call_handler opts h st (Some name_s) (Some val_s)))
        else if c = CHR ''['' then opt_section_line opts h st start
        else if c \<noteq> NUL then opt_pair_line opts h st start
        else Inr st))))))"

section \<open>The loop over the lines\<close>

text \<open>
  The inner loop that makes the block twice as long, up to \<open>INI_MAX_LINE\<close>, and reads on behind the
  \<open>offset\<close> bytes it has.  \<open>None\<close> in the result is a failed \<open>ini_realloc\<close>; the block is free then.
\<close>

partial_function (option) opt_grow ::
    "ini_options \<Rightarrow> 'u allocator \<Rightarrow> 'st ini_reader \<Rightarrow> nat \<Rightarrow> buf \<Rightarrow> nat \<Rightarrow> nat \<Rightarrow> 'st \<Rightarrow> 'u \<Rightarrow>
     (((nat \<times> buf \<times> nat) option \<times> 'st \<times> 'u) res) option" where
  "opt_grow opts al reader addr line max_line offset stream u =
     (if Suc offset \<noteq> max_line then Some (Inr (Some (addr, line, max_line), stream, u))
      else (case (if offset = 0 then Inl Read_oob else rd line (offset - 1)) of
        Inl e \<Rightarrow> Some (Inl e)
      | Inr c \<Rightarrow>
          if c = newline then Some (Inr (Some (addr, line, max_line), stream, u))
          else (let max_line = min (2 * max_line) (o_max_line opts) in
            (case ini_realloc al addr line max_line u of
               (None, u) \<Rightarrow> Some (and_then (ini_free al addr u) (\<lambda>u. Inr (None, stream, u)))
             | (Some (addr, line), u) \<Rightarrow>
                 (case reader (drop offset line) (c_int (int max_line - int offset)) stream of
                    Inl e \<Rightarrow> Some (Inl e)
                  | Inr (None, stream) \<Rightarrow> Some (Inr (Some (addr, line, max_line), stream, u))
                  | Inr (Some d, stream) \<Rightarrow>
                      (let line = take offset line @ d in
                       if max_line \<ge> o_max_line opts
                       then Some (Inr (Some (addr, line, max_line), stream, u))
                       else (case c_strlen line offset of
                               Inl e \<Rightarrow> Some (Inl e)
                             | Inr n \<Rightarrow>
                                 opt_grow opts al reader addr line max_line (offset + n) stream u)))))))"

definition opt_growing :: "ini_options \<Rightarrow> bool" where
  "opt_growing opts \<longleftrightarrow> o_allow_realloc opts \<and> \<not> o_use_stack opts"

definition opt_refill ::
    "ini_options \<Rightarrow> 'u allocator \<Rightarrow> 'st ini_reader \<Rightarrow> nat \<Rightarrow> buf \<Rightarrow> nat \<Rightarrow> 'st \<Rightarrow> 'u \<Rightarrow>
     (((nat \<times> buf \<times> nat) option \<times> 'st \<times> 'u) res) option" where
  "opt_refill opts al reader addr line max_line stream u =
     (if opt_growing opts
      then (case c_strlen line 0 of
              Inl e \<Rightarrow> Some (Inl e)
            | Inr offset \<Rightarrow> opt_grow opts al reader addr line max_line offset stream u)
      else Some (Inr (Some (addr, line, max_line), stream, u)))"

text \<open>
  The loop ends with the address of the line buffer and the variables, or with the world alone when
  memory ran out.
\<close>

partial_function (option) opt_loop ::
    "ini_options \<Rightarrow> 'u allocator \<Rightarrow> 'st ini_reader \<Rightarrow> 'u opt_handler \<Rightarrow> 'st \<Rightarrow> nat \<Rightarrow> nat \<Rightarrow>
     'u ini_state \<Rightarrow> (('u + nat \<times> 'u ini_state) res) option" where
  "opt_loop opts al reader h stream addr max_line st =
     (case reader (line_buf st) (c_int (int max_line)) stream of
        Inl e \<Rightarrow> Some (Inl e)
      | Inr (None, stream) \<Rightarrow> Some (Inr (Inr (addr, st)))
      | Inr (Some l, stream) \<Rightarrow>
          (case opt_refill opts al reader addr l max_line stream (ini_user st) of
             None \<Rightarrow> None
           | Some (Inl e) \<Rightarrow> Some (Inl e)
           | Some (Inr (None, stream, u)) \<Rightarrow> Some (Inr (Inl u))
           | Some (Inr (Some (addr, l, max_line), stream, u)) \<Rightarrow>
               (case opt_line opts h (st\<lparr>line_buf := l, ini_user := u\<rparr>) of
                  Inl e \<Rightarrow> Some (Inl e)
                | Inr st \<Rightarrow>
                    if o_stop_on_first_error opts \<and> ini_error st \<noteq> 0 then Some (Inr (Inr (addr, st)))
                    else opt_loop opts al reader h stream addr max_line st)))"

declare opt_grow.simps [code] and opt_loop.simps [code]

text \<open>What follows the loop: the block is freed and the error returned.\<close>

definition opt_finish ::
    "ini_options \<Rightarrow> 'u allocator \<Rightarrow> (('u + nat \<times> 'u ini_state) res) option \<Rightarrow> (int \<times> 'u) res" where
  "opt_finish opts al r =
     (case r of
        None \<Rightarrow> Inl Nonterminating
      | Some r \<Rightarrow>
          and_then r (\<lambda>x. case x of
              Inl u \<Rightarrow> Inr (-2, u)
            | Inr (addr, st) \<Rightarrow>
                if o_use_stack opts then Inr (int (ini_error st), ini_user st)
                else and_then (ini_free al addr (ini_user st)) (\<lambda>u. Inr (int (ini_error st), u))))"

definition opt_parse_stream ::
    "ini_options \<Rightarrow> 'u allocator \<Rightarrow> 'st ini_reader \<Rightarrow> 'st \<Rightarrow> 'u opt_handler \<Rightarrow> 'u \<Rightarrow> (int \<times> 'u) res" where
  "opt_parse_stream opts al reader stream h user =
     (if o_use_stack opts
      then opt_finish opts al
             (opt_loop opts al reader h stream 0 (o_max_line opts)
               ((ini_start user)\<lparr>line_buf := replicate (o_max_line opts) NUL\<rparr>))
      else (case ini_malloc al (o_initial_alloc opts) user of
              (None, user) \<Rightarrow> Inr (-2, user)
            | (Some (addr, line), user) \<Rightarrow>
                opt_finish opts al
                  (opt_loop opts al reader h stream addr (o_initial_alloc opts)
                    ((ini_start user)\<lparr>line_buf := line\<rparr>))))"

end
