(* ===== verification/Ini_Options_Spec.thy ===== *)
theory Ini_Options_Spec
  imports Ini_Options
begin

text \<open>
  What the parser computes under its options: \<open>opt_entry\<close> classifies a line, \<open>opt_step\<close> is the
  effect of a line, \<open>opt_run\<close> of the lines in order, \<open>opt_text\<close> of a text cut into lines of at
  most \<open>n - 1\<close> bytes.  The program refines it line by line.  This is proved in the locale
  \<open>handler_sim\<close>, for a handler that may also change what the specification does not see (the heap):
  \<open>view\<close> is the part that is specified, \<open>held B\<close> says that exactly the blocks \<open>B\<close>, which are not the
  handler's, are allocated besides its own.
\<close>

section \<open>Specification\<close>

datatype opt_kind =
    O_skip                    \<comment> \<open>blank or comment\<close>
  | O_more string             \<comment> \<open>continuation of the previous value\<close>
  | O_section string
  | O_open                    \<comment> \<open>section without its bracket\<close>
  | O_pair string string
  | O_bare string             \<comment> \<open>name without a value\<close>

definition opt_ends :: "ini_options \<Rightarrow> string option \<Rightarrow> bool \<Rightarrow> char \<Rightarrow> bool" where
  "opt_ends opts chars was_space c \<longleftrightarrow>
     c \<in> (case chars of None \<Rightarrow> {} | Some cs \<Rightarrow> set cs) \<or>
     (o_allow_inline_comments opts \<and> was_space \<and> c \<in> set (o_inline_comment_prefixes opts))"

lemma opt_stops_at_ends: "c \<noteq> NUL \<Longrightarrow> opt_stops_at opts chars was_space c \<longleftrightarrow> opt_ends opts chars was_space c"
  by (auto simp: opt_stops_at_def opt_ends_def strchr_found_def split: option.splits)

fun opt_before :: "ini_options \<Rightarrow> string option \<Rightarrow> bool \<Rightarrow> string \<Rightarrow> string" where
  "opt_before opts chars was_space [] = []"
| "opt_before opts chars was_space (c # x) =
     (if opt_ends opts chars was_space c then [] else c # opt_before opts chars (isspace c) x)"

definition opt_from :: "ini_options \<Rightarrow> string option \<Rightarrow> string \<Rightarrow> string" where
  "opt_from opts chars x = drop (length (opt_before opts chars False x)) x"

definition opt_uncomment :: "ini_options \<Rightarrow> string \<Rightarrow> string" where
  "opt_uncomment opts v = (if o_allow_inline_comments opts then opt_before opts None False v else v)"

definition opt_section_entry :: "ini_options \<Rightarrow> string \<Rightarrow> opt_kind" where
  "opt_section_entry opts z =
     (let r = opt_from opts (Some '']'') z
      in if r \<noteq> [] \<and> hd r = CHR '']'' then O_section (opt_before opts (Some '']'') False z) else O_open)"

definition opt_pair_entry :: "ini_options \<Rightarrow> string \<Rightarrow> opt_kind" where
  "opt_pair_entry opts z =
     (let r = opt_from opts (Some ''=:'') z; n = rstrip_str (opt_before opts (Some ''=:'') False z)
      in if r \<noteq> [] \<and> (hd r = CHR ''='' \<or> hd r = CHR '':'')
         then O_pair n (rstrip_str (dropWhile isspace (opt_uncomment opts (tl r))))
         else O_bare n)"

definition opt_entry :: "ini_options \<Rightarrow> bool \<Rightarrow> bool \<Rightarrow> string \<Rightarrow> opt_kind" where
  "opt_entry opts first cont x =
     (let bom = o_allow_bom opts \<and> first \<and> has_bom x;
          y = rstrip_str (if bom then drop 3 x else x);
          z = dropWhile isspace y
      in if z = [] \<or> hd z \<in> set (o_start_comment_prefixes opts) then O_skip
         else if o_allow_multiline opts \<and> cont \<and> (bom \<or> z \<noteq> y) then O_more z
         else if hd z = CHR ''['' then opt_section_entry opts (tl z)
         else opt_pair_entry opts z)"

definition opt_emit ::
    "ini_options \<Rightarrow> 'v opt_handler \<Rightarrow> 'v ini_abs \<Rightarrow> string option \<Rightarrow> string option \<Rightarrow> 'v ini_abs res" where
  "opt_emit opts g a name val =
     and_then (g (a_user a) (a_section a) name val
         (if o_handler_lineno opts then Some (a_lineno a) else None))
       (\<lambda>(rc, u). let a' = a\<lparr>a_user := u\<rparr> in Inr (if rc = 0 then a_fail a' else a'))"

definition opt_effect :: "ini_options \<Rightarrow> 'v opt_handler \<Rightarrow> 'v ini_abs \<Rightarrow> opt_kind \<Rightarrow> 'v ini_abs res" where
  "opt_effect opts g a e =
     (case e of
        O_skip \<Rightarrow> Inr a
      | O_more v \<Rightarrow> opt_emit opts g a (Some (a_prev a)) (Some v)
      | O_section s \<Rightarrow>
          let a = a\<lparr>a_section := take (MAX_SECTION - 1) s, a_prev := []\<rparr>
          in if o_call_handler_on_new_section opts then opt_emit opts g a None None else Inr a
      | O_open \<Rightarrow> Inr (a_fail a)
      | O_pair n v \<Rightarrow> opt_emit opts g (a\<lparr>a_prev := take (MAX_NAME - 1) n\<rparr>) (Some n) (Some v)
      | O_bare n \<Rightarrow>
          if a_error a = 0 \<and> o_allow_no_value opts then opt_emit opts g a (Some n) None
          else Inr (a_fail a))"

definition opt_step :: "ini_options \<Rightarrow> 'v opt_handler \<Rightarrow> 'v ini_abs \<Rightarrow> string \<Rightarrow> 'v ini_abs res" where
  "opt_step opts g a x =
     (let a' = a\<lparr>a_lineno := Suc (a_lineno a)\<rparr>
      in opt_effect opts g a' (opt_entry opts (a_lineno a' = 1) (a_prev a' \<noteq> []) x))"

fun opt_run :: "ini_options \<Rightarrow> 'v opt_handler \<Rightarrow> 'v ini_abs \<Rightarrow> string list \<Rightarrow> 'v ini_abs res" where
  "opt_run opts g a [] = Inr a"
| "opt_run opts g a (x # xs) =
     and_then (opt_step opts g a x) (\<lambda>a'.
       if o_stop_on_first_error opts \<and> a_error a' \<noteq> 0 then Inr a' else opt_run opts g a' xs)"

definition opt_text :: "ini_options \<Rightarrow> nat \<Rightarrow> 'v opt_handler \<Rightarrow> 'v \<Rightarrow> string \<Rightarrow> (int \<times> 'v) res" where
  "opt_text opts n g v txt =
     and_then (opt_run opts g (ini_init v) (map c_view (chunks (n - 1) txt)))
       (\<lambda>a. Inr (int (a_error a), a_user a))"

section \<open>Searching\<close>

lemma opt_before_prefix: "take (length (opt_before opts chars w x)) x = opt_before opts chars w x"
  by (induction opts chars w x rule: opt_before.induct) auto

lemma opt_before_from: "opt_before opts chars False x @ opt_from opts chars x = x"
  by (metis opt_before_prefix opt_from_def append_take_drop_id)

lemma c_str_opt_before [intro]: "c_str x \<Longrightarrow> c_str (opt_before opts chars w x)"
  by (metis opt_before_prefix c_str_take)

lemma c_str_opt_from [intro]: "c_str x \<Longrightarrow> c_str (opt_from opts chars x)"
  by (auto simp: opt_from_def)

lemma c_str_opt_uncomment [intro]: "c_str x \<Longrightarrow> c_str (opt_uncomment opts x)"
  by (auto simp: opt_uncomment_def)

lemma opt_find_loop_str:
  "c_str x \<Longrightarrow>
   opt_find_loop opts (pre @ x @ NUL # r) chars w (length pre) =
     Inr (length pre + length (opt_before opts chars w x))"
proof (induction x arbitrary: pre w)
  case Nil
  show ?case
    by (subst opt_find_loop.simps) simp
next
  case (Cons c x)
  have "opt_find_loop opts ((pre @ [c]) @ x @ NUL # r) chars (isspace c) (length (pre @ [c])) =
          Inr (length (pre @ [c]) + length (opt_before opts chars (isspace c) x))"
    using Cons.prems by (intro Cons.IH) auto
  with Cons.prems show ?case
    by (subst opt_find_loop.simps) (simp add: opt_stops_at_ends)
qed

lemma opt_find_ok:
  "c_str x \<Longrightarrow>
   opt_find_chars_or_comment opts (pre @ x @ NUL # r) (length pre) chars =
     Inr (length pre + length (opt_before opts chars False x))"
  by (simp add: opt_find_chars_or_comment_def opt_find_loop_str)

text \<open>
  Where the search stops there is the terminator or the byte it looked for; a NUL written there cuts
  the string.
\<close>

lemma opt_stop_ok:
  assumes x: "c_str x" and b: "b = opt_before opts chars False x" and f: "f = opt_from opts chars x"
  obtains r' where
    "opt_find_chars_or_comment opts (pre @ x @ NUL # r) (length pre) chars = Inr (length pre + length b)"
    "rd (pre @ x @ NUL # r) (length pre + length b) = Inr (if f = [] then NUL else hd f)"
    "wr (pre @ x @ NUL # r) (length pre + length b) NUL = Inr (pre @ b @ NUL # r')"
    "r' = (if f = [] then r else tl f @ NUL # r)"
    "length (pre @ b @ NUL # r') = length (pre @ x @ NUL # r)"
proof -
  let ?r = "if f = [] then r else tl f @ NUL # r" and ?c = "if f = [] then NUL else hd f"
  have "x = b @ f"
    using opt_before_from [of opts chars x] b f by simp
  then have e: "pre @ x @ NUL # r = (pre @ b) @ ?c # ?r"
    by (cases f) simp_all
  show thesis
  proof (rule that [OF _ _ _ refl])
    show "rd (pre @ x @ NUL # r) (length pre + length b) = Inr ?c"
      using rd_append [of "pre @ b" ?c ?r] unfolding e by simp
    show "wr (pre @ x @ NUL # r) (length pre + length b) NUL = Inr (pre @ b @ NUL # ?r)"
      using wr_append [of "pre @ b" ?c ?r NUL] unfolding e by simp
    show "length (pre @ b @ NUL # ?r) = length (pre @ x @ NUL # r)"
      unfolding e by simp
  qed (use opt_find_ok [OF x] b in simp)
qed

section \<open>Options of the buffer\<close>

text \<open>The specification does not look at where the buffer is, only at the length of a line.\<close>

definition with_buffer :: "bool \<Rightarrow> nat \<Rightarrow> bool \<Rightarrow> nat \<Rightarrow> ini_options \<Rightarrow> ini_options" where
  "with_buffer stack n grow k opts =
     opts\<lparr>o_use_stack := stack, o_max_line := n, o_allow_realloc := grow, o_initial_alloc := k\<rparr>"

lemma with_buffer_simps [simp]:
  "o_use_stack (with_buffer stack n grow k opts) = stack"
  "o_max_line (with_buffer stack n grow k opts) = n"
  "o_allow_realloc (with_buffer stack n grow k opts) = grow"
  "o_initial_alloc (with_buffer stack n grow k opts) = k"
  "o_handler_lineno (with_buffer stack n grow k opts) = o_handler_lineno opts"
  "o_allow_multiline (with_buffer stack n grow k opts) = o_allow_multiline opts"
  "o_allow_bom (with_buffer stack n grow k opts) = o_allow_bom opts"
  "o_start_comment_prefixes (with_buffer stack n grow k opts) = o_start_comment_prefixes opts"
  "o_allow_inline_comments (with_buffer stack n grow k opts) = o_allow_inline_comments opts"
  "o_inline_comment_prefixes (with_buffer stack n grow k opts) = o_inline_comment_prefixes opts"
  "o_stop_on_first_error (with_buffer stack n grow k opts) = o_stop_on_first_error opts"
  "o_call_handler_on_new_section (with_buffer stack n grow k opts) = o_call_handler_on_new_section opts"
  "o_allow_no_value (with_buffer stack n grow k opts) = o_allow_no_value opts"
  by (simp_all add: with_buffer_def)

lemma opt_before_buffer: "opt_before (with_buffer stack n grow k opts) = opt_before opts"
proof -
  have "opt_before (with_buffer stack n grow k opts) chars w x = opt_before opts chars w x" for chars w x
    by (induction opts chars w x rule: opt_before.induct) (simp_all add: opt_ends_def)
  then show ?thesis
    by (intro ext)
qed

lemma opt_entry_buffer: "opt_entry (with_buffer stack n grow k opts) = opt_entry opts"
  by (intro ext) (simp only: opt_entry_def opt_section_entry_def opt_pair_entry_def opt_from_def
      opt_uncomment_def opt_before_buffer with_buffer_simps)

lemma opt_emit_buffer: "opt_emit (with_buffer stack n grow k opts) = opt_emit opts"
  by (intro ext) (simp add: opt_emit_def)

lemma opt_run_buffer: "opt_run (with_buffer stack n grow k opts) g a xs = opt_run opts g a xs"
proof -
  have "opt_effect (with_buffer stack n grow k opts) g = opt_effect opts g"
    by (intro ext) (simp only: opt_effect_def opt_emit_buffer with_buffer_simps)
  then show ?thesis
    by (induction xs arbitrary: a) (simp_all add: opt_step_def opt_entry_buffer cong: if_cong)
qed

lemma opt_text_buffer: "opt_text (with_buffer stack n grow k opts) m g v t = opt_text opts m g v t"
  by (simp add: opt_text_def opt_run_buffer)

end
