(* ===== verification/Ini_Line_Refine.thy ===== *)
theory Ini_Line_Refine
  imports Ini_Options_Spec
begin

text \<open>
  One line: \<open>opt_line\<close> on its buffers refines \<open>opt_step\<close>, for every choice of the options.
\<close>

definition opt_rel :: "('u \<Rightarrow> 'v) \<Rightarrow> (nat set \<Rightarrow> 'u \<Rightarrow> bool) \<Rightarrow> nat \<Rightarrow> nat set \<Rightarrow>
    'u ini_state \<Rightarrow> 'v ini_abs \<Rightarrow> bool" where
  "opt_rel view held n B st a \<longleftrightarrow>
     holds_str MAX_SECTION (section_buf st) (a_section a) \<and>
     holds_str MAX_NAME (prev_name_buf st) (a_prev a) \<and>
     length (line_buf st) = n \<and>
     lineno st = a_lineno a \<and> ini_error st = a_error a \<and>
     view (ini_user st) = a_user a \<and> held B (ini_user st)"

locale handler_sim =
  fixes h :: "'u opt_handler" and g :: "'v opt_handler"
    and view :: "'u \<Rightarrow> 'v" and held :: "nat set \<Rightarrow> 'u \<Rightarrow> bool"
  assumes handler_sim:
    "held B u \<Longrightarrow>
     rel_sum (=) (\<lambda>(rc, u') (rc', v'). rc = rc' \<and> view u' = v' \<and> held B u')
       (h u s name val ln) (g (view u) s name val ln)"
begin

abbreviation rel :: "nat \<Rightarrow> nat set \<Rightarrow> 'u ini_state \<Rightarrow> 'v ini_abs \<Rightarrow> bool" where
  "rel \<equiv> opt_rel view held"

lemma rel_fail: "rel n B st a \<Longrightarrow> rel n B (set_error st) (a_fail a)"
  by (auto simp: opt_rel_def set_error_def a_fail_def)

lemma rel_call:
  assumes "rel n B st a"
  shows "rel_sum (=) (rel n B) (opt_call_handler opts h st name val) (opt_emit opts g a name val)"
proof -
  let ?ln = "if o_handler_lineno opts then Some (a_lineno a) else None"
  have st: "get_str (section_buf st) 0 = Inr (a_section a)" "lineno st = a_lineno a"
      "view (ini_user st) = a_user a" "held B (ini_user st)"
    using assms by (auto simp: opt_rel_def intro: holds_str_get)
  have upd: "view u = v \<Longrightarrow> held B u \<Longrightarrow> rel n B (st\<lparr>ini_user := u\<rparr>) (a\<lparr>a_user := v\<rparr>)" for u v
    using assms by (simp add: opt_rel_def)
  have "rel_sum (=) (\<lambda>(rc, u') (rc', v'). rc = rc' \<and> view u' = v' \<and> held B u')
      (h (ini_user st) (a_section a) name val ?ln) (g (a_user a) (a_section a) name val ?ln)"
    using handler_sim [OF st(4), of "a_section a" name val ?ln] st(3) by simp
  then show ?thesis
    unfolding opt_call_handler_def opt_emit_def st
    by (cases "h (ini_user st) (a_section a) name val ?ln"; cases "g (a_user a) (a_section a) name val ?ln")
      (auto simp: st Let_def upd rel_fail [OF upd])
qed

lemma rel_section:
  assumes rel: "rel n B st a" and z: "c_str z"
    and l: "line_buf st = pre @ CHR ''['' # z @ NUL # r"
  shows "rel_sum (=) (rel n B) (opt_section_line opts h st (length pre))
    (opt_effect opts g a (opt_section_entry opts z))"
proof -
  let ?p = "pre @ [CHR ''['']"
  define b where "b = opt_before opts (Some '']'') False z"
  define f where "f = opt_from opts (Some '']'') z"
  have cb: "c_str b"
    using z by (auto simp: b_def)
  obtain r' where s: "opt_find_chars_or_comment opts (?p @ z @ NUL # r) (length ?p) (Some '']'') =
        Inr (length ?p + length b)"
      "rd (?p @ z @ NUL # r) (length ?p + length b) = Inr (if f = [] then NUL else hd f)"
      "wr (?p @ z @ NUL # r) (length ?p + length b) NUL = Inr (?p @ b @ NUL # r')"
      "length (?p @ b @ NUL # r') = length (?p @ z @ NUL # r)"
    using opt_stop_ok [OF z b_def f_def, of ?p r] by blast
  obtain sec where sec: "strncpy0 (section_buf st) (?p @ b @ NUL # r') (length ?p) MAX_SECTION = Inr sec"
      "holds_str MAX_SECTION sec (take (MAX_SECTION - 1) b)"
    using rel cb holds_str_copy [of b MAX_SECTION "section_buf st" _ ?p r'] by (auto simp: opt_rel_def)
  obtain pn where pn: "wr (prev_name_buf st) 0 NUL = Inr pn" "holds_str MAX_NAME pn []"
    using rel by (meson opt_rel_def holds_str_clear)
  let ?st = "st\<lparr>line_buf := ?p @ b @ NUL # r', section_buf := sec, prev_name_buf := pn\<rparr>"
  have new: "rel n B ?st (a\<lparr>a_section := take (MAX_SECTION - 1) b, a_prev := []\<rparr>)"
    using rel sec(2) pn(2) s(4) l by (simp add: opt_rel_def)
  show ?thesis
    using s(1-3) sec(1) pn(1) new rel_call [OF new, of opts None None] rel_fail [OF rel] l
    by (simp add: opt_section_line_def opt_section_entry_def opt_effect_def Let_def b_def [symmetric]
        f_def [symmetric])
qed

end

text \<open>The value: the inline comment is cut off and white space is stripped on both sides.\<close>

lemma opt_cut_comment_ok:
  assumes v: "c_str v"
  obtains r' where "opt_cut_comment opts (pre @ v @ NUL # r) (length pre) =
      Inr (pre @ opt_uncomment opts v @ NUL # r')"
    "length (pre @ opt_uncomment opts v @ NUL # r') = length (pre @ v @ NUL # r)"
proof (cases "o_allow_inline_comments opts")
  case False
  with that show thesis
    by (simp add: opt_cut_comment_def opt_uncomment_def)
next
  case True
  define b where "b = opt_before opts None False v"
  define f where "f = opt_from opts None v"
  obtain r' where s: "opt_find_chars_or_comment opts (pre @ v @ NUL # r) (length pre) None =
        Inr (length pre + length b)"
      "rd (pre @ v @ NUL # r) (length pre + length b) = Inr (if f = [] then NUL else hd f)"
      "wr (pre @ v @ NUL # r) (length pre + length b) NUL = Inr (pre @ b @ NUL # r')"
      "r' = (if f = [] then r else tl f @ NUL # r)"
      "length (pre @ b @ NUL # r') = length (pre @ v @ NUL # r)"
    using opt_stop_ok [OF v b_def f_def, of pre r] by blast
  have "v = b @ f" and "c_str f"
    using opt_before_from [of opts None v] v by (auto simp: b_def f_def)
  then have "f \<noteq> [] \<Longrightarrow> hd f \<noteq> NUL" and "f = [] \<Longrightarrow> pre @ v @ NUL # r = pre @ b @ NUL # r'"
    using s(4) by (cases f; simp)+
  then have "opt_cut_comment opts (pre @ v @ NUL # r) (length pre) = Inr (pre @ b @ NUL # r')"
    using True s(1-3) by (simp add: opt_cut_comment_def)
  with True s(5) that [of r'] show thesis
    by (simp add: opt_uncomment_def b_def)
qed

lemma opt_value_ok:
  assumes v: "c_str v"
  defines "w \<equiv> \<lambda>opts. dropWhile isspace (opt_uncomment opts v)"
  obtains l1 l2 s r' where
    "opt_cut_comment opts (pre @ v @ NUL # r) (length pre) = Inr l1"
    "lskip l1 (length pre) = Inr s" "rstrip l1 s = Inr l2"
    "get_str l2 s = Inr (rstrip_str (w opts))" "l2 = pre @ r'"
    "length l2 = length (pre @ v @ NUL # r)"
proof -
  let ?b = "opt_uncomment opts v" and ?w = "w opts"
  have cb: "c_str ?b" and cw: "c_str ?w"
    using v by (auto simp: w_def)
  obtain r1 where l1: "opt_cut_comment opts (pre @ v @ NUL # r) (length pre) = Inr (pre @ ?b @ NUL # r1)"
      and len: "length (pre @ ?b @ NUL # r1) = length (pre @ v @ NUL # r)"
    using opt_cut_comment_ok [OF v] by blast
  let ?q = "pre @ takeWhile isspace ?b"
  let ?l2 = "?q @ rstrip_str ?w @ NUL # replicate (length ?w - length (rstrip_str ?w)) NUL @ r1"
  have q: "pre @ ?b @ NUL # r1 = ?q @ ?w @ NUL # r1"
    by (simp add: w_def)
  have sk: "lskip (pre @ ?b @ NUL # r1) (length pre) = Inr (length ?q)"
    using lskip_ok [OF cb, of pre r1] by simp
  have rs: "rstrip (pre @ ?b @ NUL # r1) (length ?q) = Inr ?l2"
    using rstrip_ok [OF cw, of ?q r1] unfolding q .
  have gs: "get_str ?l2 (length ?q) = Inr (rstrip_str ?w)"
    using cw by (intro get_str_append) auto
  have "length ?l2 = length (?q @ ?w @ NUL # r1)"
    using rstrip_str_len [of ?w] by simp
  then have ln: "length ?l2 = length (pre @ v @ NUL # r)"
    unfolding q [symmetric] len .
  show thesis
    by (rule that [OF l1 sk rs gs _ ln]) simp
qed

context handler_sim
begin

text \<open>A line with a separator: \<open>b\<close> stands before it, \<open>v\<close> after it.\<close>

lemma rel_pair_split:
  assumes rel: "rel n B st a" and b: "c_str b" and v: "c_str v"
    and l: "line_buf st = pre @ b @ c # v @ NUL # r" and c: "c = CHR ''='' \<or> c = CHR '':''"
    and find: "opt_find_chars_or_comment opts (line_buf st) (length pre) (Some ''=:'') =
      Inr (length pre + length b)"
  shows "rel_sum (=) (rel n B) (opt_pair_line opts h st (length pre))
    (opt_effect opts g a
      (O_pair (rstrip_str b) (rstrip_str (dropWhile isspace (opt_uncomment opts v)))))"
proof -
  let ?n = "rstrip_str b" and ?v = "rstrip_str (dropWhile isspace (opt_uncomment opts v))"
  let ?q = "pre @ ?n @ NUL # replicate (length b - length ?n) NUL"
  have rc: "rd (line_buf st) (length pre + length b) = Inr c"
      and w: "wr (line_buf st) (length pre + length b) NUL = Inr (pre @ b @ NUL # v @ NUL # r)"
    using rd_append [of "pre @ b" c "v @ NUL # r"] wr_append [of "pre @ b" c "v @ NUL # r" NUL]
    by (simp_all add: l)
  have rs: "rstrip (pre @ b @ NUL # v @ NUL # r) (length pre) = Inr (?q @ v @ NUL # r)"
    using rstrip_ok [OF b, of pre "v @ NUL # r"] by simp
  have lq: "length ?q = length pre + length b + 1"
    using rstrip_str_len [of b] by simp
  obtain l1 l2 s r' where vp:
      "opt_cut_comment opts (?q @ v @ NUL # r) (length ?q) = Inr l1"
      "lskip l1 (length ?q) = Inr s" "rstrip l1 s = Inr l2"
      "get_str l2 s = Inr ?v" "l2 = ?q @ r'" "length l2 = length (?q @ v @ NUL # r)"
    by (rule opt_value_ok [OF v, of opts ?q r])
  have l2: "l2 = pre @ ?n @ NUL # replicate (length b - length ?n) NUL @ r'"
    using vp(5) by simp
  obtain pn where pn: "strncpy0 (prev_name_buf st) l2 (length pre) MAX_NAME = Inr pn"
      "holds_str MAX_NAME pn (take (MAX_NAME - 1) ?n)"
    using rel b holds_str_copy [of ?n MAX_NAME "prev_name_buf st" _ pre] l2
    unfolding opt_rel_def by (metis MAX_NAME_def zero_less_numeral c_str_rstrip_str)
  have new: "rel n B (st\<lparr>line_buf := l2, prev_name_buf := pn\<rparr>) (a\<lparr>a_prev := take (MAX_NAME - 1) ?n\<rparr>)"
    using rel pn(2) vp(6) l lq by (simp add: opt_rel_def)
  have "get_str l2 (length pre) = Inr ?n"
    unfolding l2 using b by (intro get_str_append) auto
  then have "opt_pair_line opts h st (length pre) =
      opt_call_handler opts h (st\<lparr>line_buf := l2, prev_name_buf := pn\<rparr>) (Some ?n) (Some ?v)"
    using c find rc w rs vp(1-4) pn(1) unfolding opt_pair_line_def lq by simp
  with rel_call [OF new, of opts "Some ?n" "Some ?v"] show ?thesis
    by (simp add: opt_effect_def)
qed

text \<open>A line without one: the name is reported alone, or the line is an error.\<close>

lemma rel_pair_bare:
  assumes rel: "rel n B st a" and b: "c_str b"
    and find: "opt_find_chars_or_comment opts (line_buf st) (length pre) (Some ''=:'') =
      Inr (length pre + length b)"
    and rc: "rd (line_buf st) (length pre + length b) = Inr c" and c: "c \<noteq> CHR ''=''" "c \<noteq> CHR '':''"
    and w: "wr (line_buf st) (length pre + length b) NUL = Inr (pre @ b @ NUL # r)"
    and len: "length (pre @ b @ NUL # r) = length (line_buf st)"
  shows "rel_sum (=) (rel n B) (opt_pair_line opts h st (length pre))
    (opt_effect opts g a (O_bare (rstrip_str b)))"
proof -
  let ?l = "pre @ rstrip_str b @ NUL # replicate (length b - length (rstrip_str b)) NUL @ r"
  have rs: "rstrip (pre @ b @ NUL # r) (length pre) = Inr ?l"
    by (rule rstrip_ok [OF b])
  have "length ?l = length (line_buf st)"
    using rstrip_str_len [of b] len by simp
  then have new: "rel n B (st\<lparr>line_buf := ?l\<rparr>) a"
    using rel by (simp add: opt_rel_def)
  have "get_str ?l (length pre) = Inr (rstrip_str b)"
    using b by (intro get_str_append) auto
  moreover have "ini_error st = a_error a"
    using rel by (simp add: opt_rel_def)
  ultimately show ?thesis
    using find rc c w rs rel rel_fail [OF rel] rel_call [OF new, of opts "Some (rstrip_str b)" None]
    by (cases "a_error a = 0") (simp_all add: opt_pair_line_def opt_effect_def a_fail_def)
qed

lemma rel_pair:
  assumes rel: "rel n B st a" and z: "c_str z" and l: "line_buf st = pre @ z @ NUL # r"
  shows "rel_sum (=) (rel n B) (opt_pair_line opts h st (length pre))
    (opt_effect opts g a (opt_pair_entry opts z))"
proof -
  define b where "b = opt_before opts (Some ''=:'') False z"
  define f where "f = opt_from opts (Some ''=:'') z"
  have zf: "z = b @ f" and cb: "c_str b" and cf: "c_str f"
    using z opt_before_from [of opts "Some ''=:''" z] by (auto simp: b_def f_def)
  obtain r' where s: "opt_find_chars_or_comment opts (line_buf st) (length pre) (Some ''=:'') =
        Inr (length pre + length b)"
      "rd (line_buf st) (length pre + length b) = Inr (if f = [] then NUL else hd f)"
      "wr (line_buf st) (length pre + length b) NUL = Inr (pre @ b @ NUL # r')"
      "length (pre @ b @ NUL # r') = length (line_buf st)"
    using opt_stop_ok [OF z b_def f_def, of pre r] unfolding l by blast
  have e: "opt_pair_entry opts z =
      (if f \<noteq> [] \<and> (hd f = CHR ''='' \<or> hd f = CHR '':'')
       then O_pair (rstrip_str b) (rstrip_str (dropWhile isspace (opt_uncomment opts (tl f))))
       else O_bare (rstrip_str b))"
    by (simp add: opt_pair_entry_def b_def f_def Let_def)
  show ?thesis
  proof (cases "f \<noteq> [] \<and> (hd f = CHR ''='' \<or> hd f = CHR '':'')")
    case True
    then have "line_buf st = pre @ b @ hd f # tl f @ NUL # r" and "c_str (tl f)"
      using zf l cf by (cases f; simp)+
    from rel_pair_split [OF rel cb this(2,1) _ s(1)] True e show ?thesis
      by simp
  next
    case False
    with rel_pair_bare [OF rel cb s(1,2) _ _ s(3,4)] e show ?thesis
      by (cases "f = []") auto
  qed
qed

text \<open>The chain of alternatives for a trimmed line \<open>z\<close> that starts at \<open>length q\<close>.\<close>

lemma rel_dispatch:
  assumes rel: "rel n B st a" and cz: "c_str z" and l: "line_buf st = q @ z @ NUL # r"
    and pv: "a_prev a = pv" and p0: "p0 = NUL \<longleftrightarrow> pv = []"
  defines "c \<equiv> if z = [] then NUL else hd z"
  shows "rel_sum (=) (rel n B)
      (if strchr_found (o_start_comment_prefixes opts) c then Inr st
       else if o_allow_multiline opts \<and> p0 \<noteq> NUL \<and> c \<noteq> NUL \<and> length q > 0
         then opt_call_handler opts h st (Some pv) (Some z)
       else if c = CHR ''['' then opt_section_line opts h st (length q)
       else if c \<noteq> NUL then opt_pair_line opts h st (length q)
       else Inr st)
      (opt_effect opts g a
        (if z = [] \<or> hd z \<in> set (o_start_comment_prefixes opts) then O_skip
         else if o_allow_multiline opts \<and> pv \<noteq> [] \<and> length q > 0 then O_more z
         else if hd z = CHR ''['' then opt_section_entry opts (tl z) else opt_pair_entry opts z))"
proof (cases z)
  case Nil
  with rel show ?thesis
    by (simp add: c_def strchr_found_def opt_effect_def)
next
  case (Cons d w)
  then have "c_str w"
    using cz by simp
  with Cons show ?thesis
    using rel p0 pv cz rel_call [OF rel, of opts "Some pv" "Some z"] rel_pair [OF rel cz l, of opts]
      rel_section [OF rel, of w q r opts] l
    by (auto simp: c_def strchr_found_def opt_effect_def)
qed

end

text \<open>A step of the specification, said with the place \<open>length q\<close> where the trimmed line starts.\<close>

lemma opt_step_trimmed:
  fixes a :: "'v ini_abs"
  defines "bom \<equiv> \<lambda>opts x. o_allow_bom opts \<and> a_lineno a = 0 \<and> has_bom x"
  defines "y \<equiv> \<lambda>opts x. rstrip_str (if bom opts x then drop 3 x else x)"
  assumes "z = dropWhile isspace (y opts x)"
    and "q = (if bom opts x then take 3 x else []) @ takeWhile isspace (y opts x)"
  shows "opt_step opts g a x = opt_effect opts g (a\<lparr>a_lineno := Suc (a_lineno a)\<rparr>)
      (if z = [] \<or> hd z \<in> set (o_start_comment_prefixes opts) then O_skip
       else if o_allow_multiline opts \<and> a_prev a \<noteq> [] \<and> length q > 0 then O_more z
       else if hd z = CHR ''['' then opt_section_entry opts (tl z) else opt_pair_entry opts z)"
proof -
  have "take 3 x \<noteq> []" if "bom opts x"
    using that by (auto simp: bom_def has_bom_def)
  then have pos: "length q > 0 \<longleftrightarrow> bom opts x \<or> z \<noteq> y opts x"
    using takeWhile_dropWhile_id [of isspace "y opts x"] assms(3,4)
    by (metis append_Nil append_is_Nil_conv append_self_conv2 length_greater_0_conv)
  have "opt_entry opts (a_lineno a = 0) (a_prev a \<noteq> []) x =
      (if z = [] \<or> hd z \<in> set (o_start_comment_prefixes opts) then O_skip
       else if o_allow_multiline opts \<and> a_prev a \<noteq> [] \<and> length q > 0 then O_more z
       else if hd z = CHR ''['' then opt_section_entry opts (tl z) else opt_pair_entry opts z)"
    unfolding pos unfolding opt_entry_def Let_def assms(3) y_def bom_def by (rule refl)
  then show ?thesis
    by (simp add: opt_step_def Let_def)
qed

context handler_sim
begin

lemma rel_line:
  assumes rel: "rel n B st a" and x: "c_str x" and l: "line_buf st = x @ NUL # r"
  shows "rel_sum (=) (rel n B) (opt_line opts h st) (opt_step opts g a x)"
proof -
  let ?st1 = "st\<lparr>lineno := Suc (lineno st)\<rparr>" and ?a1 = "a\<lparr>a_lineno := Suc (a_lineno a)\<rparr>"
  let ?bom = "o_allow_bom opts \<and> a_lineno a = 0 \<and> has_bom x"
  define pre where "pre = (if ?bom then take 3 x else [])"
  define y where "y = rstrip_str (if ?bom then drop 3 x else x)"
  define z where "z = dropWhile isspace y"
  define q where "q = pre @ takeWhile isspace y"
  have cx: "c_str (if ?bom then drop 3 x else x)" and cz: "c_str z"
    using x by (auto simp: y_def z_def)
  have lx: "line_buf st = pre @ (if ?bom then drop 3 x else x) @ NUL # r"
    by (simp add: l pre_def)
  obtain r' where rs: "rstrip (line_buf st) (length pre) = Inr (q @ z @ NUL # r')"
      and sk: "lskip (q @ z @ NUL # r') (length pre) = Inr (length q)"
      and len: "length (q @ z @ NUL # r') = length (line_buf st)"
    using trim_ok [OF cx, of pre r] unfolding lx q_def z_def y_def by blast
  have "length pre = (if ?bom then 3 else 0)"
    by (auto simp: pre_def has_bom_def dest: arg_cong [where f = length])
  then have bs: "(if o_allow_bom opts then skip_bom ?st1 else Inr 0) = Inr (length pre)"
    using skip_bom_ok [of ?st1 x r] l rel by (simp add: opt_rel_def)
  let ?c = "if z = [] then NUL else hd z"
  have c: "rd (q @ z @ NUL # r') (length q) = Inr ?c"
    using rd_append [of q] by (cases z) auto
  obtain p0 where p0: "rd (prev_name_buf st) 0 = Inr p0" "p0 = NUL \<longleftrightarrow> a_prev a = []"
    using rel holds_str_rd0 unfolding opt_rel_def by blast
  let ?st = "?st1\<lparr>line_buf := q @ z @ NUL # r'\<rparr>"
  have rel': "rel n B ?st ?a1"
    using rel len unfolding opt_rel_def by simp
  have "get_str (prev_name_buf st) 0 = Inr (a_prev a)"
    using rel by (auto simp: opt_rel_def intro: holds_str_get)
  then have line: "opt_line opts h st =
      (if strchr_found (o_start_comment_prefixes opts) ?c then Inr ?st
       else if o_allow_multiline opts \<and> p0 \<noteq> NUL \<and> ?c \<noteq> NUL \<and> length q > 0
         then opt_call_handler opts h ?st (Some (a_prev a)) (Some z)
       else if ?c = CHR ''['' then opt_section_line opts h ?st (length q)
       else if ?c \<noteq> NUL then opt_pair_line opts h ?st (length q)
       else Inr ?st)"
    using bs rs sk c p0(1) get_str_append [OF cz, of q r'] by (simp add: opt_line_def Let_def)
  show ?thesis
    unfolding line opt_step_trimmed [where a = a and opts = opts,
        OF z_def [unfolded y_def] q_def [unfolded pre_def y_def]]
    by (rule rel_dispatch [OF rel' cz _ _ p0(2)]) simp_all
qed

end

end
