(* ===== verification/Ini_Stream_Refine.thy ===== *)
theory Ini_Stream_Refine
  imports Ini_Line_Refine
begin

text \<open>
  Whole texts: \<open>opt_parse_stream\<close> refines \<open>opt_text\<close> with the buffer on the stack and in a block of fixed
  size.  What the parser relies on in the allocation functions is the locale \<open>line_memory\<close>; the
  locales \<open>stream_parse\<close> and \<open>heap_parse\<close> put reader, handler and memory together.
\<close>

section \<open>Contracts\<close>

locale line_memory =
  fixes al :: "'u allocator" and view :: "'u \<Rightarrow> 'v" and held :: "nat set \<Rightarrow> 'u \<Rightarrow> bool"
  assumes malloc_ok: "held B u \<Longrightarrow> ini_malloc al n u = (Some (a, l), u') \<Longrightarrow>
      a \<notin> B \<and> held (insert a B) u' \<and> view u' = view u \<and> length l = n"
    and malloc_none: "held B u \<Longrightarrow> ini_malloc al n u = (None, u') \<Longrightarrow> held B u' \<and> view u' = view u"
    and realloc_ok: "held (insert a B) u \<Longrightarrow> a \<notin> B \<Longrightarrow>
      ini_realloc al a l n u = (Some (a', l'), u') \<Longrightarrow>
      a' \<notin> B \<and> held (insert a' B) u' \<and> view u' = view u \<and> length l' = n \<and>
      take (length l) l' = take n l"
    and realloc_none: "held (insert a B) u \<Longrightarrow> a \<notin> B \<Longrightarrow> ini_realloc al a l n u = (None, u') \<Longrightarrow>
      held (insert a B) u' \<and> view u' = view u"
    and free_ok: "held (insert a B) u \<Longrightarrow> a \<notin> B \<Longrightarrow>
      \<exists>u'. ini_free al a u = Inr u' \<and> held B u' \<and> view u' = view u"

definition never_fails :: "'u allocator \<Rightarrow> bool" where
  "never_fails al \<longleftrightarrow>
     (\<forall>n u. fst (ini_malloc al n u) \<noteq> None) \<and> (\<forall>a l n u. fst (ini_realloc al a l n u) \<noteq> None)"

context line_reader
begin

lemma read_chunk:
  assumes inv: "invar s" and ne: "unread s \<noteq> []" and len: "length b = n" and n: "2 \<le> n" "n < 2 ^ 31"
  obtains x s' where "reader b (c_int (int n)) s = Inr (Some (store x b), s')" "length x < n" "invar s'"
    "x = first_line (n - 1) (unread s)" "unread s' = drop (length x) (unread s)"
    "length (unread s') < length (unread s)"
    "chunks (n - 1) (unread s) = x # chunks (n - 1) (unread s')"
proof -
  define x where "x = first_line (n - 1) (unread s)"
  have c: "c_int (int n) = int n"
    using n(2) by (intro c_int_id) simp_all
  obtain s' where rd: "reader b (int n) s = Inr (Some (store x b), s')" "invar s'"
      "unread s' = drop (length x) (unread s)"
    using read_line [OF inv ne, of "int n" b] len n by (auto simp: x_def)
  have "length x < n" and "0 < length x"
    using first_line_len [of "n - 1" "unread s"] ne n by (auto simp: x_def)
  moreover have "chunks (n - 1) (unread s) = x # chunks (n - 1) (unread s')"
    using chunks_step [of "n - 1", OF _ ne] n by (simp add: x_def rd(3))
  ultimately show thesis
    using that [of x s'] rd c ne by (simp add: x_def)
qed

end

section \<open>The loop\<close>

locale stream_parse =
  line_reader reader unread invar + handler_sim h g view held
  for reader :: "'st ini_reader" and unread invar
    and h :: "'u opt_handler" and g :: "'v opt_handler" and view held
begin

text \<open>
  The loop, for any way of filling the buffer that delivers the chunks in order.  \<open>own\<close> are the
  blocks while the buffer is at an address, \<open>good\<close> what holds between the lines, \<open>oom\<close> what holds
  when memory ran out.
\<close>

abbreviation outcome :: "(nat \<Rightarrow> nat set) \<Rightarrow> (nat \<Rightarrow> nat \<Rightarrow> 'st \<Rightarrow> bool) \<Rightarrow> ('u \<Rightarrow> bool) \<Rightarrow>
    ('u + nat \<times> 'u ini_state) res \<Rightarrow> 'v ini_abs res \<Rightarrow> bool" where
  "outcome own good oom r m \<equiv> (\<exists>u. r = Inr (Inl u) \<and> oom u) \<or>
     rel_sum (=) (\<lambda>x a. \<exists>addr mx st s. x = Inr (addr, st) \<and> rel mx (own addr) st a \<and> good addr mx s) r m"

abbreviation filled :: "ini_options \<Rightarrow> 'u allocator \<Rightarrow> nat \<Rightarrow> (nat \<Rightarrow> nat set) \<Rightarrow>
    (nat \<Rightarrow> nat \<Rightarrow> 'st \<Rightarrow> bool) \<Rightarrow> nat \<Rightarrow> buf \<Rightarrow> nat \<Rightarrow> 'st \<Rightarrow> 'u \<Rightarrow> 'st \<Rightarrow>
    nat \<Rightarrow> string \<Rightarrow> buf \<Rightarrow> nat \<Rightarrow> 'st \<Rightarrow> 'u \<Rightarrow> bool" where
  "filled opts al k own good addr l mx s1 u s addr' x r mx' s' u' \<equiv>
     opt_refill opts al reader addr l mx s1 u = Some (Inr (Some (addr', c_view x @ NUL # r, mx'), s', u')) \<and>
     length (c_view x @ NUL # r) = mx' \<and> good addr' mx' s' \<and> held (own addr') u' \<and> view u' = view u \<and>
     length (unread s') < length (unread s) \<and> chunks k (unread s) = x # chunks k (unread s')"

lemma loop_step:
  assumes rd: "reader (line_buf st) (c_int (int mx)) s = Inr (Some l, s1)"
    and fill: "filled opts al k own good addr l mx s1 (ini_user st) s addr' x r mx' s' u'"
    and rel: "rel mx (own addr) st a"
    and IH: "\<And>st' a'. rel mx' (own addr') st' a' \<Longrightarrow>
      \<exists>r. opt_loop opts al reader h s' addr' mx' st' = Some r \<and>
        outcome own good oom r (opt_run opts g a' (map c_view (chunks k (unread s'))))"
  shows "\<exists>r. opt_loop opts al reader h s addr mx st = Some r \<and>
    outcome own good oom r (opt_run opts g a (map c_view (chunks k (unread s))))"
proof -
  let ?st = "st\<lparr>line_buf := c_view x @ NUL # r, ini_user := u'\<rparr>"
  have "rel mx' (own addr') ?st a"
    using rel fill by (simp add: opt_rel_def)
  then have ref: "rel_sum (=) (rel mx' (own addr')) (opt_line opts h ?st) (opt_step opts g a (c_view x))"
    by (intro rel_line) auto
  show ?thesis
  proof (cases "opt_line opts h ?st")
    case (Inl e)
    with ref rd fill show ?thesis
      by (subst opt_loop.simps) (cases "opt_step opts g a (c_view x)", auto)
  next
    case (Inr st')
    with ref obtain a' where a': "opt_step opts g a (c_view x) = Inr a'" and rel': "rel mx' (own addr') st' a'"
      by (cases "opt_step opts g a (c_view x)") auto
    have err: "ini_error st' = a_error a'"
      using rel' by (simp add: opt_rel_def)
    show ?thesis
    proof (cases "o_stop_on_first_error opts \<and> a_error a' \<noteq> 0")
      case True
      with Inr rd fill a' rel' err show ?thesis
        by (subst opt_loop.simps) auto
    next
      case False
      with IH [OF rel'] Inr rd fill a' err show ?thesis
        by (subst opt_loop.simps) auto
    qed
  qed
qed

lemma loop_sim:
  fixes own :: "nat \<Rightarrow> nat set" and good :: "nat \<Rightarrow> nat \<Rightarrow> 'st \<Rightarrow> bool" and oom :: "'u \<Rightarrow> bool"
  assumes last: "\<And>addr mx s b. good addr mx s \<Longrightarrow> unread s = [] \<Longrightarrow> length b = mx \<Longrightarrow>
      \<exists>s'. reader b (c_int (int mx)) s = Inr (None, s')"
    and round: "\<And>addr mx s b u. good addr mx s \<Longrightarrow> unread s \<noteq> [] \<Longrightarrow> length b = mx \<Longrightarrow>
      held (own addr) u \<Longrightarrow>
      \<exists>l s1. reader b (c_int (int mx)) s = Inr (Some l, s1) \<and>
        ((\<exists>s2 u'. opt_refill opts al reader addr l mx s1 u = Some (Inr (None, s2, u')) \<and> oom u') \<or>
         (\<exists>addr' x r mx' s' u'. filled opts al k own good addr l mx s1 u s addr' x r mx' s' u'))"
  shows "rel mx (own addr) st a \<Longrightarrow> good addr mx s \<Longrightarrow>
    \<exists>r. opt_loop opts al reader h s addr mx st = Some r \<and>
      outcome own good oom r (opt_run opts g a (map c_view (chunks k (unread s))))"
proof (induction "length (unread s)" arbitrary: s addr mx st a rule: less_induct)
  case less
  have len: "length (line_buf st) = mx" and held: "held (own addr) (ini_user st)"
    using less.prems(1) by (simp_all add: opt_rel_def)
  show ?case
  proof (cases "unread s = []")
    case True
    obtain s' where "reader (line_buf st) (c_int (int mx)) s = Inr (None, s')"
      using last [OF less.prems(2) True len] ..
    with True less.prems show ?thesis
      by (subst opt_loop.simps) auto
  next
    case False
    obtain l s1 where rd: "reader (line_buf st) (c_int (int mx)) s = Inr (Some l, s1)"
      and "(\<exists>s2 u'. opt_refill opts al reader addr l mx s1 (ini_user st) =
            Some (Inr (None, s2, u')) \<and> oom u') \<or>
         (\<exists>addr' x r mx' s' u'.
            filled opts al k own good addr l mx s1 (ini_user st) s addr' x r mx' s' u')"
      using round [OF less.prems(2) False len held] by blast
    then consider (failed) s2 u' where
        "opt_refill opts al reader addr l mx s1 (ini_user st) = Some (Inr (None, s2, u'))" "oom u'"
      | (full) addr' x r mx' s' u' where
        "filled opts al k own good addr l mx s1 (ini_user st) s addr' x r mx' s' u'"
      by blast
    then show ?thesis
    proof cases
      case failed
      with rd show ?thesis
        by (subst opt_loop.simps) simp
    next
      case full
      then have "good addr' mx' s'" and "length (unread s') < length (unread s)"
        by simp_all
      then show ?thesis
        by (intro loop_step [where own = own and good = good and oom = oom, OF rd full less.prems(1)]
            less.hyps)
    qed
  qed
qed


section \<open>A buffer of fixed size\<close>

lemma fixed_loop:
  assumes fixed: "\<not> opt_growing opts" and n: "2 \<le> n" "n < 2 ^ 31" and "rel n B st a" and "invar s"
  shows "\<exists>r. opt_loop opts al reader h s addr n st = Some r \<and>
    rel_sum (=) (\<lambda>x a. \<exists>st. x = Inr (addr, st) \<and> rel n B st a)
      r (opt_run opts g a (map c_view (chunks (n - 1) (unread s))))"
proof -
  let ?good = "\<lambda>addr' mx s. addr' = addr \<and> mx = n \<and> invar s"
  have "\<exists>r. opt_loop opts al reader h s addr n st = Some r \<and>
      outcome (\<lambda>_. B) ?good (\<lambda>_. False) r (opt_run opts g a (map c_view (chunks (n - 1) (unread s))))"
  proof (rule loop_sim)
    fix addr' mx s and b :: buf
    assume "?good addr' mx s" and "unread s = []" and "length b = mx"
    then show "\<exists>s'. reader b (c_int (int mx)) s = Inr (None, s')"
      using read_end [of s "int n" b] n by (simp add: c_int_id)
  next
    fix addr' mx s and b :: buf and u
    assume good: "?good addr' mx s" and ne: "unread s \<noteq> []" and len: "length b = mx" and u: "held B u"
    then obtain x s' where x: "reader b (c_int (int n)) s = Inr (Some (store x b), s')" "length x < n"
        "invar s'" "length (unread s') < length (unread s)"
        "chunks (n - 1) (unread s) = x # chunks (n - 1) (unread s')"
      using read_chunk [of s b n] n by blast
    then obtain r where r: "store x b = c_view x @ NUL # r"
      using c_view_store [of x b] len good by blast
    have "length (c_view x @ NUL # r) = n"
      using length_store [of x b] x(2) len good unfolding r by simp
    then have "filled opts al (n - 1) (\<lambda>_. B) ?good addr' (store x b) mx s' u s addr x r n s' u"
      using fixed x(3-5) u good by (simp add: opt_refill_def r)
    with x(1) good show "\<exists>l s1. reader b (c_int (int mx)) s = Inr (Some l, s1) \<and>
        ((\<exists>s2 u'. opt_refill opts al reader addr' l mx s1 u = Some (Inr (None, s2, u')) \<and> False) \<or>
         (\<exists>addr'' x r mx' s' u'.
            filled opts al (n - 1) (\<lambda>_. B) ?good addr' l mx s1 u s addr'' x r mx' s' u'))"
      by blast
  qed (use assms in auto)
  then show ?thesis
    by (auto elim!: rel_sum.cases)
qed

end

lemma rel_start: "view u = v \<Longrightarrow> held B u \<Longrightarrow> length l = n \<Longrightarrow>
    opt_rel view held n B ((ini_start u)\<lparr>line_buf := l\<rparr>) (ini_init v)"
  by (auto simp: opt_rel_def ini_start_def ini_init_def holds_str_def numeral_eq_Suc)

context stream_parse
begin

lemma stack_parse:
  assumes "o_use_stack opts" and "2 \<le> o_max_line opts" and "o_max_line opts < 2 ^ 31"
    and "invar s" and "held B u"
  shows "rel_sum (=) (\<lambda>(rc, u') (rc', v'). rc = rc' \<and> view u' = v' \<and> held B u')
    (opt_parse_stream opts al reader s h u) (opt_text opts (o_max_line opts) g (view u) (unread s))"
proof -
  let ?run = "opt_run opts g (ini_init (view u)) (map c_view (chunks (o_max_line opts - 1) (unread s)))"
  let ?st = "(ini_start u)\<lparr>line_buf := replicate (o_max_line opts) NUL\<rparr>"
  have "\<not> opt_growing opts" and "rel (o_max_line opts) B ?st (ini_init (view u))"
    using assms(1,5) by (simp_all add: opt_growing_def rel_start)
  from fixed_loop [OF this(1) assms(2,3) this(2) assms(4), of al 0] obtain r
    where r: "opt_loop opts al reader h s 0 (o_max_line opts) ?st = Some r"
      and rel: "rel_sum (=) (\<lambda>x a. \<exists>st. x = Inr (0, st) \<and> rel (o_max_line opts) B st a) r ?run"
    by blast
  from rel r assms(1) show ?thesis
    by (cases rule: rel_sum.cases) (auto simp: opt_parse_stream_def opt_text_def opt_finish_def opt_rel_def)
qed

end

section \<open>A block of fixed size\<close>

locale heap_parse =
  stream_parse reader unread invar h g view held + line_memory al view held
  for reader :: "'st ini_reader" and unread invar
    and h :: "'u opt_handler" and g :: "'v opt_handler" and view held and al
begin

text \<open>
  What a parse with the line buffer in a block promises: -2 only when memory ran out, otherwise the
  specified result; in both cases the block is gone.
\<close>

abbreviation promised :: "nat set \<Rightarrow> (int \<times> 'u) res \<Rightarrow> (int \<times> 'v) res \<Rightarrow> bool" where
  "promised B r m \<equiv> (\<exists>u'. r = Inr (-2, u') \<and> held B u' \<and> \<not> never_fails al) \<or>
     rel_sum (=) (\<lambda>(rc, u') (rc', v'). rc = rc' \<and> view u' = v' \<and> held B u') r m"

lemma heap_finish:
  assumes "\<not> o_use_stack opts"
    and "outcome (\<lambda>addr. insert addr B) good (\<lambda>u. held B u \<and> \<not> never_fails al) r m"
    and "\<And>addr mx s. good addr mx s \<Longrightarrow> addr \<notin> B"
  shows "promised B (opt_finish opts al (Some r)) (and_then m (\<lambda>a. Inr (int (a_error a), a_user a)))"
  using assms(2)
proof (elim disjE)
  assume "\<exists>u. r = Inr (Inl u) \<and> held B u \<and> \<not> never_fails al"
  then show ?thesis
    by (auto simp: opt_finish_def)
next
  assume "rel_sum (=) (\<lambda>x a. \<exists>addr mx st s. x = Inr (addr, st) \<and> rel mx (insert addr B) st a \<and> good addr mx s) r m"
  then show ?thesis
  proof (cases rule: rel_sum.cases)
    case (1 e e')
    then show ?thesis
      by (simp add: opt_finish_def)
  next
    case (2 x a)
    then obtain addr mx st where x: "x = Inr (addr, st)" "addr \<notin> B" and rel: "rel mx (insert addr B) st a"
      using assms(3) by blast
    obtain u' where "ini_free al addr (ini_user st) = Inr u'" "held B u'" "view u' = a_user a"
      using free_ok [of addr B "ini_user st"] rel x(2) by (auto simp: opt_rel_def)
    with 2 x(1) rel assms(1) show ?thesis
      by (simp add: opt_finish_def opt_rel_def)
  qed
qed

lemma heap_start:
  assumes "\<not> o_use_stack opts" and "held B u"
    and loop: "\<And>addr l u'. addr \<notin> B \<Longrightarrow> length l = o_initial_alloc opts \<Longrightarrow> held (insert addr B) u' \<Longrightarrow>
      view u' = view u \<Longrightarrow>
      promised B (opt_finish opts al (opt_loop opts al reader h s addr (o_initial_alloc opts)
        ((ini_start u')\<lparr>line_buf := l\<rparr>))) m"
  shows "promised B (opt_parse_stream opts al reader s h u) m"
proof -
  obtain p u1 where m: "ini_malloc al (o_initial_alloc opts) u = (p, u1)"
    by fastforce
  show ?thesis
  proof (cases p)
    case None
    then have "held B u1" and "\<not> never_fails al"
      using malloc_none [OF assms(2)] m unfolding never_fails_def by (blast, metis fst_conv)
    with None m assms(1) show ?thesis
      by (simp add: opt_parse_stream_def)
  next
    case (Some q)
    then obtain addr l where "ini_malloc al (o_initial_alloc opts) u = (Some (addr, l), u1)"
      using m by (cases q) simp
    with malloc_ok [OF assms(2) this] loop [of addr l u1] assms(1) show ?thesis
      by (simp add: opt_parse_stream_def)
  qed
qed

lemma fixed_heap_parse:
  assumes "\<not> o_use_stack opts" and "\<not> o_allow_realloc opts"
    and n: "2 \<le> o_initial_alloc opts" "o_initial_alloc opts < 2 ^ 31" and "invar s" and "held B u"
  shows "promised B (opt_parse_stream opts al reader s h u)
    (opt_text opts (o_initial_alloc opts) g (view u) (unread s))"
proof (rule heap_start [OF assms(1,6)])
  fix addr u' and l :: buf
  assume a: "addr \<notin> B" "length l = o_initial_alloc opts" "held (insert addr B) u'" "view u' = view u"
  let ?n = "o_initial_alloc opts" and ?st = "(ini_start u')\<lparr>line_buf := l\<rparr>"
  let ?run = "opt_run opts g (ini_init (view u)) (map c_view (chunks (?n - 1) (unread s)))"
  have "\<not> opt_growing opts" and "rel ?n (insert addr B) ?st (ini_init (view u))"
    using a assms(2) by (simp_all add: opt_growing_def rel_start)
  from fixed_loop [OF this(1) n this(2) assms(5)] obtain r
    where r: "opt_loop opts al reader h s addr ?n ?st = Some r"
      and sim: "rel_sum (=) (\<lambda>x a. \<exists>st. x = Inr (addr, st) \<and> rel ?n (insert addr B) st a) r ?run"
    by blast
  from sim have out: "outcome (\<lambda>addr. insert addr B) (\<lambda>addr' mx s. addr' = addr)
      (\<lambda>u. held B u \<and> \<not> never_fails al) r ?run"
    by (cases rule: rel_sum.cases) auto
  show "promised B (opt_finish opts al (opt_loop opts al reader h s addr ?n ?st))
      (opt_text opts ?n g (view u) (unread s))"
    unfolding r opt_text_def by (rule heap_finish [OF assms(1) out]) (use a(1) in simp)
qed

end

end
