(* ===== verification/Ini_Growing.thy ===== *)
theory Ini_Growing
  imports Ini_Stream_Refine
begin

text \<open>
  The line buffer that grows: the two loops of \<open>ini_parse_stream\<close> together read the lines that a
  buffer of \<open>INI_MAX_LINE\<close> bytes takes, for texts without NUL bytes.  The inner loop asks for the rest
  of a line, so it needs more of a reader than \<open>line_reader\<close> says: the locale \<open>growing_reader\<close>.
\<close>

section \<open>Readers that can be asked again\<close>

locale growing_reader = line_reader +
  assumes read_again: "invar st \<Longrightarrow> unread st = [] \<Longrightarrow> 2 \<le> num \<Longrightarrow> num \<le> int (length b) \<Longrightarrow>
      reader b num st = Inr (r, st') \<Longrightarrow> invar st' \<and> unread st' = []"
    and read_one: "invar st \<Longrightarrow> b \<noteq> [] \<Longrightarrow>
      \<exists>r st'. reader b 1 st = Inr (r, st') \<and> invar st' \<and> unread st' = unread st \<and>
        (r = None \<or> r = Some (NUL # tl b))"

interpretation file_reader: growing_reader fgets f_unread "\<lambda>_. True"
proof
  fix f f' :: c_file and num b r
  assume "f_unread f = []" and "2 \<le> num" and "fgets b num f = Inr (r, f')"
  then show "True \<and> f_unread f' = []"
    by (simp add: fgets_def)
next
  fix f :: c_file and b :: buf
  assume "b \<noteq> []"
  then show "\<exists>r f'. fgets b 1 f = Inr (r, f') \<and> True \<and> f_unread f' = f_unread f \<and>
      (r = None \<or> r = Some (NUL # tl b))"
    by (cases b) (simp_all add: fgets_def wr_def)
qed

interpretation string_reader: growing_reader ini_reader_string ctx_unread ctx_ok
proof
  fix ctx ctx' num b r
  assume "ctx_ok ctx" and "ctx_unread ctx = []" and "ini_reader_string b num ctx = Inr (r, ctx')"
  then show "ctx_ok ctx' \<and> ctx_unread ctx' = []"
    by (auto simp: ini_reader_string_def ctx_unread_Nil_iff)
next
  fix ctx and b :: buf
  assume "ctx_ok ctx"
  then show "\<exists>r ctx'. ini_reader_string b 1 ctx = Inr (r, ctx') \<and> ctx_ok ctx' \<and>
      ctx_unread ctx' = ctx_unread ctx \<and> (r = None \<or> r = Some (NUL # tl b))"
    by (simp add: ini_reader_string_def)
qed

section \<open>A line in pieces\<close>

lemma first_line_add:
  "first_line (k + m) cs =
     (let x = first_line k cs
      in if length x = k \<and> (k = 0 \<or> last x \<noteq> newline) then x @ first_line m (drop k cs) else x)"
proof (induction k cs rule: first_line.induct)
  case (3 k c cs)
  then show ?case
    by (cases "first_line k cs = []") (auto simp: Let_def)
qed (simp_all add: Let_def)

text \<open>What is still missing of a line of which \<open>x\<close> has been read into a buffer of \<open>mx\<close> bytes.\<close>

definition line_rest :: "nat \<Rightarrow> nat \<Rightarrow> string \<Rightarrow> string \<Rightarrow> string" where
  "line_rest n mx x cs =
     (if Suc (length x) = mx \<and> last x \<noteq> newline then first_line (n - 1 - length x) cs else [])"

lemma line_rest_first:
  assumes "2 \<le> mx" and "mx \<le> n" and "x = first_line (mx - 1) cs"
  shows "x @ line_rest n mx x (drop (length x) cs) = first_line (n - 1) cs"
proof -
  have "first_line (n - 1) cs = first_line ((mx - 1) + (n - mx)) cs"
    using assms(1,2) by simp
  also have "\<dots> = (if length x = mx - 1 \<and> last x \<noteq> newline then x @ first_line (n - mx) (drop (mx - 1) cs) else x)"
    using assms(1) unfolding first_line_add by (simp add: Let_def assms(3))
  also have "\<dots> = x @ line_rest n mx x (drop (length x) cs)"
    using assms(1) by (auto simp: line_rest_def)
  finally show ?thesis ..
qed

lemma line_rest_step:
  assumes "Suc (length x) < mx" and "mx \<le> n" and "y = first_line (mx - 1 - length x) cs"
  shows "y @ line_rest n mx (x @ y) (drop (length y) cs) = first_line (n - 1 - length x) cs"
proof -
  let ?k = "mx - 1 - length x"
  have "first_line (n - 1 - length x) cs = first_line (?k + (n - mx)) cs"
    using assms(1,2) by simp
  also have "\<dots> = (if length y = ?k \<and> last y \<noteq> newline then y @ first_line (n - mx) (drop ?k cs) else y)"
    using assms(1) unfolding first_line_add by (simp add: Let_def assms(3))
  also have "\<dots> = y @ line_rest n mx (x @ y) (drop (length y) cs)"
    using assms(1,2) by (cases "y = []") (auto simp: line_rest_def)
  finally show ?thesis ..
qed

context growing_reader
begin

text \<open>The call that reads on, into the room behind the bytes the buffer has.\<close>

lemma read_on:
  assumes inv: "invar s" and d: "d = NUL # r" "length d < 2 ^ 31"
  obtains res s' r' where "reader d (c_int (int (length d))) s = Inr (res, s')" "invar s'"
    "unread s' = drop (length (first_line (length d - 1) (unread s))) (unread s)"
    "(case res of None \<Rightarrow> d | Some d' \<Rightarrow> d') = first_line (length d - 1) (unread s) @ NUL # r'"
    "length (case res of None \<Rightarrow> d | Some d' \<Rightarrow> d') = length d"
    "res = None \<longrightarrow> length d = 1 \<or> unread s = []"
proof -
  let ?y = "first_line (length d - 1) (unread s)"
  have c: "c_int (int (length d)) = int (length d)"
    using d(2) by (intro c_int_id) simp_all
  consider "length d = 1" | "2 \<le> length d" "unread s = []" | "2 \<le> length d" "unread s \<noteq> []"
    using d(1) by (cases r) auto
  then show thesis
  proof cases
    case 1
    then obtain res s' where "reader d 1 s = Inr (res, s')" "invar s'" "unread s' = unread s"
        "res = None \<or> res = Some (NUL # tl d)"
      using read_one [OF inv, of d] d(1) by auto
    with 1 c d(1) show thesis
      by (intro that [of res s' "[]"]) auto
  next
    case 2
    then obtain s' where "reader d (int (length d)) s = Inr (None, s')"
      using read_end [OF inv, of "int (length d)" d] by auto
    moreover from this have "invar s' \<and> unread s' = []"
      using read_again [OF inv, of "int (length d)" d None s'] 2 by simp
    ultimately show thesis
      using 2 c d(1) by (intro that [of None s' r]) simp_all
  next
    case 3
    then obtain s' where "reader d (int (length d)) s = Inr (Some (store ?y d), s')" "invar s'"
        "unread s' = drop (length ?y) (unread s)"
      using read_line [OF inv, of "int (length d)" d] by auto
    moreover have "length (store ?y d) = length d"
      using first_line_len [of "length d - 1" "unread s"] 3 by (intro length_store) auto
    ultimately show thesis
      using c by (intro that [of "Some (store ?y d)" s' "drop (Suc (length ?y)) d"]) (simp_all add: store_def)
  qed
qed

end


section \<open>The inner loop\<close>

locale growing_parse =
  heap_parse reader unread invar h g view held al + growing_reader reader unread invar
  for reader :: "'st ini_reader" and unread invar
    and h :: "'u opt_handler" and g :: "'v opt_handler" and view held and al
begin

text \<open>
  \<open>grown n B x mx s u res\<close>: the inner loop ended with \<open>res\<close> when it started with the bytes \<open>x\<close> in a
  buffer of \<open>mx\<close> bytes.
\<close>

abbreviation grown :: "nat \<Rightarrow> nat set \<Rightarrow> string \<Rightarrow> nat \<Rightarrow> 'st \<Rightarrow> 'u \<Rightarrow>
    (nat \<times> buf \<times> nat) option \<times> 'st \<times> 'u \<Rightarrow> bool" where
  "grown n B x mx s u res \<equiv> (case res of
     (None, s', u') \<Rightarrow> held B u' \<and> \<not> never_fails al
   | (Some (addr, l, mx'), s', u') \<Rightarrow>
       (\<exists>r. l = x @ line_rest n mx x (unread s) @ NUL # r) \<and> length l = mx' \<and> 2 \<le> mx' \<and> mx' \<le> n \<and>
       addr \<notin> B \<and> held (insert addr B) u' \<and> view u' = view u \<and> invar s' \<and>
       unread s' = drop (length (line_rest n mx x (unread s))) (unread s))"

lemma grow_fails:
  assumes "ini_realloc al addr l n u = (None, u1)" and "held (insert addr B) u" and "addr \<notin> B"
  obtains u' where "ini_free al addr u1 = Inr u'" "held B u'" "\<not> never_fails al"
proof -
  have "held (insert addr B) u1"
    using realloc_none [OF assms(2,3,1)] by simp
  then obtain u' where "ini_free al addr u1 = Inr u'" "held B u'"
    using free_ok assms(3) by blast
  moreover have "\<not> never_fails al"
    using assms(1) unfolding never_fails_def by (metis fst_conv)
  ultimately show thesis ..
qed

text \<open>One round: the block is longer, and the bytes it had are still in front.\<close>

lemma grow_round:
  assumes re: "ini_realloc al addr (x @ [NUL]) mx1 u = (Some (addr1, l1), u1)"
    and held: "held (insert addr B) u" and addr: "addr \<notin> B" and mx1: "Suc (length x) \<le> mx1" "mx1 < 2 ^ 31"
    and inv: "invar s"
  defines "y \<equiv> first_line (mx1 - 1 - length x) (unread s)"
  obtains res s1 r1 where
    "reader (drop (length x) l1) (c_int (int mx1 - int (length x))) s = Inr (res, s1)" "invar s1"
    "(case res of None \<Rightarrow> l1 | Some d \<Rightarrow> take (length x) l1 @ d) = x @ y @ NUL # r1"
    "length (x @ y @ NUL # r1) = mx1" "unread s1 = drop (length y) (unread s)"
    "res = None \<longrightarrow> mx1 = Suc (length x) \<or> unread s = []"
    "addr1 \<notin> B" "held (insert addr1 B) u1" "view u1 = view u"
proof -
  have l1: "addr1 \<notin> B" "held (insert addr1 B) u1" "view u1 = view u" "length l1 = mx1"
      "take (Suc (length x)) l1 = x @ [NUL]"
    using realloc_ok [OF held addr re] mx1(1) by simp_all
  define r where "r = drop (Suc (length x)) l1"
  have e: "l1 = x @ NUL # r"
    using append_take_drop_id [of "Suc (length x)" l1] l1(5) by (simp add: r_def)
  let ?d = "NUL # r"
  have len: "length ?d = mx1 - length x" "int (length ?d) = int mx1 - int (length x)" "length ?d < 2 ^ 31"
    using l1(4) e mx1 by auto
  obtain res s1 r1 where rd: "reader ?d (c_int (int (length ?d))) s = Inr (res, s1)" "invar s1"
      "unread s1 = drop (length (first_line (length ?d - 1) (unread s))) (unread s)"
      "(case res of None \<Rightarrow> ?d | Some d' \<Rightarrow> d') = first_line (length ?d - 1) (unread s) @ NUL # r1"
      "length (case res of None \<Rightarrow> ?d | Some d' \<Rightarrow> d') = length ?d"
      "res = None \<longrightarrow> length ?d = 1 \<or> unread s = []"
    by (rule read_on [OF inv refl len(3)])
  have y: "first_line (length ?d - 1) (unread s) = y"
    unfolding len(1) y_def by simp
  have "(case res of None \<Rightarrow> l1 | Some d \<Rightarrow> take (length x) l1 @ d) = x @ y @ NUL # r1"
    using rd(4) unfolding y by (cases res) (simp_all add: e)
  moreover have "length (x @ y @ NUL # r1) = mx1"
    using rd(4,5) len(1) mx1(1) unfolding y by simp
  moreover have "res = None \<longrightarrow> mx1 = Suc (length x) \<or> unread s = []"
    using rd(6) len(1) by auto
  ultimately show thesis
    using that [of res s1 r1] rd(1-3) l1(1-3) e len(2) unfolding y by simp
qed

text \<open>After a round the loop ends, because the line is complete or no more is allowed, or goes on.\<close>

lemma grow_next:
  assumes n: "n = o_max_line opts" "n < 2 ^ 31" and x: "x \<noteq> []" "last x \<noteq> newline" "Suc (length x) = mx"
    and c: "c_str (unread s)" "invar s" and mx: "mx \<le> n"
    and held: "held (insert addr B) u" "addr \<notin> B"
    and re: "ini_realloc al addr (x @ [NUL]) (min (2 * mx) n) u = (Some (addr1, l1), u1)"
    and IH: "\<And>y r1 s1. mx < min (2 * mx) n \<Longrightarrow> y = first_line (min (2 * mx) n - 1 - length x) (unread s) \<Longrightarrow>
      length (x @ y @ NUL # r1) = min (2 * mx) n \<Longrightarrow> c_str y \<Longrightarrow> unread s1 = drop (length y) (unread s) \<Longrightarrow>
      invar s1 \<Longrightarrow> held (insert addr1 B) u1 \<Longrightarrow> addr1 \<notin> B \<Longrightarrow>
      \<exists>res. opt_grow opts al reader addr1 (x @ y @ NUL # r1) (min (2 * mx) n) (length (x @ y)) s1 u1 =
          Some (Inr res) \<and> grown n B (x @ y) (min (2 * mx) n) s1 u1 res"
  shows "\<exists>res. opt_grow opts al reader addr (x @ [NUL]) mx (length x) s u = Some (Inr res) \<and>
    grown n B x mx s u res"
proof -
  let ?mx1 = "min (2 * mx) n"
  define y where "y = first_line (?mx1 - 1 - length x) (unread s)"
  have cy: "c_str y"
    using c(1) first_line_prefix [of "?mx1 - 1 - length x" "unread s"] unfolding y_def by (metis c_str_take)
  have mx1: "Suc (length x) \<le> ?mx1" "?mx1 < 2 ^ 31" "2 \<le> ?mx1"
    using x mx n by (cases x; auto)+
  obtain res s1 r1 where rd1: "reader (drop (length x) l1) (c_int (int ?mx1 - int (length x))) s = Inr (res, s1)"
      "invar s1" "(case res of None \<Rightarrow> l1 | Some d \<Rightarrow> take (length x) l1 @ d) = x @ y @ NUL # r1"
      "length (x @ y @ NUL # r1) = ?mx1" "unread s1 = drop (length y) (unread s)"
      "res = None \<longrightarrow> ?mx1 = Suc (length x) \<or> unread s = []"
    and u1: "addr1 \<notin> B" "held (insert addr1 B) u1" "view u1 = view u"
    unfolding y_def by (rule grow_round [OF re held mx1(1,2) c(2)])
  have rd: "rd (x @ [NUL]) (length x - 1) = Inr (last x)"
    using x(1) rd_append [of "butlast x" "last x" "[NUL]"] by (cases x rule: rev_cases) simp_all
  have st: "c_strlen (x @ y @ NUL # r1) (length x) = Inr (length y)"
    by (rule c_strlen_str [OF cy])
  have go: "opt_grow opts al reader addr (x @ [NUL]) mx (length x) s u =
      (if res = None \<or> n \<le> ?mx1 then Some (Inr (Some (addr1, x @ y @ NUL # r1, ?mx1), s1, u1))
       else opt_grow opts al reader addr1 (x @ y @ NUL # r1) ?mx1 (length (x @ y)) s1 u1)"
    using x rd re rd1(1,3) st n(1)
    by (subst opt_grow.simps) (cases res; simp add: Let_def)
  show ?thesis
  proof (cases "res = None \<or> n \<le> ?mx1")
    case True
    then have "line_rest n mx x (unread s) = y"
      using rd1(6) x mx unfolding line_rest_def y_def by auto
    with True go rd1(2,4,5) u1 mx1(3) show ?thesis
      by simp
  next
    case False
    then have lt: "mx < ?mx1" and "Suc (length x) < ?mx1" and "?mx1 \<le> n"
      using x(1,3) by (auto simp: min_def split: if_splits)
    have rest: "line_rest n mx x (unread s) = y @ line_rest n ?mx1 (x @ y) (unread s1)"
      using line_rest_step [OF \<open>Suc (length x) < ?mx1\<close> \<open>?mx1 \<le> n\<close> y_def] x(2,3) rd1(5)
      by (simp add: line_rest_def)
    obtain res' where "opt_grow opts al reader addr1 (x @ y @ NUL # r1) ?mx1 (length (x @ y)) s1 u1 = Some (Inr res')"
        "grown n B (x @ y) ?mx1 s1 u1 res'"
      using IH [OF lt y_def rd1(4) cy rd1(5,2) u1(2,1)] by blast
    with False go rest rd1(5) u1(3) show ?thesis
      by (auto split: prod.splits option.splits simp: add.commute)
  qed
qed

lemma grow_ok:
  assumes n: "n = o_max_line opts" "n < 2 ^ 31"
  shows "length l = mx \<Longrightarrow> l = x @ NUL # r \<Longrightarrow> x \<noteq> [] \<Longrightarrow> c_str x \<Longrightarrow> c_str (unread s) \<Longrightarrow> invar s \<Longrightarrow>
    mx \<le> n \<Longrightarrow> held (insert addr B) u \<Longrightarrow> addr \<notin> B \<Longrightarrow>
    \<exists>res. opt_grow opts al reader addr l mx (length x) s u = Some (Inr res) \<and> grown n B x mx s u res"
proof (induction "n - mx" arbitrary: addr l mx x r s u rule: less_induct)
  case less
  have mx2: "2 \<le> mx"
    using less.prems(1-3) by (cases x) auto
  have rd: "rd l (length x - 1) = Inr (last x)"
    using less.prems(2,3) rd_append [of "butlast x" "last x" "NUL # r"]
    by (cases x rule: rev_cases) simp_all
  show ?case
  proof (cases "Suc (length x) = mx \<and> last x \<noteq> newline")
    case False
    with less.prems mx2 rd show ?thesis
      by (subst opt_grow.simps) (auto simp: line_rest_def)
  next
    case True
    then have l: "l = x @ [NUL]"
      using less.prems(1,2) by auto
    obtain p u1 where re: "ini_realloc al addr l (min (2 * mx) n) u = (p, u1)"
      by fastforce
    show ?thesis
    proof (cases p)
      case None
      then obtain u' where "ini_free al addr u1 = Inr u'" "held B u'" "\<not> never_fails al"
        using grow_fails [OF _ less.prems(8,9)] re by blast
      with None re True rd less.prems(3) n(1) show ?thesis
        by (subst opt_grow.simps) (simp add: Let_def)
    next
      case (Some q)
      obtain addr1 l1 where "q = (addr1, l1)"
        by fastforce
      with Some re l have re': "ini_realloc al addr (x @ [NUL]) (min (2 * mx) n) u = (Some (addr1, l1), u1)"
        by simp
      show ?thesis
        unfolding l
      proof (rule grow_next [OF n less.prems(3) _ _ less.prems(5-9) re'])
        fix y r1 s1
        assume y: "mx < min (2 * mx) n" "length (x @ y @ NUL # r1) = min (2 * mx) n" "c_str y"
            "unread s1 = drop (length y) (unread s)" "invar s1" "held (insert addr1 B) u1" "addr1 \<notin> B"
        show "\<exists>res. opt_grow opts al reader addr1 (x @ y @ NUL # r1) (min (2 * mx) n) (length (x @ y)) s1 u1 =
            Some (Inr res) \<and> grown n B (x @ y) (min (2 * mx) n) s1 u1 res"
          by (rule less.hyps [where r = r1]) (use y less.prems(3-5) in auto)
      qed (use True in auto)
    qed
  qed
qed


text \<open>The line the two loops read together is the one a buffer of \<open>n\<close> bytes would have taken.\<close>

abbreviation whole :: "nat \<Rightarrow> nat set \<Rightarrow> 'st \<Rightarrow> 'u \<Rightarrow> (nat \<times> buf \<times> nat) option \<times> 'st \<times> 'u \<Rightarrow> bool" where
  "whole n B s u res \<equiv> (case res of
       (None, s', u') \<Rightarrow> held B u' \<and> \<not> never_fails al
     | (Some (addr', l', mx'), s', u') \<Rightarrow>
         (\<exists>r. l' = first_line (n - 1) (unread s) @ NUL # r) \<and> length l' = mx' \<and> 2 \<le> mx' \<and> mx' \<le> n \<and>
         addr' \<notin> B \<and> held (insert addr' B) u' \<and> view u' = view u \<and> invar s' \<and>
         unread s' = drop (length (first_line (n - 1) (unread s))) (unread s))"

lemma growing_round:
  assumes grow: "opt_growing opts" and n: "n = o_max_line opts" "n < 2 ^ 31"
    and mx: "2 \<le> mx" "mx \<le> n" "length b = mx" and s: "invar s" "c_str (unread s)" "unread s \<noteq> []"
    and u: "held (insert addr B) u" "addr \<notin> B"
  obtains l s1 res where "reader b (c_int (int mx)) s = Inr (Some l, s1)"
    "opt_refill opts al reader addr l mx s1 u = Some (Inr res)"
    "whole n B s u res"
proof -
  obtain x s1 where x: "reader b (c_int (int mx)) s = Inr (Some (store x b), s1)" "length x < mx" "invar s1"
      "x = first_line (mx - 1) (unread s)" "unread s1 = drop (length x) (unread s)"
    using read_chunk [OF s(1,3) mx(3,1)] mx(2) n(2) by (metis order.strict_trans1)
  have cx: "c_str x"
    using s(2) x(4) first_line_prefix [of "mx - 1" "unread s"] by (metis c_str_take)
  have x0: "x \<noteq> []"
    using mx(1) s(3) x(4) by simp
  let ?l = "x @ NUL # drop (Suc (length x)) b"
  have lx: "length ?l = mx" and cs1: "c_str (unread s1)"
    using x(2,5) mx(3) s(2) by auto
  have rf: "opt_refill opts al reader addr (store x b) mx s1 u = opt_grow opts al reader addr ?l mx (length x) s1 u"
    using grow c_strlen_str [OF cx, of "[]"] by (simp add: opt_refill_def store_def)
  obtain res where gr: "opt_grow opts al reader addr ?l mx (length x) s1 u = Some (Inr res)"
      "grown n B x mx s1 u res"
    using grow_ok [OF n lx refl x0 cx cs1 x(3) mx(2) u] by blast
  define z where "z = first_line (n - 1) (unread s)"
  have z: "x @ line_rest n mx x (unread s1) = z"
    using line_rest_first [OF mx(1,2) x(4)] x(5) by (simp add: z_def)
  then have "x @ line_rest n mx x (unread s1) @ t = z @ t" for t
    by (metis append.assoc)
  moreover have "drop (length (line_rest n mx x (unread s1))) (unread s1) = drop (length z) (unread s)"
    unfolding z [symmetric] by (simp add: x(5) add.commute)
  ultimately have "whole n B s u res"
    using gr(2) unfolding z_def [symmetric] by (auto split: prod.splits option.splits)
  with gr(1) x(1) rf show thesis
    by (intro that [of "store x b" s1 res]) simp_all
qed

lemma growing_loop:
  assumes grow: "opt_growing opts" and n: "n = o_max_line opts" "n < 2 ^ 31"
  defines "own \<equiv> \<lambda>B addr. insert addr B"
    and "good \<equiv> \<lambda>B addr mx s. addr \<notin> B \<and> 2 \<le> mx \<and> mx \<le> n \<and> invar s \<and> c_str (unread s)"
  shows "rel mx (own B addr) st a \<Longrightarrow> good B addr mx s \<Longrightarrow>
    \<exists>r. opt_loop opts al reader h s addr mx st = Some r \<and>
      outcome (own B) (good B) (\<lambda>u. held B u \<and> \<not> never_fails al) r
        (opt_run opts g a (map c_view (chunks (n - 1) (unread s))))"
proof (erule loop_sim [rotated 2])
  fix addr mx s and b :: buf
  assume "good B addr mx s" and "unread s = []" and "length b = mx"
  then show "\<exists>s'. reader b (c_int (int mx)) s = Inr (None, s')"
    using read_end [of s "int mx" b] n by (simp add: c_int_id good_def)
next
  fix addr mx s and b :: buf and u
  assume good: "good B addr mx s" and ne: "unread s \<noteq> []" and len: "length b = mx" and u: "held (own B addr) u"
  let ?x = "first_line (n - 1) (unread s)"
  obtain l s1 res where rd: "reader b (c_int (int mx)) s = Inr (Some l, s1)"
      "opt_refill opts al reader addr l mx s1 u = Some (Inr res)"
    and res: "whole n B s u res"
  proof (rule growing_round [OF grow n _ _ len _ _ ne])
    show "held (insert addr B) u" "addr \<notin> B" "2 \<le> mx" "mx \<le> n" "invar s" "c_str (unread s)"
      using good u by (simp_all add: good_def own_def)
  qed
  have "c_str ?x"
    using good first_line_prefix [of "n - 1" "unread s"] unfolding good_def by (metis c_str_take)
  then have x: "c_view ?x = ?x" "?x \<noteq> []"
      "chunks (n - 1) (unread s) = ?x # chunks (n - 1) (drop (length ?x) (unread s))"
    using good ne chunks_step [of "n - 1" "unread s"] by (simp_all add: good_def c_view_def)
  show "\<exists>l s1. reader b (c_int (int mx)) s = Inr (Some l, s1) \<and>
      ((\<exists>s2 u'. opt_refill opts al reader addr l mx s1 u = Some (Inr (None, s2, u')) \<and>
          held B u' \<and> \<not> never_fails al) \<or>
       (\<exists>addr' x r mx' s' u'. filled opts al (n - 1) (own B) (good B) addr l mx s1 u s addr' x r mx' s' u'))"
  proof (cases "fst res")
    case None
    with rd res show ?thesis
      by (cases res) auto
  next
    case (Some q)
    then obtain addr' mx' s' u' r where r: "res = (Some (addr', ?x @ NUL # r, mx'), s', u')"
      using res by (cases res) auto
    have "filled opts al (n - 1) (own B) (good B) addr l mx s1 u s addr' ?x r mx' s' u'"
      using rd(2) res r x good by (auto simp: good_def own_def)
    with rd(1) show ?thesis
      by blast
  qed
qed


lemma growing_heap_parse:
  assumes "\<not> o_use_stack opts" and "o_allow_realloc opts"
    and n: "2 \<le> o_initial_alloc opts" "o_initial_alloc opts \<le> o_max_line opts" "o_max_line opts < 2 ^ 31"
    and "invar s" and "c_str (unread s)" and "held B u"
  shows "promised B (opt_parse_stream opts al reader s h u)
    (opt_text opts (o_max_line opts) g (view u) (unread s))"
proof (rule heap_start [OF assms(1,8)])
  fix addr u' and l :: buf
  assume a: "addr \<notin> B" "length l = o_initial_alloc opts" "held (insert addr B) u'" "view u' = view u"
  let ?k = "o_initial_alloc opts" and ?st = "(ini_start u')\<lparr>line_buf := l\<rparr>"
  let ?good = "\<lambda>addr mx s. addr \<notin> B \<and> 2 \<le> mx \<and> mx \<le> o_max_line opts \<and> invar s \<and> c_str (unread s)"
  have "opt_growing opts" and "rel ?k (insert addr B) ?st (ini_init (view u))" and "?good addr ?k s"
    using a assms by (simp_all add: opt_growing_def rel_start)
  from growing_loop [OF this(1) refl n(3) this(2,3)] obtain r
    where r: "opt_loop opts al reader h s addr ?k ?st = Some r"
      and out: "outcome (\<lambda>addr. insert addr B) ?good (\<lambda>u. held B u \<and> \<not> never_fails al) r
        (opt_run opts g (ini_init (view u)) (map c_view (chunks (o_max_line opts - 1) (unread s))))"
    by blast
  show "promised B (opt_finish opts al (opt_loop opts al reader h s addr ?k ?st))
      (opt_text opts (o_max_line opts) g (view u) (unread s))"
    unfolding r opt_text_def by (rule heap_finish [OF assms(1) out]) simp
qed

end

end
