(* ===== verification/Ini_Build.thy ===== *)
theory Ini_Build
  imports Ini_Growing
begin

text \<open>
  The parser as the build compiles it: with the options of \<^verbatim>\<open>conf.h\<close> the general function is the one of
  \<open>Ini_Parser\<close>, and the general specification is \<open>ini_text\<close>.  With the refinement of all options
  this gives \<open>ini_parse_file_eq\<close> and \<open>ini_parse_string_eq\<close>, on which the rest of the development
  rests.
\<close>

section \<open>The program\<close>

text \<open>A handler that takes name and value as they come and would run into a null pointer.\<close>

definition plain_handler :: "'u ini_handler \<Rightarrow> 'u opt_handler" where
  "plain_handler h u s name val ln =
     (case name of
        None \<Rightarrow> Inl Null_deref
      | Some n \<Rightarrow> (case val of None \<Rightarrow> Inl Null_deref | Some v \<Rightarrow> h u s n v))"

lemma default_fields [simp]:
  "\<not> o_handler_lineno default_options" "o_allow_multiline default_options" "o_allow_bom default_options"
  "o_start_comment_prefixes default_options = INI_START_COMMENT_PREFIXES"
  "o_allow_inline_comments default_options" "o_inline_comment_prefixes default_options = '';''"
  "o_use_stack default_options" "o_max_line default_options = INI_MAX_LINE"
  "\<not> o_stop_on_first_error default_options" "\<not> o_call_handler_on_new_section default_options"
  "\<not> o_allow_no_value default_options" "\<not> opt_growing default_options"
  by (simp_all add: default_options_def opt_growing_def)

lemma default_stops: "opt_stops_at default_options = stops_at"
  by (intro ext) (simp add: opt_stops_at_def stops_at_def default_options_def)

lemma default_find: "opt_find_chars_or_comment default_options = find_chars_or_comment"
proof -
  have "opt_find_loop default_options b chars w s = find_loop b chars w s" for b chars w s
  proof (induction b chars w s rule: find_loop.induct)
    case (1 b chars w s)
    then show ?case
      by (subst opt_find_loop.simps, subst find_loop.simps) (simp add: default_stops)
  qed
  then show ?thesis
    by (intro ext) (simp add: opt_find_chars_or_comment_def find_chars_or_comment_def)
qed

lemma default_call [simp]:
  "opt_call_handler default_options (plain_handler h) st (Some n) (Some v) = call_handler h st n v"
  by (simp add: opt_call_handler_def call_handler_def plain_handler_def)

lemma default_section: "opt_section_line default_options (plain_handler h) st start = section_line st start"
  unfolding opt_section_line_def section_line_def default_find
  by (simp add: Let_def cong: if_cong)

lemma default_pair: "opt_pair_line default_options (plain_handler h) st start = pair_line h st start"
proof -
  have cut: "opt_cut_comment default_options l val =
      and_then (find_chars_or_comment l val None) (\<lambda>fin.
      and_then (rd l fin) (\<lambda>e. if e \<noteq> NUL then wr l fin NUL else Inr l))" for l val
    by (simp add: opt_cut_comment_def default_find)
  have bare: "(if ini_error st = 0 then
        if o_allow_no_value default_options then x else Inr (set_error st) else Inr st) = Inr (set_error st)" for x
    by (simp add: set_error_def)
  show ?thesis
    unfolding opt_pair_line_def pair_line_def default_find cut bare
    by (simp add: and_then_assoc Let_def cong: if_cong)
qed

lemma default_line: "opt_line default_options (plain_handler h) st = ini_line h st"
  unfolding opt_line_def ini_line_def
  by (simp add: Let_def default_section default_pair del: ini_consts cong: if_cong)

lemma default_refill: "opt_refill default_options al reader addr l mx s u = Some (Inr (Some (addr, l, mx), s, u))"
  by (simp add: opt_refill_def)

abbreviation ended :: "nat \<Rightarrow> 'u ini_state res \<Rightarrow> ('u + nat \<times> 'u ini_state) res" where
  "ended addr \<equiv> map_sum id (\<lambda>st. Inr (addr, st))"

lemma default_loop_round:
  "opt_loop default_options al reader (plain_handler h) s addr INI_MAX_LINE st =
     (case reader (line_buf st) (int INI_MAX_LINE) s of
        Inl e \<Rightarrow> Some (Inl e)
      | Inr (None, s) \<Rightarrow> Some (Inr (Inr (addr, st)))
      | Inr (Some l, s) \<Rightarrow>
          (case ini_line h (st\<lparr>line_buf := l\<rparr>) of
             Inl e \<Rightarrow> Some (Inl e)
           | Inr st \<Rightarrow> opt_loop default_options al reader (plain_handler h) s addr INI_MAX_LINE st))"
proof -
  have c: "c_int (int INI_MAX_LINE) = int INI_MAX_LINE"
    by (intro c_int_id) simp_all
  show ?thesis
    by (subst opt_loop.simps)
      (simp add: c default_refill default_line split: sum.split option.split prod.split del: ini_consts)
qed

text \<open>Both loops return the same, and one returns when the other does.\<close>

lemma default_loop_to:
  fixes reader :: "'st ini_reader" and h :: "'u ini_handler"
  assumes "ini_loop reader h s st = Some r"
  shows "opt_loop default_options al reader (plain_handler h) s addr INI_MAX_LINE st = Some (ended addr r)"
proof (rule ini_loop.raw_induct [where P = "\<lambda>reader h s st r.
      opt_loop default_options al reader (plain_handler h) s addr INI_MAX_LINE st = Some (ended addr r)",
      OF _ assms])
  fix f and reader :: "'st ini_reader" and h :: "'u ini_handler" and s st r
  assume "\<And>reader h s st r. f reader h s st = Some r \<Longrightarrow>
      opt_loop default_options al reader (plain_handler h) s addr INI_MAX_LINE st = Some (ended addr r)"
    and "(case reader (line_buf st) (int INI_MAX_LINE) s of
        Inl e \<Rightarrow> Some (Inl e)
      | Inr (None, s') \<Rightarrow> Some (Inr st)
      | Inr (Some l, s') \<Rightarrow>
          case ini_line h (st\<lparr>line_buf := l\<rparr>) of Inl e \<Rightarrow> Some (Inl e) | Inr st' \<Rightarrow> f reader h s' st') = Some r"
  then show "opt_loop default_options al reader (plain_handler h) s addr INI_MAX_LINE st = Some (ended addr r)"
    by (subst default_loop_round) (auto split: sum.splits option.splits prod.splits)
qed

lemma default_loop_from:
  assumes "opt_loop opts al reader h' s addr mx st = Some r"
  shows "opts = default_options \<longrightarrow> mx = INI_MAX_LINE \<longrightarrow>
    (\<forall>h. h' = plain_handler h \<longrightarrow> ini_loop reader h s st \<noteq> None)"
proof -
  have c: "c_int (int INI_MAX_LINE) = int INI_MAX_LINE"
    by (intro c_int_id) simp_all
  show ?thesis
    by (rule opt_loop.raw_induct [where P = "\<lambda>opts al reader h' s addr mx st r.
          opts = default_options \<longrightarrow> mx = INI_MAX_LINE \<longrightarrow>
          (\<forall>h. h' = plain_handler h \<longrightarrow> ini_loop reader h s st \<noteq> None)", OF _ assms])
      (intro impI allI, subst ini_loop.simps,
        auto simp: c default_refill default_line simp del: ini_consts
          split: sum.splits option.splits prod.splits)
qed

lemma default_loop:
  "opt_loop default_options al reader (plain_handler h) s addr INI_MAX_LINE st =
     map_option (ended addr) (ini_loop reader h s st)"
proof (cases "ini_loop reader h s st")
  case None
  then show ?thesis
    using default_loop_from [of default_options al reader "plain_handler h" s addr INI_MAX_LINE st]
    by (cases "opt_loop default_options al reader (plain_handler h) s addr INI_MAX_LINE st") auto
next
  case (Some r)
  then show ?thesis
    by (simp add: default_loop_to del: ini_consts)
qed

lemma default_parse_stream:
  "opt_parse_stream default_options al reader s (plain_handler h) u = ini_parse_stream reader s h u"
proof -
  have "(ini_start u)\<lparr>line_buf := replicate INI_MAX_LINE NUL\<rparr> = ini_start u"
    by (simp add: ini_start_def)
  then show ?thesis
    unfolding opt_parse_stream_def ini_parse_stream_def
    by (simp add: default_loop opt_finish_def del: ini_consts split: option.split)
      (auto simp: and_then_def split: sum.split)
qed

section \<open>The specification\<close>

lemma default_before: "opt_before default_options = before_stop"
proof -
  have "opt_before default_options chars w x = before_stop chars w x" for chars w x
    by (induction chars w x rule: before_stop.induct) (simp_all add: opt_ends_def ends_part_def)
  then show ?thesis
    by (intro ext)
qed

lemma default_from: "opt_from default_options = from_stop"
  by (intro ext) (simp add: opt_from_def from_stop_def default_before)

fun plain_kind :: "opt_kind \<Rightarrow> ini_entry" where
  "plain_kind O_skip = Skip"
| "plain_kind (O_more v) = More v"
| "plain_kind (O_section s) = Section s"
| "plain_kind O_open = Malformed"
| "plain_kind (O_pair n v) = Pair n v"
| "plain_kind (O_bare n) = Malformed"

lemma default_kinds:
  "plain_kind (opt_section_entry default_options z) = section_entry z"
  "plain_kind (opt_pair_entry default_options z) = pair_entry z"
  by (simp_all add: section_entry_def opt_section_entry_def pair_entry_def opt_pair_entry_def
      opt_uncomment_def default_before default_from Let_def)

lemma default_entry: "plain_kind (opt_entry default_options first cont x) = ini_entry first cont x"
  unfolding ini_entry_def opt_entry_def Let_def if_distrib [of plain_kind] default_kinds
  by (simp del: ini_consts cong: if_cong)

lemma default_effect: "opt_effect default_options (plain_handler h) a e = a_effect h a (plain_kind e)"
  by (cases e)
    (simp_all add: opt_effect_def a_effect_def opt_emit_def a_emit_def plain_handler_def a_fail_def Let_def)

lemma default_run: "opt_run default_options (plain_handler h) a xs = ini_run h a xs"
  by (induction xs arbitrary: a) (simp_all add: opt_step_def ini_step_def default_effect default_entry Let_def)

lemma default_text: "opt_text default_options INI_MAX_LINE (plain_handler h) u txt = ini_text h u txt"
  by (simp add: opt_text_def ini_text_def default_run)

section \<open>The parser of the build\<close>

text \<open>On the stack the handler is all that acts on the world, so nothing is hidden from the result.\<close>

interpretation file_parse: stream_parse fgets f_unread "\<lambda>_. True" h h id "\<lambda>_ _. True" for h
  by unfold_locales (auto intro: sum.rel_refl)

interpretation string_parse: stream_parse ini_reader_string ctx_unread ctx_ok h h id "\<lambda>_ _. True" for h
  by unfold_locales (auto intro: sum.rel_refl)

lemma same_result:
  "rel_sum (=) (\<lambda>(rc, u') (rc', v'). rc = rc' \<and> id u' = v' \<and> True) x y \<Longrightarrow> x = y"
  by (cases x; cases y) auto

lemma stack_file:
  assumes "o_use_stack opts" and "2 \<le> o_max_line opts" and "o_max_line opts < 2 ^ 31"
  shows "opt_parse_stream opts al fgets f h u = opt_text opts (o_max_line opts) h u (f_unread f)"
  using same_result [OF file_parse.stack_parse [OF assms, where s = f and h = h and u = u and al = al]] by simp

lemma stack_string:
  assumes "o_use_stack opts" and "2 \<le> o_max_line opts" and "o_max_line opts < 2 ^ 31" and "ctx_ok ctx"
  shows "opt_parse_stream opts al ini_reader_string ctx h u =
    opt_text opts (o_max_line opts) h u (ctx_unread ctx)"
  using same_result [OF string_parse.stack_parse [OF assms, where h = h and u = u and al = al]] by simp

lemma ini_parse_file_eq: "ini_parse_file f h u = ini_text h u (f_unread f)"
  using stack_file [of default_options _ f "plain_handler h" u]
  by (simp add: ini_parse_file_def default_parse_stream default_text [symmetric])

lemma ini_parse_string_eq:
  assumes "get_str s 0 = Inr txt"
  shows "ini_parse_string s h u = ini_text h u txt"
proof -
  obtain r where s: "s = txt @ NUL # r" and c: "c_str txt"
    using buf_split [OF assms] by auto
  have n: "c_strlen s 0 = Inr (length txt)"
    using c_strlen_str [OF c, of "[]" r] by (simp add: s)
  let ?ctx = "\<lparr>ctx_base = s, ctx_ptr = 0, ctx_num_left = length txt\<rparr>"
  have "ctx_ok ?ctx" and "ctx_unread ?ctx = txt"
    by (simp_all add: ctx_ok_def ctx_unread_def s)
  with n stack_string [of default_options ?ctx _ "plain_handler h" u] show ?thesis
    by (simp add: ini_parse_string_def default_parse_stream default_text [symmetric])
qed

end
