(* ===== verification/Ini_Print.thy ===== *)
theory Ini_Print
  imports Ini_Build
begin

text \<open>
  Consequences of the parser's specification: which line its return value names, that it returns
  whenever its handler does, and that a configuration written out as sections and \<open>name=value\<close>
  lines is read back as it was.
\<close>

section \<open>The reported line\<close>

text \<open>The entries of the lines in order, whatever the handler does with them.\<close>

fun next_cont :: "bool \<Rightarrow> ini_entry \<Rightarrow> bool" where
  "next_cont cont (Section s) = False"
| "next_cont cont (Pair n v) = (n \<noteq> [])"
| "next_cont cont _ = cont"

fun ini_entries :: "bool \<Rightarrow> bool \<Rightarrow> string list \<Rightarrow> ini_entry list" where
  "ini_entries first cont [] = []"
| "ini_entries first cont (x # xs) =
     (let e = ini_entry first cont x in e # ini_entries False (next_cont cont e) xs)"

fun first_bad :: "nat \<Rightarrow> ini_entry list \<Rightarrow> nat" where
  "first_bad n [] = 0"
| "first_bad n (e # es) = (if e = Malformed then Suc n else first_bad (Suc n) es)"

definition accepting :: "'u ini_handler \<Rightarrow> bool" where
  "accepting h \<longleftrightarrow> (\<forall>u s n v. \<exists>rc u'. h u s n v = Inr (rc, u') \<and> rc \<noteq> 0)"

lemma emit_accepting:
  assumes "accepting h"
  obtains u where "a_emit h a n v = Inr (a\<lparr>a_user := u\<rparr>)"
proof -
  obtain rc u where "h (a_user a) (a_section a) n v = Inr (rc, u)" and "rc \<noteq> 0"
    using assms unfolding accepting_def by blast
  with that show thesis
    by (simp add: a_emit_def Let_def)
qed

lemma step_accepting:
  assumes "accepting h"
  defines "e \<equiv> \<lambda>a x. ini_entry (a_lineno a = 0) (a_prev a \<noteq> []) x"
  obtains a' where "ini_step h a x = Inr a'" and "a_lineno a' = Suc (a_lineno a)"
    and "a_prev a' \<noteq> [] \<longleftrightarrow> next_cont (a_prev a \<noteq> []) (e a x)"
    and "a_error a' = (if a_error a = 0 \<and> e a x = Malformed then Suc (a_lineno a) else a_error a)"
proof -
  have s: "ini_step h a x = a_effect h (a\<lparr>a_lineno := Suc (a_lineno a)\<rparr>) (e a x)"
    by (simp add: ini_step_def Let_def e_def)
  show thesis
  proof (cases "e a x")
    case (More v)
    obtain u where "a_emit h (a\<lparr>a_lineno := Suc (a_lineno a)\<rparr>) (a_prev a) v =
        Inr (a\<lparr>a_lineno := Suc (a_lineno a)\<rparr>\<lparr>a_user := u\<rparr>)"
      using emit_accepting [OF assms(1)] .
    with s More that show thesis
      by (simp add: a_effect_def)
  next
    case (Pair n v)
    let ?a = "a\<lparr>a_lineno := Suc (a_lineno a), a_prev := take (MAX_NAME - 1) n\<rparr>"
    obtain u where "a_emit h ?a n v = Inr (?a\<lparr>a_user := u\<rparr>)"
      using emit_accepting [OF assms(1)] .
    with s Pair that show thesis
      by (simp add: a_effect_def)
  qed (use s that in \<open>auto simp: a_effect_def a_fail_def\<close>)
qed

lemma run_accepting:
  assumes "accepting h"
  shows "\<exists>a'. ini_run h a xs = Inr a' \<and>
    a_error a' = (if a_error a = 0
                  then first_bad (a_lineno a) (ini_entries (a_lineno a = 0) (a_prev a \<noteq> []) xs)
                  else a_error a)"
proof (induction xs arbitrary: a)
  case Nil
  then show ?case by simp
next
  case (Cons x xs)
  obtain a' where a': "ini_step h a x = Inr a'" "a_lineno a' = Suc (a_lineno a)"
      "a_prev a' \<noteq> [] \<longleftrightarrow> next_cont (a_prev a \<noteq> []) (ini_entry (a_lineno a = 0) (a_prev a \<noteq> []) x)"
      "a_error a' = (if a_error a = 0 \<and> ini_entry (a_lineno a = 0) (a_prev a \<noteq> []) x = Malformed
                     then Suc (a_lineno a) else a_error a)"
    using step_accepting [OF assms] .
  with Cons.IH [of a'] show ?case
    by (auto simp: Let_def)
qed

text \<open>The lines of a text as the parser sees them.\<close>

definition ini_lines :: "string \<Rightarrow> string list" where
  "ini_lines txt = map c_view (chunks (INI_MAX_LINE - 1) txt)"

lemma ini_text_accepting:
  assumes "accepting h"
  shows "\<exists>u'. ini_text h u txt =
    Inr (int (first_bad 0 (ini_entries True False (ini_lines txt))), u')"
  using run_accepting [OF assms, of "ini_init u" "ini_lines txt"]
  by (auto simp: ini_text_def ini_init_def ini_lines_def)

text \<open>
  A handler that returns, whatever it answers: then the parser returns, and the line it reports is
  one of the lines read.
\<close>

definition returning :: "'u ini_handler \<Rightarrow> bool" where
  "returning h \<longleftrightarrow> (\<forall>u s n v. \<not> isl (h u s n v))"

lemma step_returning:
  assumes "returning h" and "a_error a \<le> a_lineno a"
  obtains a' where "ini_step h a x = Inr a'" "a_lineno a' = Suc (a_lineno a)" "a_error a' \<le> a_lineno a'"
proof -
  have emit: "\<exists>a'. a_emit h b n v = Inr a' \<and> a_lineno a' = a_lineno b \<and> a_error a' \<le> a_lineno a'"
    if "a_error b \<le> a_lineno b" for b n v
  proof -
    obtain rc u where "h (a_user b) (a_section b) n v = Inr (rc, u)"
      using assms(1) unfolding returning_def by (metis isl_def old.prod.exhaust sum.exhaust_sel)
    with that show ?thesis
      by (simp add: a_emit_def a_fail_def Let_def)
  qed
  let ?a = "a\<lparr>a_lineno := Suc (a_lineno a)\<rparr>"
  have "\<exists>a'. a_effect h ?a e = Inr a' \<and> a_lineno a' = Suc (a_lineno a) \<and> a_error a' \<le> a_lineno a'" for e
  proof (cases e)
    case (More v)
    with emit [of ?a "a_prev a" v] assms(2) show ?thesis
      by (simp add: a_effect_def)
  next
    case (Pair n v)
    with emit [of "?a\<lparr>a_prev := take (MAX_NAME - 1) n\<rparr>" n v] assms(2) show ?thesis
      by (simp add: a_effect_def)
  qed (use assms(2) in \<open>auto simp: a_effect_def a_fail_def\<close>)
  with that show thesis
    unfolding ini_step_def Let_def by blast
qed

lemma run_returning:
  assumes "returning h" and "a_error a \<le> a_lineno a"
  shows "\<exists>a'. ini_run h a xs = Inr a' \<and> a_error a' \<le> a_lineno a + length xs"
  using assms(2)
proof (induction xs arbitrary: a)
  case Nil
  then show ?case by simp
next
  case (Cons x xs)
  obtain a' where "ini_step h a x = Inr a'" "a_lineno a' = Suc (a_lineno a)" "a_error a' \<le> a_lineno a'"
    by (rule step_returning [OF assms(1) Cons.prems])
  with Cons.IH [of a'] show ?case
    by auto
qed

lemma ini_text_returning:
  assumes "returning h"
  shows "\<exists>n u'. ini_text h u txt = Inr (int n, u') \<and> n \<le> length (ini_lines txt)"
  using run_returning [OF assms, of "ini_init u" "ini_lines txt"]
  by (auto simp: ini_text_def ini_init_def ini_lines_def)

section \<open>Writing a configuration\<close>

type_synonym ini_section = "string \<times> (string \<times> string) list"

definition print_pair :: "string \<times> string \<Rightarrow> string" where
  "print_pair p = fst p @ ''='' @ snd p @ [newline]"

definition print_section :: "ini_section \<Rightarrow> string" where
  "print_section s = ''['' @ fst s @ '']'' @ [newline] @ concat (map print_pair (snd s))"

definition print_ini :: "ini_section list \<Rightarrow> string" where
  "print_ini ss = concat (map print_section ss)"

text \<open>
  Names that are read back: not empty, no white space, no separator, no comment or section mark in
  front.  Values may contain spaces and any other character, but no line break, none at either
  end, and no semicolon after a space, which would start a comment.
\<close>

definition plain :: "string \<Rightarrow> bool" where
  "plain x \<longleftrightarrow> list_all (\<lambda>c. c \<noteq> NUL \<and> \<not> isspace c) x"

definition name_ok :: "string \<Rightarrow> bool" where
  "name_ok n \<longleftrightarrow> n \<noteq> [] \<and> plain n \<and> CHR ''='' \<notin> set n \<and> CHR '':'' \<notin> set n \<and> hd n \<notin> set '';#[''"

definition value_ok :: "string \<Rightarrow> bool" where
  "value_ok v \<longleftrightarrow> c_str v \<and> newline \<notin> set v \<and> before_stop None False v = v \<and>
     rstrip_str v = v \<and> dropWhile isspace v = v"

definition pair_ok :: "string \<times> string \<Rightarrow> bool" where
  "pair_ok p \<longleftrightarrow> name_ok (fst p) \<and> value_ok (snd p) \<and>
     length (fst p) + length (snd p) + 3 \<le> INI_MAX_LINE"

definition section_ok :: "ini_section \<Rightarrow> bool" where
  "section_ok s \<longleftrightarrow> plain (fst s) \<and> CHR '']'' \<notin> set (fst s) \<and> length (fst s) < MAX_SECTION \<and>
     list_all pair_ok (snd s)"

text \<open>A handler that records what it is called with.\<close>

definition collect :: "(string \<times> string \<times> string) list ini_handler" where
  "collect u s n v = Inr (1, u @ [(s, n, v)])"

definition flat :: "ini_section list \<Rightarrow> (string \<times> string \<times> string) list" where
  "flat ss = concat (map (\<lambda>s. map (\<lambda>p. (fst s, fst p, snd p)) (snd s)) ss)"

lemma isspace_newline [simp]: "isspace newline"
  by (simp add: isspace_def)

lemma not_isspace_marks [simp]:
  "\<not> isspace CHR ''=''" "\<not> isspace CHR ''[''" "\<not> isspace CHR '']''"
  by (simp_all add: isspace_def)

lemma plain_Cons [simp]: "plain (c # x) \<longleftrightarrow> c \<noteq> NUL \<and> \<not> isspace c \<and> plain x"
  by (simp add: plain_def)

lemma plain_set: "plain x \<Longrightarrow> c \<in> set x \<Longrightarrow> c \<noteq> NUL \<and> \<not> isspace c"
  by (auto simp: plain_def list_all_iff)

lemma plain_newline: "plain x \<Longrightarrow> newline \<notin> set x"
  by (auto dest: plain_set)

lemma plain_c_str: "plain x \<Longrightarrow> c_str x"
  by (auto simp: c_str_def dest: plain_set)

lemma before_stop_plain:
  assumes "plain x" and "\<forall>c \<in> set x. c \<notin> set cs" and "d \<in> set cs"
  shows "before_stop (Some cs) False (x @ d # y) = x"
  using assms by (induction x) auto

text \<open>Lines without a byte order mark that do not start with white space.\<close>

lemma ini_entry_plain:
  assumes "y \<noteq> []" and "\<not> isspace (hd y)" and "hd y \<notin> set '';#''" and "hd y \<noteq> CHR 0xEF \<or> \<not> first"
    and "rstrip_str x = y"
  shows "ini_entry first cont x =
    (if hd y = CHR ''['' then section_entry (tl y) else pair_entry y)"
proof -
  obtain c y' where y: "y = c # y'"
    using assms(1) by (cases y) auto
  obtain z where "x = y @ z"
    using rstrip_str_prefix [of x] assms(5) by auto
  then have no_bom: "(first \<and> has_bom x) = False"
    using assms(4) y by (auto simp: has_bom_def)
  show ?thesis
    using assms y unfolding ini_entry_def no_bom by (simp add: Let_def)
qed

lemma entry_section:
  assumes "section_ok (s, ps)"
  shows "ini_entry first cont (''['' @ s @ '']'' @ [newline]) = Section s"
proof -
  have b: "before_stop (Some '']'') False (s @ '']'') = s"
    using assms by (intro before_stop_plain) (auto simp: section_ok_def)
  have "rstrip_str ((''['' @ s @ '']'') @ [newline]) = ''['' @ s @ '']''"
    using rstrip_str_snoc [of "''['' @ s" "CHR '']''"] by (subst rstrip_str_snoc) simp
  then have "ini_entry first cont ((''['' @ s @ '']'') @ [newline]) = section_entry (s @ '']'')"
    by (subst ini_entry_plain) auto
  with b show ?thesis
    by (simp add: section_entry_def from_stop_def Let_def)
qed

lemma rstrip_pair: "value_ok v \<Longrightarrow> rstrip_str (n @ ''='' @ v) = n @ ''='' @ v"
proof (cases v rule: rev_cases)
  case Nil
  then show ?thesis
    using rstrip_str_snoc [of n "CHR ''=''"] by simp
next
  case (snoc w c)
  assume "value_ok v"
  then have "rstrip_str (w @ [c]) = w @ [c]"
    by (simp add: value_ok_def snoc)
  then have "\<not> isspace c"
    using rstrip_str_len [of w] by (auto split: if_splits)
  then show ?thesis
    using rstrip_str_snoc [of "n @ ''='' @ w" c] snoc by simp
qed

lemma entry_pair:
  assumes "pair_ok (n, v)" and "\<not> first"
  shows "ini_entry first cont (print_pair (n, v)) = Pair n v"
proof -
  have n: "name_ok n" and v: "value_ok v"
    using assms by (auto simp: pair_ok_def)
  have hd_n: "n \<noteq> []" "\<not> isspace (hd n)" "hd n \<notin> set '';#[''"
    using n by (cases n; auto simp: name_ok_def)+
  have b: "before_stop (Some ''=:'') False (n @ CHR ''='' # v) = n"
    using n by (intro before_stop_plain) (auto simp: name_ok_def)
  have "rstrip_str n = n"
    using n rstrip_str_snoc by (cases n rule: rev_cases) (auto simp: name_ok_def dest: plain_set)
  moreover have "rstrip_str ((n @ ''='' @ v) @ [newline]) = n @ ''='' @ v"
    using rstrip_pair [OF v] by (subst rstrip_str_snoc) simp
  then have "ini_entry first cont ((n @ ''='' @ v) @ [newline]) = pair_entry (n @ ''='' @ v)"
    using ini_entry_plain [of "n @ ''='' @ v" first "(n @ ''='' @ v) @ [newline]" cont] hd_n assms(2)
    by simp
  ultimately show ?thesis
    using b v by (simp add: pair_entry_def from_stop_def Let_def print_pair_def value_ok_def)
qed

section \<open>Reading it back\<close>

lemma c_view_id: "c_str x \<Longrightarrow> c_view x = x"
  by (simp add: c_view_def)

lemma ini_lines_pair:
  assumes "pair_ok p"
  shows "ini_lines (print_pair p @ rest) = print_pair p # ini_lines rest"
proof -
  let ?x = "fst p @ ''='' @ snd p"
  have x: "newline \<notin> set ?x" "c_str ?x" "length ?x < INI_MAX_LINE - 1"
    using assms plain_newline [of "fst p"] plain_c_str [of "fst p"]
    by (auto simp: pair_ok_def name_ok_def value_ok_def)
  have "chunks (INI_MAX_LINE - 1) (?x @ newline # rest) = (?x @ [newline]) # chunks (INI_MAX_LINE - 1) rest"
    using x by (intro chunks_line) auto
  with x show ?thesis
    by (simp add: ini_lines_def print_pair_def c_view_id)
qed

lemma ini_lines_section:
  assumes "section_ok (s, ps)"
  shows "ini_lines (''['' @ s @ '']'' @ newline # rest) = (''['' @ s @ '']'' @ [newline]) # ini_lines rest"
proof -
  let ?x = "''['' @ s @ '']''"
  have x: "newline \<notin> set ?x" "c_str ?x" "length ?x < INI_MAX_LINE - 1"
    using assms plain_newline [of s] plain_c_str [of s] by (auto simp: section_ok_def)
  have "chunks (INI_MAX_LINE - 1) (?x @ newline # rest) = (?x @ [newline]) # chunks (INI_MAX_LINE - 1) rest"
    using x by (intro chunks_line) auto
  with x show ?thesis
    by (simp add: ini_lines_def c_view_id)
qed

lemma run_pairs:
  assumes "list_all pair_ok ps" and "0 < a_lineno a"
  shows "\<exists>a'. 0 < a_lineno a' \<and> a_section a' = a_section a \<and> a_error a' = a_error a \<and>
    a_user a' = a_user a @ map (\<lambda>p. (a_section a, fst p, snd p)) ps \<and>
    (\<forall>rest. ini_run collect a (ini_lines (concat (map print_pair ps) @ rest)) =
           ini_run collect a' (ini_lines rest))"
  using assms
proof (induction ps arbitrary: a)
  case Nil
  then show ?case by auto
next
  case (Cons p ps)
  obtain n v where p: "p = (n, v)"
    by fastforce
  let ?a = "a\<lparr>a_lineno := Suc (a_lineno a), a_prev := take (MAX_NAME - 1) n,
              a_user := a_user a @ [(a_section a, n, v)]\<rparr>"
  have "ini_step collect a (print_pair p) = Inr ?a"
    using entry_pair [of n v False] Cons.prems p
    by (simp add: ini_step_def Let_def a_effect_def a_emit_def collect_def)
  then have "ini_run collect a (ini_lines (concat (map print_pair (p # ps)) @ rest)) =
      ini_run collect ?a (ini_lines (concat (map print_pair ps) @ rest))" for rest
    using ini_lines_pair [of p "concat (map print_pair ps) @ rest"] Cons.prems by simp
  then show ?case
    using Cons.IH [of ?a] Cons.prems p by auto
qed

lemma run_sections:
  assumes "list_all section_ok ss"
  shows "\<exists>a'. a_error a' = a_error a \<and> a_user a' = a_user a @ flat ss \<and>
    ini_run collect a (ini_lines (print_ini ss)) = Inr a'"
  using assms
proof (induction ss arbitrary: a)
  case Nil
  then show ?case by (simp add: print_ini_def ini_lines_def flat_def)
next
  case (Cons sec ss)
  obtain s ps where sec: "sec = (s, ps)"
    by fastforce
  have ok: "section_ok (s, ps)" and len: "length s < MAX_SECTION" and ps: "list_all pair_ok ps"
    using Cons.prems sec by (auto simp: section_ok_def)
  let ?a = "a\<lparr>a_lineno := Suc (a_lineno a), a_section := s, a_prev := []\<rparr>"
  have "ini_step collect a (''['' @ s @ '']'' @ [newline]) = Inr ?a"
    using entry_section [OF ok] len by (simp add: ini_step_def Let_def a_effect_def)
  then have "ini_run collect a (ini_lines (print_ini (sec # ss))) =
      ini_run collect ?a (ini_lines (concat (map print_pair ps) @ print_ini ss))"
    using ini_lines_section [OF ok, of "concat (map print_pair ps) @ print_ini ss"] sec
    by (simp add: print_ini_def print_section_def)
  moreover obtain a1 where a1: "a_error a1 = a_error a"
      "a_user a1 = a_user a @ map (\<lambda>p. (s, fst p, snd p)) ps"
      "\<forall>rest. ini_run collect ?a (ini_lines (concat (map print_pair ps) @ rest)) =
         ini_run collect a1 (ini_lines rest)"
    using run_pairs [OF ps, of ?a] by auto
  ultimately show ?case
    using Cons.IH [of a1] Cons.prems sec by (auto simp: flat_def)
qed

lemma ini_text_print:
  assumes "list_all section_ok ss"
  shows "ini_text collect [] (print_ini ss) = Inr (0, flat ss)"
  using run_sections [OF assms, of "ini_init []"]
  by (auto simp: ini_text_def ini_lines_def ini_init_def)

end
