(* ===== verification/Ini_Theorems.thy ===== *)
theory Ini_Theorems
  imports Ini_Print
begin

text \<open>The properties of the INI parser.\<close>

section \<open>Refinement of the specification\<close>

text \<open>
  \<^bold>\<open>C1\<close>.  \<open>ini_parse_file\<close>, run on its line, section and name buffers, computes what the specification
  \<open>ini_text\<close> says: the text is cut into lines of at most 199 bytes, each line is classified, and
  the pairs reach the handler in order with the section they stand in.  In particular the loop
  ends and no buffer is left, for every file and every handler.
\<close>

theorem ini_parse_file_refines: "ini_parse_file f h u = ini_text h u (f_unread f)"
  by (rule ini_parse_file_eq)

text \<open>
  \<^bold>\<open>C9\<close>.  \<open>ini_parse_string\<close> computes the same specification on the C string its argument points to.
\<close>

theorem ini_parse_string_refines:
  assumes "get_str s 0 = Inr t"
  shows "ini_parse_string s h u = ini_text h u t"
  using assms by (rule ini_parse_string_eq)

theorem ini_parse_string_refines_witness:
  "get_str (''a=b'' @ [NUL, CHR ''x'']) 0 = Inr ''a=b'' \<and>
   ini_parse_string (''a=b'' @ [NUL, CHR ''x'']) collect [] = ini_text collect [] ''a=b''"
  using ini_parse_string_refines [of "''a=b'' @ [NUL, CHR ''x'']" "''a=b''" collect "[]"]
  by (simp add: get_str_def)

section \<open>Compile options\<close>

text \<open>
  \<^bold>\<open>C10\<close>.  With its line buffer on the stack \<open>ini_parse_stream\<close> computes its specification under every
  choice of the other options of \<^verbatim>\<open>conf.h\<close>, for files and for strings: it ends, it stays inside its
  buffers, and section calls, names without a value, line numbers for the handler, comments,
  continuations and the stop at the first error are as \<open>opt_text\<close> says.
\<close>

theorem opt_parse_refines:
  assumes "o_use_stack opts" and "2 \<le> o_max_line opts" and "o_max_line opts < 2 ^ 31" and "ctx_ok ctx"
  shows "opt_parse_stream opts al fgets f h u = opt_text opts (o_max_line opts) h u (f_unread f) \<and>
    opt_parse_stream opts al ini_reader_string ctx h u = opt_text opts (o_max_line opts) h u (ctx_unread ctx)"
  by (intro conjI stack_file [OF assms(1-3)] stack_string [OF assms])

text \<open>A handler that records its calls and refuses names without a value.\<close>

definition note_call :: "(string \<times> string option \<times> string option \<times> nat option) list opt_handler" where
  "note_call u s name val ln = Inr (if val = None \<and> name \<noteq> None then 0 else 1, u @ [(s, name, val, ln)])"

definition strict_options :: ini_options where
  "strict_options = default_options\<lparr>o_handler_lineno := True, o_stop_on_first_error := True,
     o_call_handler_on_new_section := True, o_allow_no_value := True, o_max_line := 8\<rparr>"

lemmas opt_text_simps =
  opt_text_def opt_step_def opt_entry_def opt_effect_def opt_emit_def opt_section_entry_def
  opt_pair_entry_def opt_from_def opt_uncomment_def opt_ends_def strict_options_def
  default_options_def strchr_found_def note_call_def rstrip_str_def c_view_def ini_init_def a_fail_def
  has_bom_def isspace_def

theorem opt_parse_refines_witness:
  "let f = \<lparr>f_unread = ''[s]'' @ [newline] @ ''a=b'' @ [newline] @ ''c'' @ [newline] @ ''d=e''\<rparr>;
       ctx = \<lparr>ctx_base = [NUL], ctx_ptr = 0, ctx_num_left = 0\<rparr> in
   ctx_ok ctx \<and>
   (\<forall>al. opt_parse_stream strict_options al fgets f note_call [] =
     Inr (3, [(''s'', None, None, Some 1), (''s'', Some ''a'', Some ''b'', Some 2),
              (''s'', Some ''c'', None, Some 3)]) \<and>
     opt_parse_stream strict_options al ini_reader_string ctx note_call [] = Inr (0, []))"
proof -
  let ?t = "''[s]'' @ [newline] @ ''a=b'' @ [newline] @ ''c'' @ [newline] @ ''d=e''"
  let ?ctx = "\<lparr>ctx_base = [NUL], ctx_ptr = 0, ctx_num_left = 0\<rparr>"
  have o: "o_use_stack strict_options" "2 \<le> o_max_line strict_options"
      "o_max_line strict_options < 2 ^ 31" "ctx_ok ?ctx" "ctx_unread ?ctx = []"
    by (simp_all add: strict_options_def default_options_def ctx_ok_def ctx_unread_def)
  have c: "chunks 7 ?t = [''[s]'' @ [newline], ''a=b'' @ [newline], ''c'' @ [newline], ''d=e'']"
    by (simp add: chunks.simps numeral_eq_Suc)
  show ?thesis
    using opt_parse_refines [OF o(1-4), of _ "\<lparr>f_unread = ?t\<rparr>" note_call "[]"] c o(4,5)
    by (simp add: opt_text_simps Let_def)
qed

text \<open>
  With \<open>INI_ALLOW_NO_VALUE\<close> a name without a value no longer reaches the handler once an error has
  been met: the call stands in the branch for \<open>!error\<close>.
\<close>

lemma bare_name_after_error:
  assumes "a_error a \<noteq> 0"
  shows "opt_effect opts h a (O_bare n) = Inr a"
  using assms by (simp add: opt_effect_def a_fail_def)

section \<open>The two ways to read\<close>

text \<open>
  \<^bold>\<open>C11\<close>.  One call of \<open>ini_reader_string\<close> stores in the buffer what \<open>fgets\<close> stores that is given the
  same unread bytes, leaves the same bytes unread, and never writes outside the buffer.
\<close>

theorem ini_reader_string_fgets:
  assumes "ctx_ok ctx" and "2 \<le> num" and "num \<le> int (length b)" and "f_unread f = ctx_unread ctx"
  shows "\<exists>r ctx' f'. ini_reader_string b num ctx = Inr (r, ctx') \<and> fgets b num f = Inr (r, f') \<and>
    (r \<noteq> None \<longrightarrow> f_unread f' = ctx_unread ctx')"
proof (cases "ctx_unread ctx = []")
  case True
  then show ?thesis
    using string_reader.read_end [of ctx num b] file_reader.read_end [of f num b] assms by fastforce
next
  case False
  then show ?thesis
    using string_reader.read_line [of ctx num b] file_reader.read_line [of f num b] assms by fastforce
qed

theorem ini_reader_string_fgets_witness:
  "let ctx = \<lparr>ctx_base = ''ab'' @ [NUL], ctx_ptr = 0, ctx_num_left = 2\<rparr> in
   ctx_ok ctx \<and> (\<exists>r ctx' f'. ini_reader_string ''....'' 4 ctx = Inr (r, ctx') \<and>
     fgets ''....'' 4 \<lparr>f_unread = ''ab''\<rparr> = Inr (r, f') \<and>
     (r \<noteq> None \<longrightarrow> f_unread f' = ctx_unread ctx'))"
  using ini_reader_string_fgets [of "\<lparr>ctx_base = ''ab'' @ [NUL], ctx_ptr = 0, ctx_num_left = 2\<rparr>" 4
      "''....''" "\<lparr>f_unread = ''ab''\<rparr>"]
  by (simp add: ctx_ok_def ctx_unread_def)

section \<open>Errors\<close>

text \<open>
  \<^bold>\<open>C12\<close>.  With a handler that accepts every pair, \<open>ini_parse_file\<close> returns 0 when every line is a
  comment, a section, a pair or a continuation, and otherwise the number of the first line that is
  none of these; for files of fewer than \<open>2\<^sup>3\<^sup>1\<close> lines, where the counters of the code, of type
  \<open>int\<close>, do not overflow.
\<close>

theorem ini_parse_file_error_line:
  assumes "accepting h" and "length (ini_lines (f_unread f)) < 2 ^ 31"
  shows "\<exists>u'. ini_parse_file f h u =
    Inr (int (first_bad 0 (ini_entries True False (ini_lines (f_unread f)))), u')"
  using ini_text_accepting [OF assms(1)] by (simp add: ini_parse_file_eq)

lemma bad_second_line:
  "length (ini_lines ''a=b\<newline>[s'') = 2"
  "first_bad 0 (ini_entries True False (ini_lines ''a=b\<newline>[s'')) = 2"
  by code_simp+

theorem ini_parse_file_error_line_witness:
  "accepting collect \<and> length (ini_lines ''a=b\<newline>[s'') < 2 ^ 31 \<and>
   (\<exists>u'. ini_parse_file \<lparr>f_unread = ''a=b\<newline>[s''\<rparr> collect [] = Inr (2, u'))"
  using ini_parse_file_error_line [of collect "\<lparr>f_unread = ''a=b\<newline>[s''\<rparr>" "[]"] bad_second_line
  by (simp add: accepting_def collect_def)

text \<open>
  \<^bold>\<open>C40\<close>.  \<open>ini_parse\<close> always returns when its handler does: -1 exactly when the file cannot be opened;
  otherwise the file is closed after the last line and the result is 0 or the number of a line that
  was read, never beyond the last one, whatever the handler answers.  The file has fewer than \<open>2\<^sup>3\<^sup>1\<close>
  lines, so that the counters of the code, of type \<open>int\<close>, do not overflow.
\<close>

theorem ini_parse_returns:
  assumes "returning h" and "c_fopen filename u = (opened, u1)"
    and "\<And>f. opened = Some f \<Longrightarrow> length (ini_lines (f_unread f)) < 2 ^ 31"
  shows "\<exists>rc u'. ini_parse c_fopen c_fclose filename h u = Inr (rc, u') \<and>
    (case opened of
       None \<Rightarrow> rc = -1 \<and> u' = u1
     | Some f \<Rightarrow> 0 \<le> rc \<and> rc \<le> int (length (ini_lines (f_unread f))) \<and>
         (\<exists>u2. ini_parse_file f h u1 = Inr (rc, u2) \<and> u' = c_fclose u2))"
proof (cases opened)
  case None
  with assms(2) show ?thesis
    by (simp add: ini_parse_def)
next
  case (Some f)
  with ini_text_returning [OF assms(1), of u1 "f_unread f"] assms(2) show ?thesis
    by (auto simp: ini_parse_def ini_parse_file_eq)
qed

theorem ini_parse_returns_witness:
  "let h = (\<lambda>u s n v. Inr (0, Suc u)); opn = (\<lambda>p u. (Some \<lparr>f_unread = ''a=b\<newline>[s''\<rparr>, u)) in
   returning h \<and> opn ''x'' 0 = (Some \<lparr>f_unread = ''a=b\<newline>[s''\<rparr>, 0) \<and>
   (\<exists>rc u'. ini_parse opn id ''x'' h 0 = Inr (rc, u') \<and> 0 \<le> rc \<and> rc \<le> 2)"
  using ini_parse_returns [of "\<lambda>u s n v. Inr (0, Suc u)" "\<lambda>p u. (Some \<lparr>f_unread = ''a=b\<newline>[s''\<rparr>, u)" "''x''" 0
      "Some \<lparr>f_unread = ''a=b\<newline>[s''\<rparr>" 0 id] bad_second_line(1)
  by (auto simp: returning_def)

section \<open>Round trip\<close>

text \<open>
  \<^bold>\<open>C2\<close>.  A configuration written as sections with \<open>name=value\<close> lines is read back: the handler is
  called once per pair, in order, with the section, name and value that were written, and the
  result is 0.
\<close>

theorem ini_print_parse:
  assumes "list_all section_ok ss"
  shows "ini_parse_file \<lparr>f_unread = print_ini ss\<rparr> collect [] = Inr (0, flat ss)"
  using assms by (simp add: ini_parse_file_eq ini_text_print)

theorem ini_print_parse_witness:
  "let ss = [(''errinj_errno'', [(''op_regexp'', ''read; or write''), (''probability'', ''10'')])] in
   list_all section_ok ss \<and>
   ini_parse_file \<lparr>f_unread = print_ini ss\<rparr> collect [] = Inr (0, flat ss)"
  using ini_print_parse [of "[(''errinj_errno'', [(''op_regexp'', ''read; or write''), (''probability'', ''10'')])]"]
  by (simp add: section_ok_def pair_ok_def name_ok_def value_ok_def plain_def isspace_def
      rstrip_str_def)

end
