(* ===== verification/Errno_Names.thy ===== *)
theory Errno_Names
  imports Prelude
begin

text \<open>
  The error names the errno tables mention (\<open>errno_name\<close>; their numbers come from the target's
  \<^verbatim>\<open>errno.h\<close> and are a parameter of the model) and the names of the tables themselves: the
  constructor \<open>A_x\<close> stands for the C array \<open>errno_x\<close>.
\<close>

datatype errno_name =
    E2BIG | EACCES | EAGAIN | EBADF | EBUSY | ECAPMODE | ECONNRESET | EDEADLK |
    EDESTADDRREQ | EDQUOT | EEXIST | EFAULT | EFBIG | EFTYPE | EINTEGRITY | EINTR |
    EINVAL | EIO | EISDIR | ELOOP | EMFILE | EMLINK | ENAMETOOLONG | ENETDOWN |
    ENETUNREACH | ENFILE | ENOATTR | ENOBUFS | ENODATA | ENODEV | ENOENT | ENOLCK |
    ENOMEM | ENOSPC | ENOSYS | ENOTCAPABLE | ENOTCONN | ENOTDIR | ENOTEMPTY | ENOTSUP |
    ENOTTY | ENXIO | EOPNOTSUPP | EOVERFLOW | EPERM | EPIPE | ERANGE | EROFS | ESPIPE |
    ESRCH | ETIMEDOUT | ETXTBSY | EWOULDBLOCK | EXDEV

datatype errno_array =
    A_access | A_chmod | A_close | A_creat | A_fallocate | A_fcntl | A_flock | A_fsync |
    A_ftruncate | A_getxattr | A_ioctl | A_link | A_listxattr | A_lstat | A_mkdir |
    A_mknod | A_opendir | A_read | A_readdir | A_readlink | A_removexattr | A_rename |
    A_rmdir | A_setxattr | A_statfs | A_symlink | A_truncate | A_unlink | A_utimensat |
    A_write

text \<open>Where the sources test for a platform; FreeBSD with its major version.\<close>

datatype platform = Linux | FreeBSD nat | OpenBSD | MacOSX

end
