(* ===== verification/Errno_Linux.thy ===== *)
theory Errno_Linux
  imports Errno_Names
begin

text \<open>
  The errno tables for Linux (\<^verbatim>\<open>unreliablefs_errno_linux.h\<close>), one list per array, in the
  order of the source, and the map from array names to them (\<open>None\<close>: the header declares no
  such array).
\<close>

definition linux_errno_access :: "errno_name list" where
  "linux_errno_access =
     [EACCES, ELOOP, ENAMETOOLONG, ENOENT, ENOTDIR, EROFS, EFAULT, EINVAL, EIO, ENOMEM,
      ETXTBSY]"

definition linux_errno_chmod :: "errno_name list" where
  "linux_errno_chmod =
     [EACCES, EFAULT, EIO, ELOOP, ENAMETOOLONG, ENOENT, ENOMEM, ENOTDIR, EPERM, EROFS]"

definition linux_errno_creat :: "errno_name list" where
  "linux_errno_creat =
     [EACCES, EDQUOT, EEXIST, EFAULT, EFBIG, EINTR, EINVAL, EISDIR, ELOOP, EMFILE,
      ENAMETOOLONG, ENFILE, ENODEV, ENOENT, ENOMEM, ENOSPC, ENOTDIR, ENXIO, EOPNOTSUPP,
      EOVERFLOW, EPERM, EROFS, ETXTBSY, EWOULDBLOCK]"

definition linux_errno_ftruncate :: "errno_name list" where
  "linux_errno_ftruncate =
     [EACCES, EBADF, EFAULT, EFBIG, EINTR, EINVAL, EIO, EISDIR, ELOOP, ENAMETOOLONG,
      ENOTDIR, EPERM, EROFS, ETXTBSY]"

definition linux_errno_link :: "errno_name list" where
  "linux_errno_link =
     [EACCES, EDQUOT, EEXIST, EFAULT, EIO, ELOOP, EMLINK, ENAMETOOLONG, ENOENT, ENOMEM,
      ENOSPC, ENOTDIR, EPERM, EROFS, EXDEV]"

definition linux_errno_mkdir :: "errno_name list" where
  "linux_errno_mkdir =
     [EACCES, EDQUOT, EEXIST, EFAULT, EINVAL, ELOOP, EMLINK, ENAMETOOLONG, ENOENT, ENOMEM,
      ENOSPC, ENOTDIR, EPERM, EROFS]"

definition linux_errno_mknod :: "errno_name list" where
  "linux_errno_mknod =
     [EACCES, EDQUOT, EEXIST, EFAULT, EINVAL, ELOOP, ENAMETOOLONG, ENOENT, ENOMEM, ENOSPC,
      ENOTDIR, EPERM, EROFS]"

definition linux_errno_opendir :: "errno_name list" where
  "linux_errno_opendir =
     [EACCES, EBADF, EMFILE, ENOENT, ENOMEM, ENOTDIR]"

definition linux_errno_readdir :: "errno_name list" where
  "linux_errno_readdir =
     [EBADF]"

definition linux_errno_read :: "errno_name list" where
  "linux_errno_read =
     [EAGAIN, EWOULDBLOCK, EBADF, EFAULT, EINTR, EINVAL, EIO, EISDIR]"

definition linux_errno_readlink :: "errno_name list" where
  "linux_errno_readlink =
     [EACCES, EFAULT, EINVAL, EIO, ELOOP, ENAMETOOLONG, ENOENT, ENOMEM, ENOTDIR]"

definition linux_errno_rename :: "errno_name list" where
  "linux_errno_rename =
     [EACCES, EBUSY, EDQUOT, EEXIST, EFAULT, EINVAL, EISDIR, ELOOP, EMLINK, ENAMETOOLONG,
      ENOENT, ENOMEM, ENOSPC, ENOTDIR, ENOTEMPTY, EPERM, EROFS]"

definition linux_errno_rmdir :: "errno_name list" where
  "linux_errno_rmdir =
     [EACCES, EBUSY, EFAULT, EINVAL, ELOOP, ENAMETOOLONG, ENOENT, ENOMEM, ENOTDIR,
      ENOTEMPTY, EPERM, EROFS]"

definition linux_errno_symlink :: "errno_name list" where
  "linux_errno_symlink =
     [EACCES, EDQUOT, EEXIST, EFAULT, EIO, ELOOP, ENAMETOOLONG, ENOENT, ENOMEM, ENOSPC,
      ENOTDIR, EPERM, EROFS]"

definition linux_errno_truncate :: "errno_name list" where
  "linux_errno_truncate =
     [EACCES, EFAULT, EFBIG, EINTR, EINVAL, EIO, EISDIR, ELOOP, ENAMETOOLONG, ENOENT,
      ENOTDIR, EPERM, EROFS, ETXTBSY]"

definition linux_errno_unlink :: "errno_name list" where
  "linux_errno_unlink =
     [EACCES, EBUSY, EFAULT, EIO, EISDIR, ELOOP, ENAMETOOLONG, ENOENT, ENOMEM, ENOTDIR]"

definition linux_errno_write :: "errno_name list" where
  "linux_errno_write =
     [EAGAIN, EWOULDBLOCK, EBADF, EDESTADDRREQ, EDQUOT, EFAULT, EFBIG, EINTR, EINVAL,
      ENOSPC, EPERM, EPIPE]"

definition linux_errno_lstat :: "errno_name list" where
  "linux_errno_lstat =
     [EACCES, EBADF, EFAULT, EINVAL, ELOOP, ENAMETOOLONG, ENOENT, ENOMEM, ENOTDIR, EOVERFLOW]"

definition linux_errno_statfs :: "errno_name list" where
  "linux_errno_statfs =
     [EACCES, EFAULT, EINTR, EIO, ELOOP, ENAMETOOLONG, ENOENT, ENOMEM, ENOSYS, ENOTDIR,
      EOVERFLOW]"

definition linux_errno_close :: "errno_name list" where
  "linux_errno_close =
     [EBADF, EDQUOT, EINTR, EIO, ENOSPC]"

definition linux_errno_utimensat :: "errno_name list" where
  "linux_errno_utimensat =
     [EACCES, EBADF, EFAULT, EINVAL, ELOOP, ENAMETOOLONG, ENOENT, ENOTDIR, EPERM, EROFS,
      ESRCH]"

definition linux_errno_fsync :: "errno_name list" where
  "linux_errno_fsync =
     [EBADF, EDQUOT, EINVAL, EIO, ENOSPC, EROFS]"

definition linux_errno_setxattr :: "errno_name list" where
  "linux_errno_setxattr =
     [EDQUOT, EEXIST, ENODATA, ENOSPC, ENOTSUP, EPERM, ERANGE, EACCES, EBADF, EFAULT,
      ELOOP, ENAMETOOLONG, ENOENT, ENOMEM, ENOTDIR, EOVERFLOW]"

definition linux_errno_getxattr :: "errno_name list" where
  "linux_errno_getxattr =
     [E2BIG, ENODATA, ENOTSUP, ERANGE, EACCES, EBADF, EFAULT, ELOOP, ENAMETOOLONG, ENOENT,
      ENOMEM, ENOTDIR, EOVERFLOW]"

definition linux_errno_listxattr :: "errno_name list" where
  "linux_errno_listxattr =
     [E2BIG, ENOTSUP, ERANGE, EACCES, EBADF, EFAULT, ELOOP, ENAMETOOLONG, ENOENT, ENOMEM,
      ENOTDIR, EOVERFLOW]"

definition linux_errno_removexattr :: "errno_name list" where
  "linux_errno_removexattr =
     [ENODATA, ENOTSUP, EACCES, EBADF, EFAULT, ELOOP, ENAMETOOLONG, ENOENT, ENOMEM,
      ENOTDIR, EOVERFLOW]"

definition linux_errno_flock :: "errno_name list" where
  "linux_errno_flock =
     [EBADF, EINTR, EINVAL, ENOLCK, EWOULDBLOCK]"

definition linux_errno_fallocate :: "errno_name list" where
  "linux_errno_fallocate =
     [EBADF, EFBIG, EINTR, EINVAL, EIO, ENODEV, ENOSPC, ENOSYS, EOPNOTSUPP, EPERM, ESPIPE,
      ETXTBSY]"

definition linux_errno_ioctl :: "errno_name list" where
  "linux_errno_ioctl =
     [EBADF, EFAULT, EINVAL, ENOTTY]"

definition linux_errno_fcntl :: "errno_name list" where
  "linux_errno_fcntl =
     [EACCES, EAGAIN, EBADF, EBUSY, EDEADLK, EFAULT, EINTR, EINVAL, EMFILE, ENOLCK,
      ENOTDIR, EPERM]"

lemmas linux_errno_defs =
  linux_errno_access_def linux_errno_chmod_def linux_errno_creat_def
  linux_errno_ftruncate_def linux_errno_link_def linux_errno_mkdir_def
  linux_errno_mknod_def linux_errno_opendir_def linux_errno_readdir_def
  linux_errno_read_def linux_errno_readlink_def linux_errno_rename_def
  linux_errno_rmdir_def linux_errno_symlink_def linux_errno_truncate_def
  linux_errno_unlink_def linux_errno_write_def linux_errno_lstat_def linux_errno_statfs_def
  linux_errno_close_def linux_errno_utimensat_def linux_errno_fsync_def
  linux_errno_setxattr_def linux_errno_getxattr_def linux_errno_listxattr_def
  linux_errno_removexattr_def linux_errno_flock_def linux_errno_fallocate_def
  linux_errno_ioctl_def linux_errno_fcntl_def

fun linux_errnos :: "errno_array \<Rightarrow> errno_name list option" where
  "linux_errnos A_access = Some linux_errno_access"
| "linux_errnos A_chmod = Some linux_errno_chmod"
| "linux_errnos A_close = Some linux_errno_close"
| "linux_errnos A_creat = Some linux_errno_creat"
| "linux_errnos A_fallocate = Some linux_errno_fallocate"
| "linux_errnos A_fcntl = Some linux_errno_fcntl"
| "linux_errnos A_flock = Some linux_errno_flock"
| "linux_errnos A_fsync = Some linux_errno_fsync"
| "linux_errnos A_ftruncate = Some linux_errno_ftruncate"
| "linux_errnos A_getxattr = Some linux_errno_getxattr"
| "linux_errnos A_ioctl = Some linux_errno_ioctl"
| "linux_errnos A_link = Some linux_errno_link"
| "linux_errnos A_listxattr = Some linux_errno_listxattr"
| "linux_errnos A_lstat = Some linux_errno_lstat"
| "linux_errnos A_mkdir = Some linux_errno_mkdir"
| "linux_errnos A_mknod = Some linux_errno_mknod"
| "linux_errnos A_opendir = Some linux_errno_opendir"
| "linux_errnos A_read = Some linux_errno_read"
| "linux_errnos A_readdir = Some linux_errno_readdir"
| "linux_errnos A_readlink = Some linux_errno_readlink"
| "linux_errnos A_removexattr = Some linux_errno_removexattr"
| "linux_errnos A_rename = Some linux_errno_rename"
| "linux_errnos A_rmdir = Some linux_errno_rmdir"
| "linux_errnos A_setxattr = Some linux_errno_setxattr"
| "linux_errnos A_statfs = Some linux_errno_statfs"
| "linux_errnos A_symlink = Some linux_errno_symlink"
| "linux_errnos A_truncate = Some linux_errno_truncate"
| "linux_errnos A_unlink = Some linux_errno_unlink"
| "linux_errnos A_utimensat = Some linux_errno_utimensat"
| "linux_errnos A_write = Some linux_errno_write"

end
