(* ===== verification/Errno_FreeBSD.thy ===== *)
theory Errno_FreeBSD
  imports Errno_Names
begin

text \<open>
  The errno tables for FreeBSD (\<^verbatim>\<open>unreliablefs_errno_freebsd.h\<close>), one list per array, in the
  order of the source, and the map from array names to them (\<open>None\<close>: the header declares no
  such array).  The entries under \<^verbatim>\<open>#if __FreeBSD__ >= 12\<close> depend on the version.
\<close>

definition freebsd_errno_access :: "nat \<Rightarrow> errno_name list" where
  "freebsd_errno_access v =
     [EACCES, EFAULT] @
     (if 12 \<le> v then [EINTEGRITY] else []) @
     [EINVAL, EIO, ELOOP, ENAMETOOLONG, ENOENT, ENOTDIR, EROFS, ETXTBSY]"

definition freebsd_errno_chmod :: "nat \<Rightarrow> errno_name list" where
  "freebsd_errno_chmod v =
     [EACCES, EFAULT, EFTYPE] @
     (if 12 \<le> v then [EINTEGRITY] else []) @
     [EIO, ELOOP, ENAMETOOLONG, ENOENT, ENOTDIR, EPERM, EPERM, EROFS]"

definition freebsd_errno_creat :: "nat \<Rightarrow> errno_name list" where
  "freebsd_errno_creat v =
     [EACCES, EBADF, ECAPMODE, EDQUOT, EEXIST, EFAULT] @
     (if 12 \<le> v then [EINTEGRITY] else []) @
     [EINTR, EINVAL, EIO, EISDIR, ELOOP, EMFILE, EMLINK, ENAMETOOLONG, ENFILE, ENOENT,
      ENOSPC, ENOTCAPABLE, ENOTDIR, ENXIO, EOPNOTSUPP, EPERM, EROFS, ETXTBSY, EWOULDBLOCK]"

definition freebsd_errno_ftruncate :: "nat \<Rightarrow> errno_name list" where
  "freebsd_errno_ftruncate v =
     [EACCES, EBADF, EFAULT, EFBIG] @
     (if 12 \<le> v then [EINTEGRITY] else []) @
     [EINVAL, EIO, EISDIR, ELOOP, ENAMETOOLONG, ENOENT, ENOTDIR, EPERM, EROFS, ETXTBSY]"

definition freebsd_errno_link :: "nat \<Rightarrow> errno_name list" where
  "freebsd_errno_link v =
     [EACCES, EBADF, EDQUOT, EEXIST, EFAULT] @
     (if 12 \<le> v then [EINTEGRITY] else []) @
     [EINVAL, EIO, ELOOP, EMLINK, ENAMETOOLONG, ENOENT, ENOSPC, ENOTDIR, EOPNOTSUPP, EPERM,
      EROFS, EXDEV]"

definition freebsd_errno_mkdir :: "nat \<Rightarrow> errno_name list" where
  "freebsd_errno_mkdir v =
     [EACCES, EBADF, EDQUOT, EEXIST, EFAULT] @
     (if 12 \<le> v then [EINTEGRITY] else []) @
     [EIO, ELOOP, EMLINK, ENAMETOOLONG, ENOENT, ENOSPC, ENOTDIR, EPERM, EROFS]"

definition freebsd_errno_mknod :: "nat \<Rightarrow> errno_name list" where
  "freebsd_errno_mknod v =
     [EACCES, EBADF, EDQUOT, EEXIST, EFAULT] @
     (if 12 \<le> v then [EINTEGRITY] else []) @
     [EINVAL, EIO, ELOOP, ENAMETOOLONG, ENOENT, ENOSPC, ENOTDIR, EPERM, EROFS]"

definition freebsd_errno_opendir :: "nat \<Rightarrow> errno_name list" where
  "freebsd_errno_opendir v =
     [EACCES, ELOOP, ENAMETOOLONG, ENOENT, ENOTDIR]"

definition freebsd_errno_readdir :: "nat \<Rightarrow> errno_name list" where
  "freebsd_errno_readdir v =
     [EBADF, EFAULT] @
     (if 12 \<le> v then [EINTEGRITY] else []) @
     [EINVAL, EIO]"

definition freebsd_errno_read :: "nat \<Rightarrow> errno_name list" where
  "freebsd_errno_read v =
     [EAGAIN, EBADF, EBUSY, ECONNRESET, EFAULT] @
     (if 12 \<le> v then [EINTEGRITY] else []) @
     [EINTR, EINVAL, EIO, EISDIR, EOPNOTSUPP, EOVERFLOW]"

definition freebsd_errno_readlink :: "nat \<Rightarrow> errno_name list" where
  "freebsd_errno_readlink v =
     [EACCES, EFAULT] @
     (if 12 \<le> v then [EINTEGRITY] else []) @
     [EINVAL, EIO, ELOOP, ENAMETOOLONG, ENOENT, ENOTDIR]"

definition freebsd_errno_rename :: "nat \<Rightarrow> errno_name list" where
  "freebsd_errno_rename v =
     [EACCES, ECAPMODE, EDQUOT, EFAULT] @
     (if 12 \<le> v then [EINTEGRITY] else []) @
     [EINVAL, EIO, EISDIR, ELOOP, ENAMETOOLONG, ENOENT, ENOSPC, ENOTDIR, ENOTEMPTY, EPERM,
      EROFS, EXDEV]"

definition freebsd_errno_rmdir :: "nat \<Rightarrow> errno_name list" where
  "freebsd_errno_rmdir v =
     [EACCES, EBUSY, EFAULT] @
     (if 12 \<le> v then [EINTEGRITY] else []) @
     [EINVAL, EIO, ELOOP, ENAMETOOLONG, ENOENT, ENOTDIR, ENOTEMPTY, EPERM, EROFS]"

definition freebsd_errno_symlink :: "nat \<Rightarrow> errno_name list" where
  "freebsd_errno_symlink v =
     [EACCES, EDQUOT, EEXIST, EFAULT] @
     (if 12 \<le> v then [EINTEGRITY] else []) @
     [EIO, ELOOP, ENAMETOOLONG, ENOENT, ENOSPC, ENOTDIR, EPERM, EROFS]"

definition freebsd_errno_truncate :: "nat \<Rightarrow> errno_name list" where
  "freebsd_errno_truncate v =
     [EACCES, EFAULT, EFBIG] @
     (if 12 \<le> v then [EINTEGRITY] else []) @
     [EINVAL, EIO, EISDIR, ELOOP, ENAMETOOLONG, ENOENT, ENOTDIR, EPERM, EROFS, ETXTBSY]"

definition freebsd_errno_unlink :: "nat \<Rightarrow> errno_name list" where
  "freebsd_errno_unlink v =
     [EACCES, EFAULT] @
     (if 12 \<le> v then [EINTEGRITY] else []) @
     [EIO, EISDIR, ELOOP, ENAMETOOLONG, ENOENT, ENOSPC, ENOTDIR, EPERM, EROFS]"

definition freebsd_errno_write :: "nat \<Rightarrow> errno_name list" where
  "freebsd_errno_write v =
     [EAGAIN, EBADF, EDQUOT, EFAULT, EFBIG] @
     (if 12 \<le> v then [EINTEGRITY] else []) @
     [EINTR, EINVAL, EIO, ENOSPC, EPIPE, EROFS]"

definition freebsd_errno_lstat :: "nat \<Rightarrow> errno_name list" where
  "freebsd_errno_lstat v =
     [EACCES, EFAULT] @
     (if 12 \<le> v then [EINTEGRITY] else []) @
     [EIO, ELOOP, ENAMETOOLONG, ENOENT, ENOTDIR, EOVERFLOW]"

definition freebsd_errno_statfs :: "nat \<Rightarrow> errno_name list" where
  "freebsd_errno_statfs v =
     [EACCES, EFAULT] @
     (if 12 \<le> v then [EINTEGRITY] else []) @
     [EIO, ELOOP, ENAMETOOLONG, ENOENT, ENOTDIR]"

definition freebsd_errno_close :: "nat \<Rightarrow> errno_name list" where
  "freebsd_errno_close v =
     [EBADF, EINTR, ENOSPC, ECONNRESET]"

definition freebsd_errno_utimensat :: "nat \<Rightarrow> errno_name list" where
  "freebsd_errno_utimensat v =
     [EACCES, EBADF, EFAULT] @
     (if 12 \<le> v then [EINTEGRITY] else []) @
     [EINVAL, EIO, ELOOP, ENAMETOOLONG, ENOENT, ENOTDIR, EPERM, EROFS, ESRCH]"

definition freebsd_errno_fsync :: "nat \<Rightarrow> errno_name list" where
  "freebsd_errno_fsync v =
     [EBADF] @
     (if 12 \<le> v then [EINTEGRITY] else []) @
     [EINVAL, EIO]"

definition freebsd_errno_flock :: "nat \<Rightarrow> errno_name list" where
  "freebsd_errno_flock v =
     [EBADF, EINVAL, ENOLCK, EOPNOTSUPP, EWOULDBLOCK]"

definition freebsd_errno_ioctl :: "nat \<Rightarrow> errno_name list" where
  "freebsd_errno_ioctl v =
     [EBADF, EFAULT, EINVAL, ENOTTY]"

definition freebsd_errno_fcntl :: "nat \<Rightarrow> errno_name list" where
  "freebsd_errno_fcntl v =
     [EAGAIN, EBADF, EDEADLK, EINTR, EINVAL, EMFILE, ENOLCK, ENOTTY, EOPNOTSUPP, EOVERFLOW,
      EPERM, ESRCH]"

lemmas freebsd_errno_defs =
  freebsd_errno_access_def freebsd_errno_chmod_def freebsd_errno_creat_def
  freebsd_errno_ftruncate_def freebsd_errno_link_def freebsd_errno_mkdir_def
  freebsd_errno_mknod_def freebsd_errno_opendir_def freebsd_errno_readdir_def
  freebsd_errno_read_def freebsd_errno_readlink_def freebsd_errno_rename_def
  freebsd_errno_rmdir_def freebsd_errno_symlink_def freebsd_errno_truncate_def
  freebsd_errno_unlink_def freebsd_errno_write_def freebsd_errno_lstat_def
  freebsd_errno_statfs_def freebsd_errno_close_def freebsd_errno_utimensat_def
  freebsd_errno_fsync_def freebsd_errno_flock_def freebsd_errno_ioctl_def
  freebsd_errno_fcntl_def

fun freebsd_errnos :: "nat \<Rightarrow> errno_array \<Rightarrow> errno_name list option" where
  "freebsd_errnos v A_access = Some (freebsd_errno_access v)"
| "freebsd_errnos v A_chmod = Some (freebsd_errno_chmod v)"
| "freebsd_errnos v A_close = Some (freebsd_errno_close v)"
| "freebsd_errnos v A_creat = Some (freebsd_errno_creat v)"
| "freebsd_errnos v A_fallocate = None"
| "freebsd_errnos v A_fcntl = Some (freebsd_errno_fcntl v)"
| "freebsd_errnos v A_flock = Some (freebsd_errno_flock v)"
| "freebsd_errnos v A_fsync = Some (freebsd_errno_fsync v)"
| "freebsd_errnos v A_ftruncate = Some (freebsd_errno_ftruncate v)"
| "freebsd_errnos v A_getxattr = None"
| "freebsd_errnos v A_ioctl = Some (freebsd_errno_ioctl v)"
| "freebsd_errnos v A_link = Some (freebsd_errno_link v)"
| "freebsd_errnos v A_listxattr = None"
| "freebsd_errnos v A_lstat = Some (freebsd_errno_lstat v)"
| "freebsd_errnos v A_mkdir = Some (freebsd_errno_mkdir v)"
| "freebsd_errnos v A_mknod = Some (freebsd_errno_mknod v)"
| "freebsd_errnos v A_opendir = Some (freebsd_errno_opendir v)"
| "freebsd_errnos v A_read = Some (freebsd_errno_read v)"
| "freebsd_errnos v A_readdir = Some (freebsd_errno_readdir v)"
| "freebsd_errnos v A_readlink = Some (freebsd_errno_readlink v)"
| "freebsd_errnos v A_removexattr = None"
| "freebsd_errnos v A_rename = Some (freebsd_errno_rename v)"
| "freebsd_errnos v A_rmdir = Some (freebsd_errno_rmdir v)"
| "freebsd_errnos v A_setxattr = None"
| "freebsd_errnos v A_statfs = Some (freebsd_errno_statfs v)"
| "freebsd_errnos v A_symlink = Some (freebsd_errno_symlink v)"
| "freebsd_errnos v A_truncate = Some (freebsd_errno_truncate v)"
| "freebsd_errnos v A_unlink = Some (freebsd_errno_unlink v)"
| "freebsd_errnos v A_utimensat = Some (freebsd_errno_utimensat v)"
| "freebsd_errnos v A_write = Some (freebsd_errno_write v)"

end
