(* ===== verification/Errno_OpenBSD.thy ===== *)
theory Errno_OpenBSD
  imports Errno_Names
begin

text \<open>
  The errno tables for OpenBSD (\<^verbatim>\<open>unreliablefs_errno_openbsd.h\<close>), one list per array, in the
  order of the source, and the map from array names to them (\<open>None\<close>: the header declares no
  such array).
\<close>

definition openbsd_errno_access :: "errno_name list" where
  "openbsd_errno_access =
     [EACCES, EFAULT, EINVAL, EIO, ELOOP, ENAMETOOLONG, ENOENT, ENOTDIR, EPERM, EROFS,
      ETXTBSY]"

definition openbsd_errno_chmod :: "errno_name list" where
  "openbsd_errno_chmod =
     [EACCES, EFAULT, EINVAL, EIO, ELOOP, ENAMETOOLONG, ENOENT, ENOTDIR, EPERM, EROFS]"

definition openbsd_errno_creat :: "errno_name list" where
  "openbsd_errno_creat =
     [EACCES, EBUSY, EDQUOT, EEXIST, EFAULT, EINTR, EINVAL, EIO, EISDIR, ELOOP, EMFILE,
      ENAMETOOLONG, ENFILE, ENOENT, ENOSPC, ENOTDIR, ENXIO, EOPNOTSUPP, EPERM, EROFS,
      ETXTBSY, EWOULDBLOCK]"

definition openbsd_errno_ftruncate :: "errno_name list" where
  "openbsd_errno_ftruncate =
     [EBADF, EFBIG, EINVAL, EIO]"

definition openbsd_errno_link :: "errno_name list" where
  "openbsd_errno_link =
     [EACCES, EDQUOT, EEXIST, EFAULT, EIO, ELOOP, EMLINK, ENAMETOOLONG, ENOENT, ENOSPC,
      ENOTDIR, EOPNOTSUPP, EPERM, EROFS, EXDEV]"

definition openbsd_errno_mkdir :: "errno_name list" where
  "openbsd_errno_mkdir =
     [EACCES, EDQUOT, EEXIST, EFAULT, EIO, ELOOP, ENAMETOOLONG, ENOENT, ENOSPC, ENOTDIR,
      EROFS]"

definition openbsd_errno_mknod :: "errno_name list" where
  "openbsd_errno_mknod =
     [EACCES, EDQUOT, EEXIST, EFAULT, EINVAL, EIO, ELOOP, ENAMETOOLONG, ENOENT, ENOSPC,
      ENOTDIR, EPERM, EROFS]"

definition openbsd_errno_opendir :: "errno_name list" where
  "openbsd_errno_opendir =
     [ENOTDIR, EAGAIN, EBADF, EDEADLK, EINTR, EINVAL, EMFILE, ENOLCK, EOVERFLOW, ESRCH,
      EBADF, EFAULT, EIO, EACCES, EBUSY, EDQUOT, EEXIST, EFAULT, EINTR, EINVAL, EIO,
      EISDIR, ELOOP, EMFILE, ENAMETOOLONG, ENFILE, ENOENT, ENOSPC, ENOTDIR, ENXIO,
      EOPNOTSUPP, EPERM, EROFS, ETXTBSY, EWOULDBLOCK, ENOMEM]"

definition openbsd_errno_readdir :: "errno_name list" where
  "openbsd_errno_readdir =
     [EBADF, EFAULT, EINVAL, EIO]"

definition openbsd_errno_read :: "errno_name list" where
  "openbsd_errno_read =
     [EAGAIN, EBADF, EFAULT, EINTR, EINVAL, EIO, EISDIR, ENOTCONN]"

definition openbsd_errno_readlink :: "errno_name list" where
  "openbsd_errno_readlink =
     [EACCES, EFAULT, EINVAL, EIO, ELOOP, ENAMETOOLONG, ENOENT, ENOTDIR]"

definition openbsd_errno_rename :: "errno_name list" where
  "openbsd_errno_rename =
     [EACCES, EDQUOT, EFAULT, EINVAL, EIO, EISDIR, ELOOP, EMLINK, ENAMETOOLONG, ENOENT,
      ENOSPC, ENOTDIR, ENOTEMPTY, EPERM, EROFS, EXDEV]"

definition openbsd_errno_rmdir :: "errno_name list" where
  "openbsd_errno_rmdir =
     [EACCES, EBUSY, EFAULT, EINVAL, EIO, ELOOP, ENAMETOOLONG, ENOENT, ENOTDIR, ENOTEMPTY,
      EPERM, EROFS]"

definition openbsd_errno_symlink :: "errno_name list" where
  "openbsd_errno_symlink =
     [EACCES, EDQUOT, EEXIST, EFAULT, EIO, ELOOP, ENAMETOOLONG, ENOENT, ENOSPC, ENOTDIR,
      EROFS]"

definition openbsd_errno_truncate :: "errno_name list" where
  "openbsd_errno_truncate =
     [EACCES, EFAULT, EFBIG, EINVAL, EIO, EISDIR, ELOOP, ENAMETOOLONG, ENOENT, ENOTDIR,
      EROFS, ETXTBSY]"

definition openbsd_errno_unlink :: "errno_name list" where
  "openbsd_errno_unlink =
     [EACCES, EBUSY, EFAULT, EIO, ELOOP, ENAMETOOLONG, ENOENT, ENOTDIR, EPERM, EROFS]"

definition openbsd_errno_write :: "errno_name list" where
  "openbsd_errno_write =
     [EAGAIN, EBADF, EDESTADDRREQ, EDQUOT, EFAULT, EFBIG, EINTR, EINVAL, EIO, ENETDOWN,
      ENOSPC, EPIPE]"

definition openbsd_errno_lstat :: "errno_name list" where
  "openbsd_errno_lstat =
     [EACCES, EFAULT, EIO, ELOOP, ENAMETOOLONG, ENOENT, ENOTDIR]"

definition openbsd_errno_statfs :: "errno_name list" where
  "openbsd_errno_statfs =
     [EACCES, EFAULT, EIO, ELOOP, ENAMETOOLONG, ENOENT, ENOTDIR]"

definition openbsd_errno_close :: "errno_name list" where
  "openbsd_errno_close =
     [EBADF, EINTR, EIO]"

definition openbsd_errno_utimensat :: "errno_name list" where
  "openbsd_errno_utimensat =
     [EACCES, EBADF, EFAULT, EINVAL, EIO, ELOOP, ENAMETOOLONG, ENOENT, ENOTDIR, EPERM, EROFS]"

definition openbsd_errno_fsync :: "errno_name list" where
  "openbsd_errno_fsync =
     [EBADF, EINVAL, EIO]"

definition openbsd_errno_flock :: "errno_name list" where
  "openbsd_errno_flock =
     [EBADF, EINVAL, EOPNOTSUPP, EWOULDBLOCK]"

definition openbsd_errno_fcntl :: "errno_name list" where
  "openbsd_errno_fcntl =
     [EAGAIN, EBADF, EDEADLK, EINTR, EINVAL, EMFILE, ENOLCK, EOVERFLOW, ESRCH]"

lemmas openbsd_errno_defs =
  openbsd_errno_access_def openbsd_errno_chmod_def openbsd_errno_creat_def
  openbsd_errno_ftruncate_def openbsd_errno_link_def openbsd_errno_mkdir_def
  openbsd_errno_mknod_def openbsd_errno_opendir_def openbsd_errno_readdir_def
  openbsd_errno_read_def openbsd_errno_readlink_def openbsd_errno_rename_def
  openbsd_errno_rmdir_def openbsd_errno_symlink_def openbsd_errno_truncate_def
  openbsd_errno_unlink_def openbsd_errno_write_def openbsd_errno_lstat_def
  openbsd_errno_statfs_def openbsd_errno_close_def openbsd_errno_utimensat_def
  openbsd_errno_fsync_def openbsd_errno_flock_def openbsd_errno_fcntl_def

fun openbsd_errnos :: "errno_array \<Rightarrow> errno_name list option" where
  "openbsd_errnos A_access = Some openbsd_errno_access"
| "openbsd_errnos A_chmod = Some openbsd_errno_chmod"
| "openbsd_errnos A_close = Some openbsd_errno_close"
| "openbsd_errnos A_creat = Some openbsd_errno_creat"
| "openbsd_errnos A_fallocate = None"
| "openbsd_errnos A_fcntl = Some openbsd_errno_fcntl"
| "openbsd_errnos A_flock = Some openbsd_errno_flock"
| "openbsd_errnos A_fsync = Some openbsd_errno_fsync"
| "openbsd_errnos A_ftruncate = Some openbsd_errno_ftruncate"
| "openbsd_errnos A_getxattr = None"
| "openbsd_errnos A_ioctl = None"
| "openbsd_errnos A_link = Some openbsd_errno_link"
| "openbsd_errnos A_listxattr = None"
| "openbsd_errnos A_lstat = Some openbsd_errno_lstat"
| "openbsd_errnos A_mkdir = Some openbsd_errno_mkdir"
| "openbsd_errnos A_mknod = Some openbsd_errno_mknod"
| "openbsd_errnos A_opendir = Some openbsd_errno_opendir"
| "openbsd_errnos A_read = Some openbsd_errno_read"
| "openbsd_errnos A_readdir = Some openbsd_errno_readdir"
| "openbsd_errnos A_readlink = Some openbsd_errno_readlink"
| "openbsd_errnos A_removexattr = None"
| "openbsd_errnos A_rename = Some openbsd_errno_rename"
| "openbsd_errnos A_rmdir = Some openbsd_errno_rmdir"
| "openbsd_errnos A_setxattr = None"
| "openbsd_errnos A_statfs = Some openbsd_errno_statfs"
| "openbsd_errnos A_symlink = Some openbsd_errno_symlink"
| "openbsd_errnos A_truncate = Some openbsd_errno_truncate"
| "openbsd_errnos A_unlink = Some openbsd_errno_unlink"
| "openbsd_errnos A_utimensat = Some openbsd_errno_utimensat"
| "openbsd_errnos A_write = Some openbsd_errno_write"

end
