(* ===== verification/Errno_MacOSX.thy ===== *)
theory Errno_MacOSX
  imports Errno_Names
begin

text \<open>
  The errno tables for macOS (\<^verbatim>\<open>unreliablefs_errno_macosx.h\<close>), one list per array, in the
  order of the source, and the map from array names to them (\<open>None\<close>: the header declares no
  such array).  The arrays for \<open>opendir\<close> and \<open>readdir\<close> have no elements.
\<close>

definition macosx_errno_access :: "errno_name list" where
  "macosx_errno_access =
     [EACCES, EFAULT, EINVAL, EIO, ELOOP, ENAMETOOLONG, ENOENT, ENOTDIR, EROFS, ETXTBSY]"

definition macosx_errno_chmod :: "errno_name list" where
  "macosx_errno_chmod =
     [EACCES, EFAULT, EINTR, EIO, ELOOP, ENAMETOOLONG, ENOENT, ENOTDIR, EPERM, EROFS]"

definition macosx_errno_creat :: "errno_name list" where
  "macosx_errno_creat =
     [EACCES, EAGAIN, EDQUOT, EEXIST, EFAULT, EINTR, EINVAL, EIO, EISDIR, ELOOP, EMFILE,
      ENAMETOOLONG, ENFILE, ENOENT, ENOSPC, ENOTDIR, ENXIO, EOPNOTSUPP, EOVERFLOW, EROFS,
      ETXTBSY]"

definition macosx_errno_ftruncate :: "errno_name list" where
  "macosx_errno_ftruncate =
     [EBADF, EFBIG, EINTR, EINVAL, EIO, EROFS]"

definition macosx_errno_link :: "errno_name list" where
  "macosx_errno_link =
     [EACCES, EDQUOT, EEXIST, EFAULT, EIO, ELOOP, EMLINK, ENAMETOOLONG, ENOENT, ENOSPC,
      ENOTDIR, EPERM, EROFS, EXDEV]"

definition macosx_errno_mkdir :: "errno_name list" where
  "macosx_errno_mkdir =
     [EACCES, EDQUOT, EEXIST, EFAULT, EIO, ELOOP, EMLINK, ENAMETOOLONG, ENOENT, ENOSPC,
      ENOTDIR, EROFS]"

definition macosx_errno_mknod :: "errno_name list" where
  "macosx_errno_mknod =
     [EACCES, EDQUOT, EEXIST, EFAULT, EINVAL, EIO, ELOOP, ENAMETOOLONG, ENOENT, ENOSPC,
      ENOTDIR, EPERM, EROFS]"

definition macosx_errno_opendir :: "errno_name list" where
  "macosx_errno_opendir =
     []"

definition macosx_errno_readdir :: "errno_name list" where
  "macosx_errno_readdir =
     []"

definition macosx_errno_read :: "errno_name list" where
  "macosx_errno_read =
     [EAGAIN, EBADF, ECONNRESET, EFAULT, EINTR, EINVAL, EIO, EISDIR, ENOBUFS, ENOMEM,
      ENOTCONN, ENXIO, ETIMEDOUT]"

definition macosx_errno_readlink :: "errno_name list" where
  "macosx_errno_readlink =
     [EACCES, EFAULT, EINVAL, EIO, ELOOP, ENAMETOOLONG, ENOENT, ENOTDIR]"

definition macosx_errno_rename :: "errno_name list" where
  "macosx_errno_rename =
     [EACCES, EDQUOT, EFAULT, EINVAL, EIO, EISDIR, ELOOP, ENAMETOOLONG, ENOENT, ENOSPC,
      ENOTDIR, ENOTEMPTY, EPERM, EROFS, EXDEV]"

definition macosx_errno_rmdir :: "errno_name list" where
  "macosx_errno_rmdir =
     [EACCES, EBUSY, EFAULT, EIO, ELOOP, ENAMETOOLONG, ENOENT, ENOTDIR, ENOTEMPTY, EPERM,
      EROFS]"

definition macosx_errno_symlink :: "errno_name list" where
  "macosx_errno_symlink =
     [EACCES, EDQUOT, EEXIST, EFAULT, EIO, ELOOP, ENAMETOOLONG, ENOENT, ENOSPC, ENOTDIR,
      EROFS]"

definition macosx_errno_truncate :: "errno_name list" where
  "macosx_errno_truncate =
     [EACCES, EFAULT, EFBIG, EINTR, EINVAL, EIO, EISDIR, ELOOP, ENAMETOOLONG, ENOENT,
      ENOTDIR, EROFS, ETXTBSY]"

definition macosx_errno_unlink :: "errno_name list" where
  "macosx_errno_unlink =
     [EACCES, EBUSY, EFAULT, EIO, ELOOP, ENAMETOOLONG, ENOENT, ENOTDIR, EPERM, EROFS]"

definition macosx_errno_write :: "errno_name list" where
  "macosx_errno_write =
     [EAGAIN, EBADF, ECONNRESET, EDQUOT, EFAULT, EFBIG, EINTR, EINVAL, EIO, ENETDOWN,
      ENETUNREACH, ENOSPC, ENXIO, EPIPE, EWOULDBLOCK]"

definition macosx_errno_lstat :: "errno_name list" where
  "macosx_errno_lstat =
     [EACCES, EFAULT, EIO, ELOOP, ENAMETOOLONG, ENOENT, ENOTDIR, EOVERFLOW]"

definition macosx_errno_statfs :: "errno_name list" where
  "macosx_errno_statfs =
     [EACCES, EFAULT, EIO, ELOOP, ENAMETOOLONG, ENOENT, ENOTDIR]"

definition macosx_errno_close :: "errno_name list" where
  "macosx_errno_close =
     [EBADF, EINTR, EIO]"

definition macosx_errno_utimensat :: "errno_name list" where
  "macosx_errno_utimensat =
     [EACCES, EBADF, EFAULT, EINVAL, EIO, ELOOP, ENAMETOOLONG, ENOENT, ENOTDIR, EPERM,
      EROFS, ESRCH]"

definition macosx_errno_fsync :: "errno_name list" where
  "macosx_errno_fsync =
     [EBADF, EINTR, EINVAL, EIO]"

definition macosx_errno_setxattr :: "errno_name list" where
  "macosx_errno_setxattr =
     [E2BIG, EACCES, EEXIST, EFAULT, EINVAL, EIO, ELOOP, ENAMETOOLONG, ENOATTR, ENOSPC,
      ENOTDIR, ENOTSUP, EPERM, ERANGE, EROFS]"

definition macosx_errno_getxattr :: "errno_name list" where
  "macosx_errno_getxattr =
     [EACCES, EFAULT, EINVAL, EIO, EISDIR, ELOOP, ENAMETOOLONG, ENOATTR, ENOTDIR, ENOTSUP,
      EPERM, ERANGE]"

definition macosx_errno_listxattr :: "errno_name list" where
  "macosx_errno_listxattr =
     [EACCES, EFAULT, EINVAL, EIO, ELOOP, ENAMETOOLONG, ENOTDIR, ENOTSUP, EPERM, ERANGE]"

definition macosx_errno_removexattr :: "errno_name list" where
  "macosx_errno_removexattr =
     [EACCES, EFAULT, EINVAL, EIO, ELOOP, ENAMETOOLONG, ENOATTR, ENOTDIR, ENOTSUP, EPERM,
      EROFS]"

definition macosx_errno_flock :: "errno_name list" where
  "macosx_errno_flock =
     [EBADF, EINVAL, ENOTSUP, EWOULDBLOCK]"

definition macosx_errno_ioctl :: "errno_name list" where
  "macosx_errno_ioctl =
     [EBADF, EINVAL, ENOTTY]"

definition macosx_errno_fcntl :: "errno_name list" where
  "macosx_errno_fcntl =
     [EACCES, EBADF, EDEADLK, EINTR, EINVAL, EMFILE, ENOLCK, EOVERFLOW, ESRCH]"

lemmas macosx_errno_defs =
  macosx_errno_access_def macosx_errno_chmod_def macosx_errno_creat_def
  macosx_errno_ftruncate_def macosx_errno_link_def macosx_errno_mkdir_def
  macosx_errno_mknod_def macosx_errno_opendir_def macosx_errno_readdir_def
  macosx_errno_read_def macosx_errno_readlink_def macosx_errno_rename_def
  macosx_errno_rmdir_def macosx_errno_symlink_def macosx_errno_truncate_def
  macosx_errno_unlink_def macosx_errno_write_def macosx_errno_lstat_def
  macosx_errno_statfs_def macosx_errno_close_def macosx_errno_utimensat_def
  macosx_errno_fsync_def macosx_errno_setxattr_def macosx_errno_getxattr_def
  macosx_errno_listxattr_def macosx_errno_removexattr_def macosx_errno_flock_def
  macosx_errno_ioctl_def macosx_errno_fcntl_def

fun macosx_errnos :: "errno_array \<Rightarrow> errno_name list option" where
  "macosx_errnos A_access = Some macosx_errno_access"
| "macosx_errnos A_chmod = Some macosx_errno_chmod"
| "macosx_errnos A_close = Some macosx_errno_close"
| "macosx_errnos A_creat = Some macosx_errno_creat"
| "macosx_errnos A_fallocate = None"
| "macosx_errnos A_fcntl = Some macosx_errno_fcntl"
| "macosx_errnos A_flock = Some macosx_errno_flock"
| "macosx_errnos A_fsync = Some macosx_errno_fsync"
| "macosx_errnos A_ftruncate = Some macosx_errno_ftruncate"
| "macosx_errnos A_getxattr = Some macosx_errno_getxattr"
| "macosx_errnos A_ioctl = Some macosx_errno_ioctl"
| "macosx_errnos A_link = Some macosx_errno_link"
| "macosx_errnos A_listxattr = Some macosx_errno_listxattr"
| "macosx_errnos A_lstat = Some macosx_errno_lstat"
| "macosx_errnos A_mkdir = Some macosx_errno_mkdir"
| "macosx_errnos A_mknod = Some macosx_errno_mknod"
| "macosx_errnos A_opendir = Some macosx_errno_opendir"
| "macosx_errnos A_read = Some macosx_errno_read"
| "macosx_errnos A_readdir = Some macosx_errno_readdir"
| "macosx_errnos A_readlink = Some macosx_errno_readlink"
| "macosx_errnos A_removexattr = Some macosx_errno_removexattr"
| "macosx_errnos A_rename = Some macosx_errno_rename"
| "macosx_errnos A_rmdir = Some macosx_errno_rmdir"
| "macosx_errnos A_setxattr = Some macosx_errno_setxattr"
| "macosx_errnos A_statfs = Some macosx_errno_statfs"
| "macosx_errnos A_symlink = Some macosx_errno_symlink"
| "macosx_errnos A_truncate = Some macosx_errno_truncate"
| "macosx_errnos A_unlink = Some macosx_errno_unlink"
| "macosx_errnos A_utimensat = Some macosx_errno_utimensat"
| "macosx_errnos A_write = Some macosx_errno_write"

end
