(* ===== verification/Fuse_Op.thy ===== *)
theory Fuse_Op
  imports Errno_Linux Errno_FreeBSD Errno_OpenBSD Errno_MacOSX
begin

text \<open>
  The enumeration \<open>fuse_op\<close> (\<^verbatim>\<open>unreliablefs_ops.h\<close>), the table of names that is indexed with it
  (\<open>fuse_op_name\<close>, \<^verbatim>\<open>unreliablefs_ops.c\<close>) and the errno table each operation draws from (the
  switch of \<open>op_random_errno\<close>, \<^verbatim>\<open>unreliablefs_errinj.c\<close>).  All three are cut by the same
  preprocessor conditions, which a \<open>build\<close> records; the lemmas say that for every build they
  stay in step.
\<close>

section \<open>Builds\<close>

record build =
  b_platform :: platform
  HAVE_XATTR :: bool
  HAVE_FLOCK :: bool
  HAVE_FALLOCATE :: bool
  HAVE_UTIMENSAT :: bool

definition is_openbsd :: "build \<Rightarrow> bool" where
  "is_openbsd b \<longleftrightarrow> b_platform b = OpenBSD"

text \<open>Lines between \<^verbatim>\<open>#if\<close> and \<^verbatim>\<open>#endif\<close>.\<close>

definition only_if :: "bool \<Rightarrow> 'a list \<Rightarrow> 'a list" where
  "only_if c xs = (if c then xs else [])"

section \<open>The enumeration and the names\<close>

datatype fuse_op =
    OP_GETATTR | OP_READLINK | OP_MKNOD | OP_MKDIR | OP_UNLINK | OP_RMDIR | OP_SYMLINK
  | OP_RENAME | OP_LINK | OP_CHMOD | OP_CHOWN | OP_TRUNCATE | OP_OPEN | OP_READ | OP_WRITE
  | OP_STATFS | OP_FLUSH | OP_RELEASE | OP_FSYNC
  | OP_SETXATTR | OP_GETXATTR | OP_LISTXATTR | OP_REMOVEXATTR
  | OP_OPENDIR | OP_READDIR | OP_RELEASEDIR | OP_FSYNCDIR | OP_ACCESS | OP_CREAT
  | OP_FTRUNCATE | OP_FGETATTR | OP_LOCK | OP_IOCTL | OP_FLOCK | OP_FALLOCATE | OP_UTIMENS
  | OP_LSTAT

text \<open>The enumerators a build declares, in order: their positions are their values.\<close>

definition fuse_ops :: "build \<Rightarrow> fuse_op list" where
  "fuse_ops b =
     [OP_GETATTR, OP_READLINK, OP_MKNOD, OP_MKDIR, OP_UNLINK, OP_RMDIR, OP_SYMLINK, OP_RENAME,
      OP_LINK, OP_CHMOD, OP_CHOWN, OP_TRUNCATE, OP_OPEN, OP_READ, OP_WRITE, OP_STATFS, OP_FLUSH,
      OP_RELEASE, OP_FSYNC] @
     only_if (HAVE_XATTR b) [OP_SETXATTR, OP_GETXATTR, OP_LISTXATTR, OP_REMOVEXATTR] @
     [OP_OPENDIR, OP_READDIR, OP_RELEASEDIR, OP_FSYNCDIR, OP_ACCESS, OP_CREAT, OP_FTRUNCATE,
      OP_FGETATTR, OP_LOCK] @
     only_if (\<not> is_openbsd b) [OP_IOCTL] @
     only_if (HAVE_FLOCK b) [OP_FLOCK] @
     only_if (HAVE_FALLOCATE b) [OP_FALLOCATE] @
     only_if (HAVE_UTIMENSAT b) [OP_UTIMENS] @
     [OP_LSTAT]"

definition fuse_op_name :: "build \<Rightarrow> string list" where
  "fuse_op_name b =
     [''getattr'', ''readlink'', ''mknod'', ''mkdir'', ''unlink'', ''rmdir'', ''symlink'',
      ''rename'', ''link'', ''chmod'', ''chown'', ''truncate'', ''open'', ''read'', ''write'',
      ''statfs'', ''flush'', ''release'', ''fsync''] @
     only_if (HAVE_XATTR b) [''setxattr'', ''getxattr'', ''listxattr'', ''removexattr''] @
     [''opendir'', ''readdir'', ''releasedir'', ''fsyncdir'', ''access'', ''creat'',
      ''ftruncate'', ''fgetattr'', ''lock''] @
     only_if (\<not> is_openbsd b) [''ioctl''] @
     only_if (HAVE_FLOCK b) [''flock''] @
     only_if (HAVE_FALLOCATE b) [''fallocate''] @
     only_if (HAVE_UTIMENSAT b) [''utimens''] @
     [''lstat'']"

fun index_of :: "'a \<Rightarrow> 'a list \<Rightarrow> nat option" where
  "index_of x [] = None"
| "index_of x (y # ys) = (if x = y then Some 0 else map_option Suc (index_of x ys))"

lemma index_of_Some: "x \<in> set xs \<Longrightarrow> \<exists>i. index_of x xs = Some i \<and> i < length xs \<and> xs ! i = x"
  by (induction xs) auto

lemma index_of_None [simp]: "index_of x xs = None \<longleftrightarrow> x \<notin> set xs"
  by (induction xs) auto

text \<open>\<open>fuse_op_name[operation]\<close>; \<open>None\<close> when the build does not declare the enumerator.\<close>

definition op_name :: "build \<Rightarrow> fuse_op \<Rightarrow> string res option" where
  "op_name b op =
     map_option
       (\<lambda>i. if i < length (fuse_op_name b) then Inr (fuse_op_name b ! i) else Inl Read_oob)
       (index_of op (fuse_ops b))"

text \<open>The name the manual pages use for each operation.\<close>

fun op_label :: "fuse_op \<Rightarrow> string" where
  "op_label OP_GETATTR = ''getattr''"
| "op_label OP_READLINK = ''readlink''"
| "op_label OP_MKNOD = ''mknod''"
| "op_label OP_MKDIR = ''mkdir''"
| "op_label OP_UNLINK = ''unlink''"
| "op_label OP_RMDIR = ''rmdir''"
| "op_label OP_SYMLINK = ''symlink''"
| "op_label OP_RENAME = ''rename''"
| "op_label OP_LINK = ''link''"
| "op_label OP_CHMOD = ''chmod''"
| "op_label OP_CHOWN = ''chown''"
| "op_label OP_TRUNCATE = ''truncate''"
| "op_label OP_OPEN = ''open''"
| "op_label OP_READ = ''read''"
| "op_label OP_WRITE = ''write''"
| "op_label OP_STATFS = ''statfs''"
| "op_label OP_FLUSH = ''flush''"
| "op_label OP_RELEASE = ''release''"
| "op_label OP_FSYNC = ''fsync''"
| "op_label OP_SETXATTR = ''setxattr''"
| "op_label OP_GETXATTR = ''getxattr''"
| "op_label OP_LISTXATTR = ''listxattr''"
| "op_label OP_REMOVEXATTR = ''removexattr''"
| "op_label OP_OPENDIR = ''opendir''"
| "op_label OP_READDIR = ''readdir''"
| "op_label OP_RELEASEDIR = ''releasedir''"
| "op_label OP_FSYNCDIR = ''fsyncdir''"
| "op_label OP_ACCESS = ''access''"
| "op_label OP_CREAT = ''creat''"
| "op_label OP_FTRUNCATE = ''ftruncate''"
| "op_label OP_FGETATTR = ''fgetattr''"
| "op_label OP_LOCK = ''lock''"
| "op_label OP_IOCTL = ''ioctl''"
| "op_label OP_FLOCK = ''flock''"
| "op_label OP_FALLOCATE = ''fallocate''"
| "op_label OP_UTIMENS = ''utimens''"
| "op_label OP_LSTAT = ''lstat''"

lemma fuse_op_name_aligned: "fuse_op_name b = map op_label (fuse_ops b)"
  by (simp add: fuse_op_name_def fuse_ops_def only_if_def)

lemma op_name_label:
  assumes "op \<in> set (fuse_ops b)"
  shows "op_name b op = Some (Inr (op_label op))"
  using index_of_Some [OF assms] by (auto simp: op_name_def fuse_op_name_aligned)

section \<open>The errno table of an operation\<close>

text \<open>
  The switch of \<open>op_random_errno\<close>: the array each case draws from.  \<open>None\<close> is the default
  branch.
\<close>

fun op_array :: "build \<Rightarrow> fuse_op \<Rightarrow> errno_array option" where
  "op_array b OP_LSTAT = Some A_lstat"
| "op_array b OP_GETATTR = Some A_lstat"
| "op_array b OP_READLINK = Some A_readlink"
| "op_array b OP_MKNOD = Some A_mknod"
| "op_array b OP_MKDIR = Some A_mkdir"
| "op_array b OP_UNLINK = Some A_unlink"
| "op_array b OP_RMDIR = Some A_rmdir"
| "op_array b OP_SYMLINK = Some A_symlink"
| "op_array b OP_RENAME = Some A_rename"
| "op_array b OP_LINK = Some A_link"
| "op_array b OP_CHMOD = Some A_chmod"
| "op_array b OP_CHOWN = Some A_chmod"
| "op_array b OP_TRUNCATE = Some A_truncate"
| "op_array b OP_OPEN = Some A_creat"
| "op_array b OP_READ = Some A_read"
| "op_array b OP_WRITE = Some A_write"
| "op_array b OP_STATFS = Some A_statfs"
| "op_array b OP_FLUSH = Some A_close"
| "op_array b OP_RELEASE = Some A_close"
| "op_array b OP_FSYNC = Some A_fsync"
| "op_array b OP_SETXATTR = (if HAVE_XATTR b then Some A_setxattr else None)"
| "op_array b OP_GETXATTR = (if HAVE_XATTR b then Some A_getxattr else None)"
| "op_array b OP_LISTXATTR = (if HAVE_XATTR b then Some A_listxattr else None)"
| "op_array b OP_REMOVEXATTR = (if HAVE_XATTR b then Some A_removexattr else None)"
| "op_array b OP_OPENDIR = Some A_opendir"
| "op_array b OP_READDIR = Some A_readdir"
| "op_array b OP_RELEASEDIR = Some A_close"
| "op_array b OP_FSYNCDIR = Some A_fsync"
| "op_array b OP_ACCESS = Some A_access"
| "op_array b OP_CREAT = Some A_creat"
| "op_array b OP_FTRUNCATE = Some A_ftruncate"
| "op_array b OP_FGETATTR = Some A_lstat"
| "op_array b OP_LOCK = Some A_fcntl"
| "op_array b OP_IOCTL = (if \<not> is_openbsd b then Some A_ioctl else None)"
| "op_array b OP_FLOCK = (if HAVE_FLOCK b then Some A_flock else None)"
| "op_array b OP_FALLOCATE = (if HAVE_FALLOCATE b then Some A_fallocate else None)"
| "op_array b OP_UTIMENS = (if HAVE_UTIMENSAT b then Some A_utimensat else None)"

text \<open>The platform headers, chosen by the \<^verbatim>\<open>#if\<close> chain of \<^verbatim>\<open>unreliablefs_errinj.h\<close>.\<close>

fun errno_table :: "platform \<Rightarrow> errno_array \<Rightarrow> errno_name list option" where
  "errno_table Linux a = linux_errnos a"
| "errno_table (FreeBSD v) a = freebsd_errnos v a"
| "errno_table OpenBSD a = openbsd_errnos a"
| "errno_table MacOSX a = macosx_errnos a"

text \<open>A build compiles when every array its switch mentions is declared.\<close>

definition compiles :: "build \<Rightarrow> bool" where
  "compiles b \<longleftrightarrow>
     list_all (\<lambda>op. case op_array b op of
                      None \<Rightarrow> True
                    | Some a \<Rightarrow> errno_table (b_platform b) a \<noteq> None) (fuse_ops b)"

text \<open>The default branch of the switch is dead: it covers the enumeration of every build.\<close>

lemma op_array_total: "op \<in> set (fuse_ops b) \<Longrightarrow> op_array b op \<noteq> None"
  by (cases op) (auto simp: fuse_ops_def only_if_def split: if_splits)

lemma compiles_iff:
  "compiles b \<longleftrightarrow>
     (case b_platform b of
        Linux \<Rightarrow> True
      | FreeBSD v \<Rightarrow> \<not> HAVE_XATTR b \<and> \<not> HAVE_FALLOCATE b
      | OpenBSD \<Rightarrow> \<not> HAVE_XATTR b \<and> \<not> HAVE_FALLOCATE b
      | MacOSX \<Rightarrow> \<not> HAVE_FALLOCATE b)"
  by (cases "b_platform b")
    (auto simp: compiles_def fuse_ops_def only_if_def is_openbsd_def)

lemma compiles_table:
  assumes "compiles b" and "op \<in> set (fuse_ops b)"
  obtains a tbl where "op_array b op = Some a" and "errno_table (b_platform b) a = Some tbl"
  using assms op_array_total [OF assms(2)] that
  by (fastforce simp: compiles_def list_all_iff)

end
