(* ===== verification/Machine.thy ===== *)
theory Machine
  imports Ini_Parser Fuse_Op "HOL-Library.Signed_Division"
begin

text \<open>
  What surrounds the file system: the operating system it calls, the C library, the heap, and
  the process-wide state \<open>conf\<close>.

  The operating system is a parameter.  A call is a value of \<open>syscall\<close>; the record \<open>env\<close> says how
  the state \<open>'os\<close> of the system answers it, and holds the other outside functions the program
  uses: \<open>rand\<close>, the allocator's decision whether memory is left, \<open>fopen\<close> and \<open>fclose\<close>, the
  regular expression matcher, \<open>fuse_get_context\<close> and the numbers behind the errno names.
  Nothing is assumed of these functions here; where a property needs documented behaviour of one
  of them, it is a hypothesis of that property.
\<close>

section \<open>System calls\<close>

text \<open>Values the program only passes on (\<open>struct flock\<close>, \<open>struct timespec\<close>, an \<open>ioctl\<close> argument,
  \<open>struct statvfs\<close>).\<close>

type_synonym opaque = int

record stat =
  st_ino :: nat
  st_mode :: "32 word"
  st_other :: "int list"

definition zero_stat :: stat where
  "zero_stat = \<lparr>st_ino = 0, st_mode = 0, st_other = []\<rparr>"

text \<open>
  The calls with their arguments.  The optional arguments of the xattr calls are the extra ones of
  the Apple variants (position and options); \<open>Open\<close> has a mode when the three-argument form is
  called.  A directory stream is named by its pointer.
\<close>

datatype syscall =
    Lstat string
  | Readlink string nat
  | Mknod string int int
  | Mkdir string int
  | Unlink string
  | Rmdir string
  | Symlink string string
  | Rename string string
  | Link string string
  | Chmod string int
  | Chown string int int
  | Truncate string int
  | Open string int "int option"
  | Pread int nat int
  | Pwrite int string nat int
  | Statvfs string
  | Dup int
  | Close int
  | Fdatasync int
  | Fsync int
  | Setxattr string string string nat "int option" int
  | Getxattr string string nat "(int \<times> int) option"
  | Listxattr string nat "int option"
  | Removexattr string string "int option"
  | Opendir string
  | Readdir "64 word"
  | Closedir "64 word"
  | Dirfd "64 word"
  | Access string int
  | Fstat int
  | Fcntl int int opaque
  | Ioctl int int opaque
  | Flock int int
  | Fallocate int int int int
  | Utimensat int string opaque int
  | Kill int int
  | Nanosleep nat nat

text \<open>What a call hands back beside its return value.\<close>

datatype payload =
    Nothing
  | Bytes string
  | Stat_data stat
  | Opaque_data opaque
  | Dirent nat "8 word" string   \<comment> \<open>\<open>d_ino\<close>, \<open>d_type\<close>, \<open>d_name\<close>\<close>

record sysret =
  sr_ret :: int
  sr_errno :: int
  sr_data :: payload

section \<open>The environment\<close>

record 'os env =
  e_build :: build
  e_sys :: "syscall \<Rightarrow> 'os \<Rightarrow> sysret \<times> 'os"
  e_rand :: "'os \<Rightarrow> int \<times> 'os"
  e_memory :: "'os \<Rightarrow> bool \<times> 'os"
  e_fopen :: "string \<Rightarrow> 'os \<Rightarrow> c_file option \<times> 'os"
  e_fclose :: "'os \<Rightarrow> 'os"
  e_regcomp :: "string \<Rightarrow> int"
  e_regexec :: "string \<Rightarrow> string \<Rightarrow> int"
  e_context :: "'os \<Rightarrow> int option"
  e_errno :: "errno_name \<Rightarrow> int"
  e_stream :: "'os \<Rightarrow> 64 word \<Rightarrow> bool"   \<comment> \<open>the address is that of an open directory stream\<close>
  e_at_nofollow :: int   \<comment> \<open>\<open>AT_SYMLINK_NOFOLLOW\<close>\<close>

text \<open>\<open>rand()\<close> is documented to return a value between 0 and \<open>RAND_MAX\<close>.\<close>

definition rand_nonneg :: "'os env \<Rightarrow> bool" where
  "rand_nonneg env \<longleftrightarrow> (\<forall>s. 0 \<le> fst (e_rand env s))"

section \<open>Process state\<close>

text \<open>Allocated blocks by address; addresses are never reused.\<close>

record heap =
  h_next :: nat
  h_live :: "nat set"

text \<open>A string made by \<open>strdup\<close>: its block and its contents.\<close>

type_synonym heap_string = "nat \<times> string"

datatype errinj_type = ERRINJ_ERRNO | ERRINJ_KILL_CALLER | ERRINJ_NOOP | ERRINJ_SLOWDOWN

instantiation errinj_type :: enum
begin

definition enum_errinj_type :: "errinj_type list" where
  "enum_errinj_type = [ERRINJ_ERRNO, ERRINJ_KILL_CALLER, ERRINJ_NOOP, ERRINJ_SLOWDOWN]"

definition enum_all_errinj_type :: "(errinj_type \<Rightarrow> bool) \<Rightarrow> bool" where
  "enum_all_errinj_type P \<longleftrightarrow> list_all P enum_class.enum"

definition enum_ex_errinj_type :: "(errinj_type \<Rightarrow> bool) \<Rightarrow> bool" where
  "enum_ex_errinj_type P \<longleftrightarrow> list_ex P enum_class.enum"

instance
proof
  show univ: "(UNIV :: errinj_type set) = set enum_class.enum"
    using errinj_type.exhaust by (auto simp: enum_errinj_type_def)
  show "distinct (enum_class.enum :: errinj_type list)"
    by (simp add: enum_errinj_type_def)
  show "enum_class.enum_all P = Ball UNIV P" and "enum_class.enum_ex P = Bex UNIV P"
    for P :: "errinj_type \<Rightarrow> bool"
    unfolding univ enum_all_errinj_type_def enum_ex_errinj_type_def by (simp_all add: list_all_iff list_ex_iff)
qed

end

lemma card_errinj_type [simp]: "card (UNIV :: errinj_type set) = 4"
  by (simp add: card_UNIV_length_enum enum_errinj_type_def)

record errinj_conf =
  ec_addr :: nat
  err_injection_name :: "heap_string option"
  op_regexp :: "heap_string option"
  path_regexp :: "heap_string option"
  errno_regexp :: "heap_string option"
  probability :: "32 word"
  duration :: "32 word"
  ec_type :: errinj_type

text \<open>The tail queue: the block of its head and its entries in order.\<close>

record err_inj_q =
  q_addr :: nat
  q_entries :: "errinj_conf list"

record unreliablefs_config =
  errors :: "err_inj_q option"
  basedir :: string
  config_path :: string
  seed :: "32 word"
  debug :: "32 word"
  mutex :: bool   \<comment> \<open>held\<close>

record 'os world =
  w_os :: 'os
  w_errno :: int
  w_heap :: heap
  w_conf :: unreliablefs_config

section \<open>Calls\<close>

text \<open>A system call sets \<open>errno\<close> when it fails, and only then.\<close>

definition sys_fails :: "syscall \<Rightarrow> int \<Rightarrow> bool" where
  "sys_fails c ret \<longleftrightarrow> (case c of Opendir _ \<Rightarrow> ret = 0 | Readdir _ \<Rightarrow> False | _ \<Rightarrow> ret = -1)"

definition do_sys :: "'os env \<Rightarrow> syscall \<Rightarrow> 'os world \<Rightarrow> int \<times> payload \<times> 'os world" where
  "do_sys env c w =
     (case e_sys env c (w_os w) of (r, os) \<Rightarrow>
        (sr_ret r, sr_data r,
         w\<lparr>w_os := os, w_errno := (if sys_fails c (sr_ret r) then sr_errno r else w_errno w)\<rparr>))"

definition c_rand :: "'os env \<Rightarrow> 'os world \<Rightarrow> int \<times> 'os world" where
  "c_rand env w = (case e_rand env (w_os w) of (r, os) \<Rightarrow> (r, w\<lparr>w_os := os\<rparr>))"

definition c_malloc :: "'os env \<Rightarrow> 'os world \<Rightarrow> nat option \<times> 'os world" where
  "c_malloc env w =
     (case e_memory env (w_os w) of (ok, os) \<Rightarrow>
        if ok
        then (Some (h_next (w_heap w)),
              w\<lparr>w_os := os,
                w_heap := \<lparr>h_next = Suc (h_next (w_heap w)),
                           h_live = insert (h_next (w_heap w)) (h_live (w_heap w))\<rparr>\<rparr>)
        else (None, w\<lparr>w_os := os, w_errno := e_errno env ENOMEM\<rparr>))"

definition c_strdup :: "'os env \<Rightarrow> string \<Rightarrow> 'os world \<Rightarrow> heap_string option \<times> 'os world" where
  "c_strdup env s w = (case c_malloc env w of (p, w') \<Rightarrow> (map_option (\<lambda>a. (a, s)) p, w'))"

definition c_free :: "nat \<Rightarrow> 'os world \<Rightarrow> 'os world res" where
  "c_free a w =
     (if a \<in> h_live (w_heap w)
      then Inr (w\<lparr>w_heap := (w_heap w)\<lparr>h_live := h_live (w_heap w) - {a}\<rparr>\<rparr>)
      else Inl Bad_free)"

text \<open>\<open>if (p) free(p)\<close>\<close>

definition free_str :: "heap_string option \<Rightarrow> 'os world \<Rightarrow> 'os world res" where
  "free_str p w = (case p of None \<Rightarrow> Inr w | Some (a, s) \<Rightarrow> c_free a w)"

text \<open>
  \<open>atoi\<close> as the GNU library has it, \<open>(int) strtol(s, NULL, 10)\<close>: leading white space, a sign,
  digits; the value saturates at the limits of \<open>long\<close> and is then cut to 32 bits.
\<close>

definition isdigit :: "char \<Rightarrow> bool" where
  "isdigit c \<longleftrightarrow> 48 \<le> (of_char c :: nat) \<and> (of_char c :: nat) \<le> 57"

fun digits_value :: "int \<Rightarrow> string \<Rightarrow> int" where
  "digits_value n [] = n"
| "digits_value n (c # s) = (if isdigit c then digits_value (10 * n + (of_char c - 48)) s else n)"

definition strtol10 :: "string \<Rightarrow> int" where
  "strtol10 s =
     (let t = dropWhile isspace s
      in max (- (2 ^ 63)) (min (2 ^ 63 - 1)
           (case t of
              [] \<Rightarrow> 0
            | c # u \<Rightarrow>
                if c = CHR ''-'' then - digits_value 0 u
                else if c = CHR ''+'' then digits_value 0 u
                else digits_value 0 t)))"

definition atoi :: "string \<Rightarrow> 32 word" where
  "atoi s = word_of_int (strtol10 s)"

section \<open>Facts about the calls\<close>

lemma c_rand_world [simp]:
  "w_conf (snd (c_rand env w)) = w_conf w" "w_heap (snd (c_rand env w)) = w_heap w"
  "w_errno (snd (c_rand env w)) = w_errno w" "w_os (snd (c_rand env w)) = snd (e_rand env (w_os w))"
  by (simp_all add: c_rand_def split: prod.splits)

lemma fst_c_rand [simp]: "fst (c_rand env w) = fst (e_rand env (w_os w))"
  by (simp add: c_rand_def split: prod.splits)

lemma do_sys_frame:
  "do_sys env c w = (r, d, w') \<Longrightarrow> w_conf w' = w_conf w \<and> w_heap w' = w_heap w"
  by (auto simp: do_sys_def split: prod.splits)

lemma c_malloc_frame: "c_malloc env w = (p, w') \<Longrightarrow> w_conf w' = w_conf w"
  by (auto simp: c_malloc_def split: prod.splits if_splits)

lemma atoi_unsigned:
  assumes "s = [] \<or> (hd s \<noteq> CHR ''-'' \<and> hd s \<noteq> CHR ''+'' \<and> \<not> isspace (hd s))"
    and "0 \<le> digits_value 0 s" and "digits_value 0 s < 2 ^ 32"
  shows "uint (atoi s) = digits_value 0 s"
proof -
  have "strtol10 s = digits_value 0 s"
    using assms by (cases s) (auto simp: strtol10_def)
  then show ?thesis
    using assms by (simp add: atoi_def uint_word_of_int)
qed

end
