(* ===== verification/Errinj.thy ===== *)
theory Errinj
  imports Machine
begin

text \<open>
  Fault injection (\<^verbatim>\<open>unreliablefs_errinj.c\<close>): the queue of configured injections, how it is read
  from the configuration file and freed, and \<open>error_inject\<close>, which every file operation calls
  first.
\<close>

section \<open>Constants\<close>

definition MIN_PROBABLITY :: int where "MIN_PROBABLITY = 0"
definition MAX_PROBABLITY :: int where "MAX_PROBABLITY = 100"
definition ERRNO_NOOP :: int where "ERRNO_NOOP = -999"
definition SIGKILL :: int where "SIGKILL = 9"
definition DEFAULT_SIGNAL_NAME :: int where "DEFAULT_SIGNAL_NAME = SIGKILL"
definition F_OK :: int where "F_OK = 0"

definition errinj_name :: "string list" where
  "errinj_name = [''errinj_errno'', ''errinj_kill_caller'', ''errinj_noop'', ''errinj_slowdown'']"

text \<open>The enumeration \<open>errinj_type\<close>: the value of an enumerator is its position.\<close>

definition errinj_types :: "errinj_type list" where
  "errinj_types = [ERRINJ_ERRNO, ERRINJ_KILL_CALLER, ERRINJ_NOOP, ERRINJ_SLOWDOWN]"

lemmas errinj_consts = MIN_PROBABLITY_def MAX_PROBABLITY_def ERRNO_NOOP_def

section \<open>Random choices\<close>

definition rand_range :: "'os env \<Rightarrow> int \<Rightarrow> int \<Rightarrow> 'os world \<Rightarrow> int \<times> 'os world" where
  "rand_range env min_n max_n w =
     (case c_rand env w of (r, w') \<Rightarrow> (r smod (max_n - min_n + 1) + min_n, w'))"

text \<open>The macro \<open>RANDOM_ELEMENT\<close>: an index between 0 and the number of elements.\<close>

definition RANDOM_ELEMENT :: "'os env \<Rightarrow> 'a list \<Rightarrow> 'os world \<Rightarrow> ('a \<times> 'os world) res" where
  "RANDOM_ELEMENT env arr w =
     (case rand_range env 0 (int (length arr)) w of (i, w') \<Rightarrow>
        if 0 \<le> i \<and> i < int (length arr) then Inr (arr ! nat i, w') else Inl Read_oob)"

text \<open>
  An array the platform header does not declare would stop the compiler; the model then treats
  the access like one outside an array.
\<close>

definition op_random_errno :: "'os env \<Rightarrow> fuse_op \<Rightarrow> 'os world \<Rightarrow> (int \<times> 'os world) res" where
  "op_random_errno env op w =
     (case op_array (e_build env) op of
        None \<Rightarrow> Inr (-1, w)
      | Some a \<Rightarrow>
          (case errno_table (b_platform (e_build env)) a of
             None \<Rightarrow> Inl Read_oob
           | Some arr \<Rightarrow>
               and_then (RANDOM_ELEMENT env arr w) (\<lambda>(e, w'). Inr (e_errno env e, w'))))"

section \<open>Regular expressions\<close>

text \<open>
  \<open>regcomp\<close> and \<open>regexec\<close> give their return codes.  \<open>regfree\<close> has no effect here; the code also calls it
  after a \<open>regcomp\<close> that failed, which POSIX leaves undefined and common libraries accept.
\<close>

definition is_regex_matched :: "'os env \<Rightarrow> string option \<Rightarrow> string \<Rightarrow> int" where
  "is_regex_matched env regex str =
     (case regex of
        None \<Rightarrow> 0
      | Some re \<Rightarrow>
          let rc = e_regcomp env re in if rc \<noteq> 0 then rc else e_regexec env re str)"

section \<open>The queue of injections\<close>

text \<open>\<open>for (i ...) if (strcmp(errinj_name[i], name) == 0) idx = i\<close>\<close>

fun type_loop :: "string list \<Rightarrow> string \<Rightarrow> int \<Rightarrow> int \<Rightarrow> int" where
  "type_loop [] name i idx = idx"
| "type_loop (n # ns) name i idx = type_loop ns name (i + 1) (if n = name then i else idx)"

definition errinj_type_by_name :: "string \<Rightarrow> int" where
  "errinj_type_by_name name = type_loop errinj_name name 0 (-1)"

text \<open>The first entry of a type (\<open>TAILQ_FOREACH ... break\<close>).\<close>

fun find_entry :: "errinj_type \<Rightarrow> errinj_conf list \<Rightarrow> nat option" where
  "find_entry t [] = None"
| "find_entry t (e # es) = (if ec_type e = t then Some 0 else map_option Suc (find_entry t es))"

definition new_entry :: "nat \<Rightarrow> errinj_type \<Rightarrow> errinj_conf" where
  "new_entry a t =
     \<lparr>ec_addr = a, err_injection_name = None, op_regexp = None, path_regexp = None,
      errno_regexp = None, probability = 0, duration = 0, ec_type = t\<rparr>"

text \<open>
  \<open>conf_option_handler\<close>.  Its first argument is the queue; the entry it works on is named by its
  position.  Allocation comes first, then the assignment the key asks for.
\<close>

definition conf_entry ::
    "'os env \<Rightarrow> errinj_type \<Rightarrow> err_inj_q \<times> 'os world \<Rightarrow> nat option \<times> err_inj_q \<times> 'os world" where
  "conf_entry env t qw =
     (case qw of (q, w) \<Rightarrow>
        (case find_entry t (q_entries q) of
           Some i \<Rightarrow> (Some i, q, w)
         | None \<Rightarrow>
             (case c_malloc env w of
                (None, w') \<Rightarrow> (None, q, w')
              | (Some a, w') \<Rightarrow>
                  (Some (length (q_entries q)),
                   q\<lparr>q_entries := q_entries q @ [new_entry a t]\<rparr>, w'))))"

definition conf_set_option ::
    "'os env \<Rightarrow> string \<Rightarrow> string \<Rightarrow> errinj_conf \<Rightarrow> 'os world \<Rightarrow> (int \<times> errinj_conf \<times> 'os world) res"
where
  "conf_set_option env key val err w =
     (if key = ''path_regexp''
      then and_then (free_str (path_regexp err) w) (\<lambda>w.
             case c_strdup env val w of (p, w) \<Rightarrow> Inr (1, err\<lparr>path_regexp := p\<rparr>, w))
      else if key = ''op_regexp''
      then and_then (free_str (op_regexp err) w) (\<lambda>w.
             case c_strdup env val w of (p, w) \<Rightarrow> Inr (1, err\<lparr>op_regexp := p\<rparr>, w))
      else if key = ''probability'' then Inr (1, err\<lparr>probability := atoi val\<rparr>, w)
      else if key = ''duration'' then Inr (1, err\<lparr>duration := atoi val\<rparr>, w)
      else Inr (0, err, w))"

definition conf_option_handler :: "'os env \<Rightarrow> (err_inj_q \<times> 'os world) ini_handler" where
  "conf_option_handler env qw section key val =
     (let cur_type = errinj_type_by_name section in
      if cur_type = -1 then Inr (-1, qw)
      else (case conf_entry env (errinj_types ! nat cur_type) qw of
              (None, q, w) \<Rightarrow> Inr (-1, q, w)
            | (Some i, q, w) \<Rightarrow>
                and_then (conf_set_option env key val (q_entries q ! i) w) (\<lambda>(rc, err, w').
                  Inr (rc, q\<lparr>q_entries := (q_entries q)[i := err]\<rparr>, w'))))"

definition q_fopen :: "'os env \<Rightarrow> string \<Rightarrow> err_inj_q \<times> 'os world \<Rightarrow> c_file option \<times> err_inj_q \<times> 'os world"
where
  "q_fopen env path qw =
     (case qw of (q, w) \<Rightarrow>
        case e_fopen env path (w_os w) of (f, os) \<Rightarrow> (f, q, w\<lparr>w_os := os\<rparr>))"

definition q_fclose :: "'os env \<Rightarrow> err_inj_q \<times> 'os world \<Rightarrow> err_inj_q \<times> 'os world" where
  "q_fclose env qw = (case qw of (q, w) \<Rightarrow> (q, w\<lparr>w_os := e_fclose env (w_os w)\<rparr>))"

definition config_init :: "'os env \<Rightarrow> string \<Rightarrow> 'os world \<Rightarrow> (err_inj_q option \<times> 'os world) res" where
  "config_init env conf_path w =
     (case c_malloc env w of
        (None, w) \<Rightarrow> Inr (None, w)
      | (Some a, w) \<Rightarrow>
          let q = \<lparr>q_addr = a, q_entries = []\<rparr> in
          (case do_sys env (Access conf_path F_OK) w of (r, d, w) \<Rightarrow>
             if r = 0
             then and_then
                    (ini_parse (q_fopen env) (q_fclose env) conf_path (conf_option_handler env) (q, w))
                    (\<lambda>(rc, q, w). Inr (if rc < 0 then None else Some q, w))
             else Inr (Some q, w)))"

text \<open>The loop of \<open>config_delete\<close>: the first entry is freed and removed until none is left.\<close>

fun delete_entries :: "errinj_conf list \<Rightarrow> 'os world \<Rightarrow> 'os world res" where
  "delete_entries [] w = Inr w"
| "delete_entries (err # es) w =
     and_then (free_str (path_regexp err) w) (\<lambda>w.
     and_then (free_str (op_regexp err) w) (\<lambda>w.
     and_then (c_free (ec_addr err) w) (\<lambda>w. delete_entries es w)))"

definition config_delete :: "err_inj_q option \<Rightarrow> 'os world \<Rightarrow> 'os world res" where
  "config_delete q w =
     (case q of
        None \<Rightarrow> Inr w
      | Some q \<Rightarrow> and_then (delete_entries (q_entries q) w) (\<lambda>w. c_free (q_addr q) w))"

section \<open>error\_inject\<close>

text \<open>The switch over the type of a triggered injection: the new \<open>rc\<close> and the world.\<close>

definition trigger :: "'os env \<Rightarrow> fuse_op \<Rightarrow> errinj_conf \<Rightarrow> int \<Rightarrow> 'os world \<Rightarrow> (int \<times> 'os world) res"
where
  "trigger env op err rc w =
     (case ec_type err of
        ERRINJ_NOOP \<Rightarrow> Inr (- ERRNO_NOOP, w)
      | ERRINJ_KILL_CALLER \<Rightarrow>
          (case e_context env (w_os w) of
             None \<Rightarrow> Inr (rc, w)
           | Some pid \<Rightarrow>
               (case do_sys env (Kill pid DEFAULT_SIGNAL_NAME) w of (r, d, w') \<Rightarrow> Inr (rc, w')))
      | ERRINJ_ERRNO \<Rightarrow> and_then (op_random_errno env op w) (\<lambda>(rc', w'). Inr (- rc', w'))
      | ERRINJ_SLOWDOWN \<Rightarrow>
          (case do_sys env (Nanosleep 0 (unat (duration err))) w of (r, d, w') \<Rightarrow> Inr (rc, w')))"

text \<open>Whether an entry applies to the path and the operation.\<close>

definition applies :: "'os env \<Rightarrow> errinj_conf \<Rightarrow> string \<Rightarrow> string \<Rightarrow> bool" where
  "applies env err path opn \<longleftrightarrow>
     is_regex_matched env (map_option snd (path_regexp err)) path = 0 \<and>
     is_regex_matched env (map_option snd (op_regexp err)) opn = 0"

fun inject_loop ::
    "'os env \<Rightarrow> string \<Rightarrow> fuse_op \<Rightarrow> string \<Rightarrow> errinj_conf list \<Rightarrow> int \<Rightarrow> 'os world \<Rightarrow> (int \<times> 'os world) res"
where
  "inject_loop env path op opn [] rc w = Inr (rc, w)"
| "inject_loop env path op opn (err # es) rc w =
     (case rand_range env MIN_PROBABLITY MAX_PROBABLITY w of (p, w) \<Rightarrow>
        if \<not> (word_of_int p \<le> probability err) then inject_loop env path op opn es rc w
        else if \<not> applies env err path opn then inject_loop env path op opn es rc w
        else and_then (trigger env op err rc w) (\<lambda>(rc, w). inject_loop env path op opn es rc w))"

definition set_mutex :: "bool \<Rightarrow> 'os world \<Rightarrow> 'os world" where
  "set_mutex m w = w\<lparr>w_conf := (w_conf w)\<lparr>mutex := m\<rparr>\<rparr>"

definition set_errors :: "err_inj_q option \<Rightarrow> 'os world \<Rightarrow> 'os world" where
  "set_errors q w = w\<lparr>w_conf := (w_conf w)\<lparr>errors := q\<rparr>\<rparr>"

text \<open>
  The operation's name is looked up for every entry; it is the same one each time.  An operation
  the build does not declare cannot be passed.
\<close>

definition error_inject :: "'os env \<Rightarrow> string \<Rightarrow> fuse_op \<Rightarrow> 'os world \<Rightarrow> (int \<times> 'os world) res" where
  "error_inject env path op w =
     (if mutex (w_conf w) then Inl Deadlock
      else let w = set_mutex True w in
        if path = config_path (w_conf w)
        then and_then (config_delete (errors (w_conf w)) w) (\<lambda>w.
             and_then (config_init env path w) (\<lambda>(q, w).
               Inr (0, set_mutex False (set_errors q w))))
        else (case errors (w_conf w) of
                None \<Rightarrow> Inr (0, set_mutex False w)
              | Some q \<Rightarrow>
                  (case op_name (e_build env) op of
                     None \<Rightarrow> Inl Read_oob
                   | Some opn \<Rightarrow>
                       and_then opn (\<lambda>opn.
                       and_then (inject_loop env path op opn (q_entries q) 0 w) (\<lambda>(rc, w).
                         Inr (rc, set_mutex False w))))))"

end
