(* ===== verification/Ops.thy ===== *)
theory Ops
  imports Errinj
begin

text \<open>
  The file operations (\<^verbatim>\<open>unreliablefs_ops.c\<close>).  Each one first asks \<open>error_inject\<close>; only when that
  returns 0 it calls the operating system.  An operation returns its value, its output argument
  (unchanged when the operation did not get that far) and the world.  A pointer to
  \<open>struct fuse_file_info\<close> may be null.  Where an operation does more than forward one call, the
  lines after the injector's answer are a definition of their own, \<open><operation>_body\<close>.
\<close>

section \<open>Shared pieces\<close>

record fuse_file_info =
  fi_flags :: int
  fi_fh :: "64 word"

text \<open>\<open>fi->fh = ret\<close> for an \<open>int\<close>, and the conversion of \<open>fi->fh\<close> to \<open>int\<close>.\<close>

definition fh_of_fd :: "int \<Rightarrow> 64 word" where
  "fh_of_fd fd = word_of_int fd"

definition fd_of_fh :: "64 word \<Rightarrow> int" where
  "fd_of_fh fh = sint (ucast fh :: 32 word)"

definition with_fi :: "fuse_file_info option \<Rightarrow> (fuse_file_info \<Rightarrow> 'a res) \<Rightarrow> 'a res" where
  "with_fi fi f = (case fi of None \<Rightarrow> Inl Null_deref | Some i \<Rightarrow> f i)"

text \<open>The lines every operation starts with.\<close>

definition with_injection ::
    "'os env \<Rightarrow> string \<Rightarrow> fuse_op \<Rightarrow> 'o \<Rightarrow> ('os world \<Rightarrow> (int \<times> 'o \<times> 'os world) res) \<Rightarrow>
     'os world \<Rightarrow> (int \<times> 'o \<times> 'os world) res" where
  "with_injection env path op out body w =
     and_then (error_inject env path op w) (\<lambda>(ret, w).
       if ret = - ERRNO_NOOP then Inr (0, out, w)
       else if ret \<noteq> 0 then Inr (ret, out, w)
       else body w)"

text \<open>\<open>ret = call(...); if (ret == -1) return -errno; return 0;\<close>\<close>

definition call0 :: "'os env \<Rightarrow> syscall \<Rightarrow> 'o \<Rightarrow> 'os world \<Rightarrow> (int \<times> 'o \<times> 'os world) res" where
  "call0 env c out w =
     (case do_sys env c w of (ret, d, w) \<Rightarrow>
        if ret = -1 then Inr (- w_errno w, out, w) else Inr (0, out, w))"

text \<open>The same with the test \<open>ret < 0\<close>.\<close>

definition call0_neg :: "'os env \<Rightarrow> syscall \<Rightarrow> 'o \<Rightarrow> 'os world \<Rightarrow> (int \<times> 'o \<times> 'os world) res" where
  "call0_neg env c out w =
     (case do_sys env c w of (ret, d, w) \<Rightarrow>
        if ret < 0 then Inr (- w_errno w, out, w) else Inr (0, out, w))"

text \<open>Bytes the system stores into a caller's buffer.\<close>

definition fill :: "buf \<Rightarrow> payload \<Rightarrow> buf res" where
  "fill b d =
     (case d of
        Bytes s \<Rightarrow> if length s \<le> length b then Inr (s @ drop (length s) b) else Inl Write_oob
      | _ \<Rightarrow> Inr b)"

definition stat_of :: "payload \<Rightarrow> stat \<Rightarrow> stat" where
  "stat_of d st = (case d of Stat_data s \<Rightarrow> s | _ \<Rightarrow> st)"

definition opaque_of :: "payload \<Rightarrow> opaque \<Rightarrow> opaque" where
  "opaque_of d x = (case d of Opaque_data y \<Rightarrow> y | _ \<Rightarrow> x)"

definition is_apple :: "'os env \<Rightarrow> bool" where
  "is_apple env \<longleftrightarrow> b_platform (e_build env) = MacOSX"

definition O_RDONLY :: int where "O_RDONLY = 0"
definition O_WRONLY :: int where "O_WRONLY = 1"
definition XATTR_NOFOLLOW :: int where "XATTR_NOFOLLOW = 1"

section \<open>Operations on paths\<close>

text \<open>\<open>memset\<close>, then \<open>lstat\<close>: the body of both \<open>lstat\<close> and \<open>getattr\<close>.\<close>

definition lstat_body :: "'os env \<Rightarrow> string \<Rightarrow> 'os world \<Rightarrow> (int \<times> stat \<times> 'os world) res" where
  "lstat_body env path w =
     (let buf = zero_stat in
      case do_sys env (Lstat path) w of (ret, d, w) \<Rightarrow>
        if ret = -1 then Inr (- w_errno w, buf, w) else Inr (0, stat_of d buf, w))"

definition unreliable_lstat :: "'os env \<Rightarrow> string \<Rightarrow> stat \<Rightarrow> 'os world \<Rightarrow> (int \<times> stat \<times> 'os world) res"
where
  "unreliable_lstat env path buf = with_injection env path OP_LSTAT buf (lstat_body env path)"

definition unreliable_getattr :: "'os env \<Rightarrow> string \<Rightarrow> stat \<Rightarrow> 'os world \<Rightarrow> (int \<times> stat \<times> 'os world) res"
where
  "unreliable_getattr env path buf = with_injection env path OP_GETATTR buf (lstat_body env path)"

definition readlink_body ::
    "'os env \<Rightarrow> string \<Rightarrow> buf \<Rightarrow> nat \<Rightarrow> 'os world \<Rightarrow>
     (int \<times> buf \<times> 'os world) res" where
  "readlink_body env path buf bufsiz w =
     (case do_sys env (Readlink path bufsiz) w of (ret, d, w) \<Rightarrow>
        let ret = c_int ret in
        if ret = -1 then Inr (- w_errno w, buf, w)
        else and_then (fill buf d) (\<lambda>buf.
             and_then (if ret < 0 then Inl Write_oob else wr buf (nat ret) NUL) (\<lambda>buf. Inr (0, buf, w))))"

definition unreliable_readlink ::
    "'os env \<Rightarrow> string \<Rightarrow> buf \<Rightarrow> nat \<Rightarrow> 'os world \<Rightarrow>
     (int \<times> buf \<times> 'os world) res" where
  "unreliable_readlink env path buf bufsiz =
     with_injection env path OP_READLINK buf (readlink_body env path buf bufsiz)"

definition unreliable_mknod :: "'os env \<Rightarrow> string \<Rightarrow> int \<Rightarrow> int \<Rightarrow> 'os world \<Rightarrow> (int \<times> unit \<times> 'os world) res"
where
  "unreliable_mknod env path mode dev =
     with_injection env path OP_MKNOD () (call0 env (Mknod path mode dev) ())"

definition unreliable_mkdir :: "'os env \<Rightarrow> string \<Rightarrow> int \<Rightarrow> 'os world \<Rightarrow> (int \<times> unit \<times> 'os world) res" where
  "unreliable_mkdir env path mode =
     with_injection env path OP_MKDIR () (call0 env (Mkdir path mode) ())"

definition unreliable_unlink :: "'os env \<Rightarrow> string \<Rightarrow> 'os world \<Rightarrow> (int \<times> unit \<times> 'os world) res" where
  "unreliable_unlink env path = with_injection env path OP_UNLINK () (call0 env (Unlink path) ())"

definition unreliable_rmdir :: "'os env \<Rightarrow> string \<Rightarrow> 'os world \<Rightarrow> (int \<times> unit \<times> 'os world) res" where
  "unreliable_rmdir env path = with_injection env path OP_RMDIR () (call0 env (Rmdir path) ())"

definition unreliable_symlink :: "'os env \<Rightarrow> string \<Rightarrow> string \<Rightarrow> 'os world \<Rightarrow> (int \<times> unit \<times> 'os world) res"
where
  "unreliable_symlink env target linkpath =
     with_injection env target OP_SYMLINK () (call0 env (Symlink target linkpath) ())"

definition unreliable_rename :: "'os env \<Rightarrow> string \<Rightarrow> string \<Rightarrow> 'os world \<Rightarrow> (int \<times> unit \<times> 'os world) res"
where
  "unreliable_rename env oldpath newpath =
     with_injection env oldpath OP_RENAME () (call0 env (Rename oldpath newpath) ())"

definition unreliable_link :: "'os env \<Rightarrow> string \<Rightarrow> string \<Rightarrow> 'os world \<Rightarrow> (int \<times> unit \<times> 'os world) res"
where
  "unreliable_link env oldpath newpath =
     with_injection env oldpath OP_LINK () (call0_neg env (Link oldpath newpath) ())"

definition unreliable_chmod :: "'os env \<Rightarrow> string \<Rightarrow> int \<Rightarrow> 'os world \<Rightarrow> (int \<times> unit \<times> 'os world) res" where
  "unreliable_chmod env path mode =
     with_injection env path OP_CHMOD () (call0_neg env (Chmod path mode) ())"

definition unreliable_chown :: "'os env \<Rightarrow> string \<Rightarrow> int \<Rightarrow> int \<Rightarrow> 'os world \<Rightarrow> (int \<times> unit \<times> 'os world) res"
where
  "unreliable_chown env path owner grp =
     with_injection env path OP_CHOWN () (call0 env (Chown path owner grp) ())"

definition unreliable_truncate :: "'os env \<Rightarrow> string \<Rightarrow> int \<Rightarrow> 'os world \<Rightarrow> (int \<times> unit \<times> 'os world) res"
where
  "unreliable_truncate env path len =
     with_injection env path OP_TRUNCATE () (call0 env (Truncate path len) ())"

definition statfs_body ::
    "'os env \<Rightarrow> string \<Rightarrow> opaque \<Rightarrow> 'os world \<Rightarrow>
     (int \<times> opaque \<times> 'os world) res" where
  "statfs_body env path buf w =
     (case do_sys env (Statvfs path) w of (ret, d, w) \<Rightarrow>
        if ret = -1 then Inr (- w_errno w, buf, w) else Inr (0, opaque_of d buf, w))"

definition unreliable_statfs ::
    "'os env \<Rightarrow> string \<Rightarrow> opaque \<Rightarrow> 'os world \<Rightarrow>
     (int \<times> opaque \<times> 'os world) res" where
  "unreliable_statfs env path buf =
     with_injection env path OP_STATFS buf (statfs_body env path buf)"

definition unreliable_access :: "'os env \<Rightarrow> string \<Rightarrow> int \<Rightarrow> 'os world \<Rightarrow> (int \<times> unit \<times> 'os world) res" where
  "unreliable_access env path mode =
     with_injection env path OP_ACCESS () (call0 env (Access path mode) ())"

definition unreliable_utimens :: "'os env \<Rightarrow> string \<Rightarrow> opaque \<Rightarrow> 'os world \<Rightarrow> (int \<times> unit \<times> 'os world) res"
where
  "unreliable_utimens env path ts =
     with_injection env path OP_UTIMENS () (call0 env (Utimensat 0 path ts (e_at_nofollow env)) ())"

section \<open>Operations on open files\<close>

definition open_body ::
    "'os env \<Rightarrow> string \<Rightarrow> fuse_file_info option \<Rightarrow> 'os world \<Rightarrow>
     (int \<times> fuse_file_info option \<times> 'os world) res" where
  "open_body env path fi w =
       with_fi fi (\<lambda>i.
         case do_sys env (Open path (fi_flags i) None) w of (ret, d, w) \<Rightarrow>
           if ret = -1 then Inr (- w_errno w, fi, w)
           else Inr (0, Some (i\<lparr>fi_fh := fh_of_fd ret\<rparr>), w))"

definition unreliable_open ::
    "'os env \<Rightarrow> string \<Rightarrow> fuse_file_info option \<Rightarrow> 'os world \<Rightarrow>
     (int \<times> fuse_file_info option \<times> 'os world) res" where
  "unreliable_open env path fi =
     with_injection env path OP_OPEN fi (open_body env path fi)"

definition create_body ::
    "'os env \<Rightarrow> string \<Rightarrow> int \<Rightarrow> fuse_file_info option \<Rightarrow> 'os world \<Rightarrow>
     (int \<times> fuse_file_info option \<times> 'os world) res" where
  "create_body env path mode fi w =
       with_fi fi (\<lambda>i.
         case do_sys env (Open path (fi_flags i) (Some mode)) w of (ret, d, w) \<Rightarrow>
           if ret = -1 then Inr (- w_errno w, fi, w)
           else Inr (0, Some (i\<lparr>fi_fh := fh_of_fd ret\<rparr>), w))"

definition unreliable_create ::
    "'os env \<Rightarrow> string \<Rightarrow> int \<Rightarrow> fuse_file_info option \<Rightarrow> 'os world \<Rightarrow>
     (int \<times> fuse_file_info option \<times> 'os world) res" where
  "unreliable_create env path mode fi =
     with_injection env path OP_CREAT fi (create_body env path mode fi)"

text \<open>\<open>if (fi == NULL) fd = open(path, flags); else fd = fi->fh;\<close>\<close>

definition fd_for :: "'os env \<Rightarrow> string \<Rightarrow> int \<Rightarrow> fuse_file_info option \<Rightarrow> 'os world \<Rightarrow> int \<times> 'os world"
where
  "fd_for env path flags fi w =
     (case fi of
        None \<Rightarrow> (case do_sys env (Open path flags None) w of (fd, d, w) \<Rightarrow> (fd, w))
      | Some i \<Rightarrow> (fd_of_fh (fi_fh i), w))"

text \<open>\<open>if (fi == NULL) close(fd);\<close>\<close>

definition close_if_null :: "'os env \<Rightarrow> int \<Rightarrow> fuse_file_info option \<Rightarrow> 'os world \<Rightarrow> 'os world" where
  "close_if_null env fd fi w =
     (case fi of None \<Rightarrow> snd (snd (do_sys env (Close fd) w)) | Some i \<Rightarrow> w)"

definition read_body ::
    "'os env \<Rightarrow> string \<Rightarrow> buf \<Rightarrow> nat \<Rightarrow> int \<Rightarrow> fuse_file_info option \<Rightarrow> 'os world \<Rightarrow>
     (int \<times> buf \<times> 'os world) res" where
  "read_body env path buf sz offset fi w =
     (case fd_for env path O_RDONLY fi w of (fd, w) \<Rightarrow>
        if fd = -1 then Inr (- w_errno w, buf, w)
        else (case do_sys env (Pread fd sz offset) w of (ret, d, w) \<Rightarrow>
                let ret = c_int ret in
                if ret = -1 then Inr (- w_errno w, buf, close_if_null env fd fi w)
                else and_then (fill buf d) (\<lambda>buf. Inr (ret, buf, close_if_null env fd fi w))))"

definition unreliable_read ::
    "'os env \<Rightarrow> string \<Rightarrow> buf \<Rightarrow> nat \<Rightarrow> int \<Rightarrow> fuse_file_info option \<Rightarrow> 'os world \<Rightarrow>
     (int \<times> buf \<times> 'os world) res" where
  "unreliable_read env path buf sz offset fi =
     with_injection env path OP_READ buf (read_body env path buf sz offset fi)"

definition write_body ::
    "'os env \<Rightarrow> string \<Rightarrow> string \<Rightarrow> nat \<Rightarrow> int \<Rightarrow> fuse_file_info option \<Rightarrow> 'os world \<Rightarrow>
     (int \<times> unit \<times> 'os world) res" where
  "write_body env path buf sz offset fi w =
     (case fd_for env path O_WRONLY fi w of (fd, w) \<Rightarrow>
        if fd = -1 then Inr (- w_errno w, (), w)
        else if length buf < sz then Inl Read_oob
        else (case do_sys env (Pwrite fd buf sz offset) w of (ret, d, w) \<Rightarrow>
                let ret = (if c_int ret = -1 then - w_errno w else c_int ret)
                in Inr (ret, (), close_if_null env fd fi w)))"

definition unreliable_write ::
    "'os env \<Rightarrow> string \<Rightarrow> string \<Rightarrow> nat \<Rightarrow> int \<Rightarrow> fuse_file_info option \<Rightarrow> 'os world \<Rightarrow>
     (int \<times> unit \<times> 'os world) res" where
  "unreliable_write env path buf sz offset fi =
     with_injection env path OP_WRITE () (write_body env path buf sz offset fi)"

definition flush_body ::
    "'os env \<Rightarrow> string \<Rightarrow> fuse_file_info option \<Rightarrow> 'os world \<Rightarrow>
     (int \<times> unit \<times> 'os world) res" where
  "flush_body env path fi w =
       with_fi fi (\<lambda>i.
         case do_sys env (Dup (fd_of_fh (fi_fh i))) w of (fd, d, w) \<Rightarrow> call0 env (Close fd) () w)"

definition unreliable_flush ::
    "'os env \<Rightarrow> string \<Rightarrow> fuse_file_info option \<Rightarrow> 'os world \<Rightarrow>
     (int \<times> unit \<times> 'os world) res" where
  "unreliable_flush env path fi =
     with_injection env path OP_FLUSH () (flush_body env path fi)"

definition release_body ::
    "'os env \<Rightarrow> string \<Rightarrow> fuse_file_info option \<Rightarrow> 'os world \<Rightarrow>
     (int \<times> unit \<times> 'os world) res" where
  "release_body env path fi w =
       with_fi fi (\<lambda>i. call0 env (Close (fd_of_fh (fi_fh i))) () w)"

definition unreliable_release ::
    "'os env \<Rightarrow> string \<Rightarrow> fuse_file_info option \<Rightarrow> 'os world \<Rightarrow>
     (int \<times> unit \<times> 'os world) res" where
  "unreliable_release env path fi =
     with_injection env path OP_RELEASE () (release_body env path fi)"

definition fsync_body ::
    "'os env \<Rightarrow> string \<Rightarrow> int \<Rightarrow> fuse_file_info option \<Rightarrow> 'os world \<Rightarrow>
     (int \<times> unit \<times> 'os world) res" where
  "fsync_body env path datasync fi w =
       with_fi fi (\<lambda>i.
         if datasync \<noteq> 0 then call0 env (Fdatasync (fd_of_fh (fi_fh i))) () w
         else call0 env (Fsync (fd_of_fh (fi_fh i))) () w)"

definition unreliable_fsync ::
    "'os env \<Rightarrow> string \<Rightarrow> int \<Rightarrow> fuse_file_info option \<Rightarrow> 'os world \<Rightarrow>
     (int \<times> unit \<times> 'os world) res" where
  "unreliable_fsync env path datasync fi =
     with_injection env path OP_FSYNC () (fsync_body env path datasync fi)"

definition unreliable_ftruncate ::
    "'os env \<Rightarrow> string \<Rightarrow> int \<Rightarrow> fuse_file_info option \<Rightarrow> 'os world \<Rightarrow> (int \<times> unit \<times> 'os world) res" where
  "unreliable_ftruncate env path len fi =
     with_injection env path OP_FTRUNCATE () (call0 env (Truncate path len) ())"

definition fgetattr_body ::
    "'os env \<Rightarrow> string \<Rightarrow> stat \<Rightarrow> fuse_file_info option \<Rightarrow> 'os world \<Rightarrow>
     (int \<times> stat \<times> 'os world) res" where
  "fgetattr_body env path buf fi w =
       with_fi fi (\<lambda>i.
         case do_sys env (Fstat (fd_of_fh (fi_fh i))) w of (ret, d, w) \<Rightarrow>
           if ret = -1 then Inr (- w_errno w, buf, w) else Inr (0, stat_of d buf, w))"

definition unreliable_fgetattr ::
    "'os env \<Rightarrow> string \<Rightarrow> stat \<Rightarrow> fuse_file_info option \<Rightarrow> 'os world \<Rightarrow>
     (int \<times> stat \<times> 'os world) res" where
  "unreliable_fgetattr env path buf fi =
     with_injection env path OP_FGETATTR buf (fgetattr_body env path buf fi)"

definition lock_body ::
    "'os env \<Rightarrow> string \<Rightarrow> fuse_file_info option \<Rightarrow> int \<Rightarrow> opaque \<Rightarrow> 'os world \<Rightarrow>
     (int \<times> opaque \<times> 'os world) res" where
  "lock_body env path fi cmd fl w =
       with_fi fi (\<lambda>i.
         case do_sys env (Fcntl (fd_of_fh (fi_fh i)) cmd fl) w of (ret, d, w) \<Rightarrow>
           if ret = -1 then Inr (- w_errno w, fl, w) else Inr (0, opaque_of d fl, w))"

definition unreliable_lock ::
    "'os env \<Rightarrow> string \<Rightarrow> fuse_file_info option \<Rightarrow> int \<Rightarrow> opaque \<Rightarrow> 'os world \<Rightarrow>
     (int \<times> opaque \<times> 'os world) res" where
  "unreliable_lock env path fi cmd fl =
     with_injection env path OP_LOCK fl (lock_body env path fi cmd fl)"

definition ioctl_body ::
    "'os env \<Rightarrow> string \<Rightarrow> int \<Rightarrow> opaque \<Rightarrow> fuse_file_info option \<Rightarrow> 'os world \<Rightarrow>
     (int \<times> opaque \<times> 'os world) res" where
  "ioctl_body env path cmd arg fi w =
       with_fi fi (\<lambda>i.
         case do_sys env (Ioctl (fd_of_fh (fi_fh i)) cmd arg) w of (ret, d, w) \<Rightarrow>
           if ret = -1 then Inr (- w_errno w, arg, w) else Inr (ret, opaque_of d arg, w))"

definition unreliable_ioctl ::
    "'os env \<Rightarrow> string \<Rightarrow> int \<Rightarrow> opaque \<Rightarrow> fuse_file_info option \<Rightarrow> 'os world \<Rightarrow>
     (int \<times> opaque \<times> 'os world) res" where
  "unreliable_ioctl env path cmd arg fi =
     with_injection env path OP_IOCTL arg (ioctl_body env path cmd arg fi)"

definition flock_body ::
    "'os env \<Rightarrow> string \<Rightarrow> fuse_file_info option \<Rightarrow> int \<Rightarrow> 'os world \<Rightarrow>
     (int \<times> unit \<times> 'os world) res" where
  "flock_body env path fi op w =
       with_fi fi (\<lambda>i. call0 env (Flock (fd_of_fh (fi_fh i)) op) () w)"

definition unreliable_flock ::
    "'os env \<Rightarrow> string \<Rightarrow> fuse_file_info option \<Rightarrow> int \<Rightarrow> 'os world \<Rightarrow>
     (int \<times> unit \<times> 'os world) res" where
  "unreliable_flock env path fi op =
     with_injection env path OP_FLOCK () (flock_body env path fi op)"

definition fallocate_body ::
    "'os env \<Rightarrow> string \<Rightarrow> int \<Rightarrow> int \<Rightarrow> int \<Rightarrow> fuse_file_info option \<Rightarrow> 'os world \<Rightarrow>
     (int \<times> unit \<times> 'os world) res" where
  "fallocate_body env path mode offset len fi w =
     (if mode \<noteq> 0 then Inr (- e_errno env EOPNOTSUPP, (), w)
      else (case fd_for env path O_WRONLY fi w of (fd, w) \<Rightarrow>
              if fd = -1 then Inr (- w_errno w, (), w)
              else with_fi fi (\<lambda>i.
                     case do_sys env (Fallocate (fd_of_fh (fi_fh i)) mode offset len) w of
                       (ret, d, w) \<Rightarrow>
                         if ret = -1 then Inr (- w_errno w, (), w)
                         else Inr (0, (), close_if_null env fd fi w))))"

definition unreliable_fallocate ::
    "'os env \<Rightarrow> string \<Rightarrow> int \<Rightarrow> int \<Rightarrow> int \<Rightarrow> fuse_file_info option \<Rightarrow> 'os world \<Rightarrow>
     (int \<times> unit \<times> 'os world) res" where
  "unreliable_fallocate env path mode offset len fi =
     with_injection env path OP_FALLOCATE () (fallocate_body env path mode offset len fi)"

section \<open>Extended attributes\<close>

definition unreliable_setxattr ::
    "'os env \<Rightarrow> string \<Rightarrow> string \<Rightarrow> string \<Rightarrow> nat \<Rightarrow> int \<Rightarrow> 'os world \<Rightarrow> (int \<times> unit \<times> 'os world) res" where
  "unreliable_setxattr env path name val sz flags =
     with_injection env path OP_SETXATTR ()
       (call0 env (Setxattr path name val sz (if is_apple env then Some 0 else None) flags) ())"

definition getxattr_body ::
    "'os env \<Rightarrow> string \<Rightarrow> string \<Rightarrow> buf \<Rightarrow> nat \<Rightarrow> 'os world \<Rightarrow>
     (int \<times> buf \<times> 'os world) res" where
  "getxattr_body env path name val sz w =
     (case do_sys env (Getxattr path name sz
                         (if is_apple env then Some (0, XATTR_NOFOLLOW) else None)) w of
        (ret, d, w) \<Rightarrow>
          if c_int ret = -1 then Inr (- w_errno w, val, w)
          else and_then (fill val d) (\<lambda>val. Inr (0, val, w)))"

definition unreliable_getxattr ::
    "'os env \<Rightarrow> string \<Rightarrow> string \<Rightarrow> buf \<Rightarrow> nat \<Rightarrow> 'os world \<Rightarrow>
     (int \<times> buf \<times> 'os world) res" where
  "unreliable_getxattr env path name val sz =
     with_injection env path OP_GETXATTR val (getxattr_body env path name val sz)"

definition listxattr_body ::
    "'os env \<Rightarrow> string \<Rightarrow> buf \<Rightarrow> nat \<Rightarrow> 'os world \<Rightarrow>
     (int \<times> buf \<times> 'os world) res" where
  "listxattr_body env path lst sz w =
     (case do_sys env (Listxattr path sz (if is_apple env then Some XATTR_NOFOLLOW else None)) w of
        (ret, d, w) \<Rightarrow>
          if c_int ret = -1 then Inr (- w_errno w, lst, w)
          else and_then (fill lst d) (\<lambda>lst. Inr (c_int ret, lst, w)))"

definition unreliable_listxattr ::
    "'os env \<Rightarrow> string \<Rightarrow> buf \<Rightarrow> nat \<Rightarrow> 'os world \<Rightarrow>
     (int \<times> buf \<times> 'os world) res" where
  "unreliable_listxattr env path lst sz =
     with_injection env path OP_LISTXATTR lst (listxattr_body env path lst sz)"

definition unreliable_removexattr ::
    "'os env \<Rightarrow> string \<Rightarrow> string \<Rightarrow> 'os world \<Rightarrow> (int \<times> unit \<times> 'os world) res" where
  "unreliable_removexattr env path name =
     with_injection env path OP_REMOVEXATTR ()
       (call0 env (Removexattr path name (if is_apple env then Some XATTR_NOFOLLOW else None)) ())"

section \<open>Directories\<close>

definition opendir_body ::
    "'os env \<Rightarrow> string \<Rightarrow> fuse_file_info option \<Rightarrow> 'os world \<Rightarrow>
     (int \<times> fuse_file_info option \<times> 'os world) res" where
  "opendir_body env path fi w =
     (case do_sys env (Opendir path) w of (dir, d, w) \<Rightarrow>
        if dir = 0 then Inr (- w_errno w, fi, w)
        else with_fi fi (\<lambda>i. Inr (0, Some (i\<lparr>fi_fh := word_of_int dir\<rparr>), w)))"

definition unreliable_opendir ::
    "'os env \<Rightarrow> string \<Rightarrow> fuse_file_info option \<Rightarrow> 'os world \<Rightarrow>
     (int \<times> fuse_file_info option \<times> 'os world) res" where
  "unreliable_opendir env path fi =
     with_injection env path OP_OPENDIR fi (opendir_body env path fi)"

text \<open>
  \<open>filler\<close> is the function FUSE passes in: it stores an entry in the caller's buffer and returns
  nonzero when the buffer is full.
\<close>

type_synonym 'b fuse_fill_dir = "'b \<Rightarrow> string \<Rightarrow> stat \<Rightarrow> int \<times> 'b"

definition dirent_stat :: "nat \<Rightarrow> 8 word \<Rightarrow> stat" where
  "dirent_stat ino ty = zero_stat\<lparr>st_ino := ino, st_mode := push_bit 12 (ucast ty)\<rparr>"

partial_function (option) readdir_loop ::
    "'os env \<Rightarrow> 'b fuse_fill_dir \<Rightarrow> 64 word \<Rightarrow> 'b \<Rightarrow> 'os world \<Rightarrow> ('b \<times> 'os world) option" where
  "readdir_loop env filler dp buf w =
     (case do_sys env (Readdir dp) w of (ret, d, w) \<Rightarrow>
        if ret = 0 then Some (buf, w)
        else (case d of
                Dirent ino ty name \<Rightarrow>
                  (case filler buf name (dirent_stat ino ty) of (full, buf) \<Rightarrow>
                     if full \<noteq> 0 then Some (buf, w) else readdir_loop env filler dp buf w)
              | _ \<Rightarrow> Some (buf, w)))"

definition readdir_body ::
    "'os env \<Rightarrow> string \<Rightarrow> 'b \<Rightarrow> 'b fuse_fill_dir \<Rightarrow> int \<Rightarrow> fuse_file_info option \<Rightarrow> 'os world \<Rightarrow>
     (int \<times> 'b \<times> 'os world) res" where
  "readdir_body env path buf filler offset fi w =
     (case do_sys env (Opendir path) w of (dp, d, w) \<Rightarrow>
        if dp = 0 then Inr (- w_errno w, buf, w)
        else (case readdir_loop env filler (word_of_int dp) buf w of
                None \<Rightarrow> Inl Nonterminating
              | Some (buf, w) \<Rightarrow>
                  Inr (0, buf, snd (snd (do_sys env (Closedir (word_of_int dp)) w)))))"

definition unreliable_readdir ::
    "'os env \<Rightarrow> string \<Rightarrow> 'b \<Rightarrow> 'b fuse_fill_dir \<Rightarrow> int \<Rightarrow> fuse_file_info option \<Rightarrow> 'os world \<Rightarrow>
     (int \<times> 'b \<times> 'os world) res" where
  "unreliable_readdir env path buf filler offset fi =
     with_injection env path OP_READDIR buf (readdir_body env path buf filler offset fi)"

text \<open>
  \<open>closedir((DIR *) fi->fh)\<close>: nothing says that the handle is a stream.  In \<open>readdir\<close> and \<open>fsyncdir\<close> the
  stream is the one \<open>opendir\<close> has just returned.
\<close>

definition releasedir_body ::
    "'os env \<Rightarrow> string \<Rightarrow> fuse_file_info option \<Rightarrow> 'os world \<Rightarrow>
     (int \<times> unit \<times> 'os world) res" where
  "releasedir_body env path fi w =
       with_fi fi (\<lambda>i.
         if e_stream env (w_os w) (fi_fh i) then call0 env (Closedir (fi_fh i)) () w
         else Inl Bad_stream)"

definition unreliable_releasedir ::
    "'os env \<Rightarrow> string \<Rightarrow> fuse_file_info option \<Rightarrow> 'os world \<Rightarrow>
     (int \<times> unit \<times> 'os world) res" where
  "unreliable_releasedir env path fi =
     with_injection env path OP_RELEASEDIR () (releasedir_body env path fi)"

definition fsyncdir_body ::
    "'os env \<Rightarrow> string \<Rightarrow> int \<Rightarrow> fuse_file_info option \<Rightarrow> 'os world \<Rightarrow>
     (int \<times> unit \<times> 'os world) res" where
  "fsyncdir_body env path datasync fi w =
     (case do_sys env (Opendir path) w of (dir, d, w) \<Rightarrow>
        if dir = 0 then Inr (- w_errno w, (), w)
        else (case do_sys env (Dirfd (word_of_int dir)) w of (fd, d, w) \<Rightarrow>
              case do_sys env (if datasync \<noteq> 0 then Fdatasync fd else Fsync fd) w of (ret, d, w) \<Rightarrow>
                if ret = -1 then Inr (- w_errno w, (), w)
                else Inr (0, (), snd (snd (do_sys env (Closedir (word_of_int dir)) w)))))"

definition unreliable_fsyncdir ::
    "'os env \<Rightarrow> string \<Rightarrow> int \<Rightarrow> fuse_file_info option \<Rightarrow> 'os world \<Rightarrow>
     (int \<times> unit \<times> 'os world) res" where
  "unreliable_fsyncdir env path datasync fi =
     with_injection env path OP_FSYNCDIR () (fsyncdir_body env path datasync fi)"

section \<open>Start and end\<close>

definition unreliable_init :: "'os world \<Rightarrow> unit option \<times> 'os world" where
  "unreliable_init w = (None, w)"

definition unreliable_destroy :: "'os world \<Rightarrow> 'os world" where
  "unreliable_destroy w = w"

end
