(* ===== verification/Errinj_Inv.thy ===== *)
theory Errinj_Inv
  imports Errinj Ini_Build "HOL-Library.Multiset"
begin

text \<open>
  The invariant of the injection queue and who owns which memory.

  \<open>q_inv B q w\<close>: the queue has at most one entry per type, the blocks of the queue are allocated,
  pairwise distinct and disjoint from \<open>B\<close>, and together with \<open>B\<close> they are all the blocks there
  are.  Reading a configuration establishes it, every option keeps it, and \<open>config_delete\<close> under
  it frees exactly the queue's blocks and each once.

  The parser calls its handler through a function pointer; what a client proves once about the
  parser for any handler that never faults and keeps an invariant is the locale \<open>ini_client\<close>.
\<close>

section \<open>Handlers that keep an invariant\<close>

locale ini_client =
  fixes h :: "'u ini_handler" and inv :: "'u \<Rightarrow> bool"
  assumes handler_ok: "inv u \<Longrightarrow> \<exists>rc u'. h u sec name val = Inr (rc, u') \<and> inv u'"
begin

lemma emit_ok: "inv (a_user a) \<Longrightarrow> \<exists>a'. a_emit h a name val = Inr a' \<and> inv (a_user a')"
  using handler_ok [of "a_user a" "a_section a" name val]
  by (auto simp: a_emit_def a_fail_def Let_def)

lemma effect_ok: "inv (a_user a) \<Longrightarrow> \<exists>a'. a_effect h a e = Inr a' \<and> inv (a_user a')"
  by (cases e) (auto simp: a_effect_def a_fail_def intro: emit_ok)

lemma run_ok: "inv (a_user a) \<Longrightarrow> \<exists>a'. ini_run h a xs = Inr a' \<and> inv (a_user a')"
proof (induction xs arbitrary: a)
  case Nil
  then show ?case by simp
next
  case (Cons x xs)
  obtain a' where "ini_step h a x = Inr a'" and "inv (a_user a')"
    using effect_ok [of "a\<lparr>a_lineno := Suc (a_lineno a)\<rparr>"] Cons.prems
    unfolding ini_step_def Let_def by (metis ini_abs.select_convs(5) ini_abs.surjective
        ini_abs.update_convs(3))
  with Cons.IH [of a'] show ?case by simp
qed

lemma text_ok: "inv u \<Longrightarrow> \<exists>rc u'. ini_text h u txt = Inr (rc, u') \<and> 0 \<le> rc \<and> inv u'"
  using run_ok [of "ini_init u" "map c_view (chunks (INI_MAX_LINE - 1) txt)"]
  by (auto simp: ini_text_def ini_init_def)

lemma parse_file_ok: "inv u \<Longrightarrow> \<exists>rc u'. ini_parse_file f h u = Inr (rc, u') \<and> 0 \<le> rc \<and> inv u'"
  by (simp add: ini_parse_file_eq text_ok)

lemma parse_ok:
  assumes "inv u" and "\<And>p u. inv u \<Longrightarrow> inv (snd (fo p u))" and "\<And>u. inv u \<Longrightarrow> inv (fc u)"
  shows "\<exists>rc u'. ini_parse fo fc path h u = Inr (rc, u') \<and> inv u' \<and>
           (rc < 0 \<longleftrightarrow> fst (fo path u) = None)"
proof (cases "fo path u")
  case (Pair f u')
  then have "inv u'"
    using assms(1,2) by (metis snd_conv)
  show ?thesis
  proof (cases f)
    case None
    with Pair \<open>inv u'\<close> show ?thesis
      by (simp add: ini_parse_def)
  next
    case (Some c)
    obtain rc u'' where "ini_parse_file c h u' = Inr (rc, u'')" "0 \<le> rc" "inv u''"
      using parse_file_ok [OF \<open>inv u'\<close>] by blast
    with Pair Some assms(3) show ?thesis
      by (simp add: ini_parse_def)
  qed
qed

end

section \<open>Blocks\<close>

definition str_blocks :: "heap_string option \<Rightarrow> nat list" where
  "str_blocks p = (case p of None \<Rightarrow> [] | Some (a, s) \<Rightarrow> [a])"

definition entry_blocks :: "errinj_conf \<Rightarrow> nat list" where
  "entry_blocks e = ec_addr e # str_blocks (path_regexp e) @ str_blocks (op_regexp e)"

definition entries_blocks :: "errinj_conf list \<Rightarrow> nat list" where
  "entries_blocks es = concat (map entry_blocks es)"

definition q_blocks :: "err_inj_q \<Rightarrow> nat list" where
  "q_blocks q = q_addr q # entries_blocks (q_entries q)"

lemma str_blocks_simps [simp]:
  "str_blocks None = []" "str_blocks (Some p) = [fst p]"
  by (simp_all add: str_blocks_def split: prod.splits)

lemma entries_blocks_simps [simp]:
  "entries_blocks [] = []"
  "entries_blocks (e # es) = entry_blocks e @ entries_blocks es"
  "entries_blocks (es @ es') = entries_blocks es @ entries_blocks es'"
  by (simp_all add: entries_blocks_def)

text \<open>The heap holds \<open>B\<close> and, apart from it, the blocks \<open>xs\<close>, each once.\<close>

definition owns :: "nat set \<Rightarrow> nat list \<Rightarrow> heap \<Rightarrow> bool" where
  "owns B xs h \<longleftrightarrow>
     distinct xs \<and> B \<inter> set xs = {} \<and> h_live h = B \<union> set xs \<and> (\<forall>a \<in> h_live h. a < h_next h)"

lemma owns_perm:
  assumes "mset xs = mset ys"
  shows "owns B xs h \<longleftrightarrow> owns B ys h"
proof -
  have "set xs = set ys" and "distinct xs = distinct ys"
    using assms by (rule mset_eq_setD, rule mset_eq_imp_distinct_iff)
  then show ?thesis
    by (simp add: owns_def)
qed

lemma owns_free:
  assumes "owns B (a # xs) (w_heap w)"
  obtains w' where "c_free a w = Inr w'" and "owns B xs (w_heap w')" and "w_conf w' = w_conf w"
proof
  let ?w = "w\<lparr>w_heap := (w_heap w)\<lparr>h_live := h_live (w_heap w) - {a}\<rparr>\<rparr>"
  show "c_free a w = Inr ?w"
    using assms by (simp add: c_free_def owns_def)
  show "owns B xs (w_heap ?w)"
    using assms by (auto simp: owns_def)
qed simp

lemma owns_free_str:
  assumes "owns B (str_blocks p @ xs) (w_heap w)"
  obtains w' where "free_str p w = Inr w'" and "owns B xs (w_heap w')" and "w_conf w' = w_conf w"
proof (cases p)
  case None
  with assms that show thesis
    by (simp add: free_str_def)
next
  case (Some q)
  with assms have "owns B (fst q # xs) (w_heap w)"
    by simp
  then show thesis
    by (rule owns_free) (use that Some in \<open>simp add: free_str_def case_prod_unfold\<close>)
qed

lemma owns_malloc:
  assumes "owns B xs (w_heap w)" and "c_malloc env w = (p, w')"
  shows "owns B (case p of None \<Rightarrow> xs | Some a \<Rightarrow> a # xs) (w_heap w')"
proof -
  have "h_next (w_heap w) \<notin> B \<union> set xs"
    using assms(1) unfolding owns_def by (metis less_irrefl)
  with assms show ?thesis
    by (auto simp: owns_def c_malloc_def less_SucI split: prod.splits if_splits)
qed

lemma owns_strdup:
  assumes "owns B xs (w_heap w)" and "c_strdup env s w = (p, w')"
  shows "owns B (str_blocks p @ xs) (w_heap w')"
  using assms(2) owns_malloc [OF assms(1), of env]
  by (cases "fst (c_malloc env w)") (fastforce simp: c_strdup_def split: prod.splits)+

lemma c_strdup_frame: "c_strdup env s w = (p, w') \<Longrightarrow> w_conf w' = w_conf w"
  by (auto simp: c_strdup_def c_malloc_frame split: prod.splits)

section \<open>The queue invariant\<close>

definition q_inv :: "nat set \<Rightarrow> err_inj_q \<Rightarrow> 'os world \<Rightarrow> bool" where
  "q_inv B q w \<longleftrightarrow> distinct (map ec_type (q_entries q)) \<and> owns B (q_blocks q) (w_heap w)"

lemma q_types_bound:
  assumes "distinct (map ec_type es)"
  shows "length es \<le> 4"
proof -
  have "card (set (map ec_type es)) \<le> card (UNIV :: errinj_type set)"
    by (intro card_mono) auto
  then show ?thesis
    using distinct_card [OF assms] by simp
qed

lemma find_entry_Some:
  "find_entry t es = Some i \<Longrightarrow> i < length es \<and> ec_type (es ! i) = t"
  by (induction es arbitrary: i) (auto split: if_splits)

lemma find_entry_None: "find_entry t es = None \<longleftrightarrow> t \<notin> ec_type ` set es"
  by (induction es) auto

lemma find_entry_unique:
  "distinct (map ec_type es) \<Longrightarrow> i < length es \<Longrightarrow> find_entry (ec_type (es ! i)) es = Some i"
proof (induction es arbitrary: i)
  case Nil
  then show ?case by simp
next
  case (Cons e es)
  then show ?case
    by (cases i) auto
qed

lemma conf_entry_ok:
  assumes "q_inv B q w" and "conf_entry env t (q, w) = (i, q', w')"
  shows "q_inv B q' w' \<and> w_conf w' = w_conf w \<and>
    (\<forall>j. i = Some j \<longrightarrow> j < length (q_entries q') \<and> ec_type (q_entries q' ! j) = t)"
proof (cases "find_entry t (q_entries q)")
  case (Some j)
  with assms find_entry_Some [OF Some] show ?thesis
    by (auto simp: conf_entry_def)
next
  case None
  obtain p w1 where m: "c_malloc env w = (p, w1)"
    by fastforce
  have o: "owns B (case p of None \<Rightarrow> q_blocks q | Some a \<Rightarrow> a # q_blocks q) (w_heap w1)"
    using assms(1) m by (intro owns_malloc) (auto simp: q_inv_def)
  have "owns B (q_blocks (q\<lparr>q_entries := q_entries q @ [new_entry a t]\<rparr>)) (w_heap w1)"
    if "p = Some a" for a
    using o that
    by (subst owns_perm [of _ "a # q_blocks q"]) (auto simp: q_blocks_def entry_blocks_def new_entry_def)
  moreover have "t \<notin> ec_type ` set (q_entries q)"
    using None by (simp add: find_entry_None)
  ultimately show ?thesis
    using None m o assms c_malloc_frame [OF m]
    by (auto simp: conf_entry_def q_inv_def new_entry_def nth_append split: option.splits)
qed

text \<open>Replacing one entry touches only that entry's blocks.\<close>

definition q_rest :: "nat \<Rightarrow> err_inj_q \<Rightarrow> nat list" where
  "q_rest i q = q_addr q # entries_blocks (take i (q_entries q)) @
     entries_blocks (drop (Suc i) (q_entries q))"

lemma q_blocks_focus:
  assumes "i < length (q_entries q)"
  shows "mset (q_blocks q) = mset (entry_blocks (q_entries q ! i) @ q_rest i q)"
proof -
  have "entries_blocks (q_entries q) = entries_blocks (take i (q_entries q)) @
      entry_blocks (q_entries q ! i) @ entries_blocks (drop (Suc i) (q_entries q))"
    using arg_cong [where f = entries_blocks, OF id_take_nth_drop [OF assms]] by simp
  then show ?thesis
    by (simp add: q_blocks_def q_rest_def)
qed

lemma q_blocks_update:
  assumes "i < length (q_entries q)"
  shows "mset (q_blocks (q\<lparr>q_entries := (q_entries q)[i := e]\<rparr>)) = mset (entry_blocks e @ q_rest i q)"
  using assms by (simp add: q_blocks_def q_rest_def upd_conv_take_nth_drop)

lemma replace_str_ok:
  assumes "owns B (str_blocks p @ xs) (w_heap w)"
  obtains w1 p' w2 where "free_str p w = Inr w1" and "c_strdup env s w1 = (p', w2)"
    and "owns B (str_blocks p' @ xs) (w_heap w2)" and "w_conf w2 = w_conf w"
proof -
  from assms obtain w1 where w1: "free_str p w = Inr w1" "owns B xs (w_heap w1)" "w_conf w1 = w_conf w"
    by (rule owns_free_str)
  obtain p' w2 where d: "c_strdup env s w1 = (p', w2)"
    by fastforce
  show thesis
    using that [OF w1(1) d owns_strdup [OF w1(2) d]] c_strdup_frame [OF d] w1(3) by simp
qed

lemma conf_set_option_ok:
  assumes own: "owns B (entry_blocks e @ xs) (w_heap w)"
  shows "\<exists>rc e' w'. conf_set_option env key val e w = Inr (rc, e', w') \<and>
           owns B (entry_blocks e' @ xs) (w_heap w') \<and> ec_type e' = ec_type e \<and>
           w_conf w' = w_conf w"
proof -
  let ?P = "str_blocks (path_regexp e)" and ?O = "str_blocks (op_regexp e)"
  have path: "owns B (entry_blocks (e\<lparr>path_regexp := p\<rparr>) @ xs) h \<longleftrightarrow>
      owns B (str_blocks p @ ec_addr e # ?O @ xs) h" for p h
    by (rule owns_perm) (simp add: entry_blocks_def)
  have op: "owns B (entry_blocks (e\<lparr>op_regexp := p\<rparr>) @ xs) h \<longleftrightarrow>
      owns B (str_blocks p @ ec_addr e # ?P @ xs) h" for p h
    by (rule owns_perm) (simp add: entry_blocks_def)
  have "owns B (?P @ ec_addr e # ?O @ xs) (w_heap w)"
    using own path [of "path_regexp e"] by simp
  then obtain w1 p w2 where 1: "free_str (path_regexp e) w = Inr w1" "c_strdup env val w1 = (p, w2)"
      "owns B (str_blocks p @ ec_addr e # ?O @ xs) (w_heap w2)" "w_conf w2 = w_conf w"
    by (rule replace_str_ok)
  have "owns B (?O @ ec_addr e # ?P @ xs) (w_heap w)"
    using own op [of "op_regexp e"] by simp
  then obtain w3 p' w4 where 2: "free_str (op_regexp e) w = Inr w3" "c_strdup env val w3 = (p', w4)"
      "owns B (str_blocks p' @ ec_addr e # ?P @ xs) (w_heap w4)" "w_conf w4 = w_conf w"
    by (rule replace_str_ok)
  have "owns B (entry_blocks (e\<lparr>probability := n\<rparr>) @ xs) (w_heap w)"
       "owns B (entry_blocks (e\<lparr>duration := n\<rparr>) @ xs) (w_heap w)" for n
    using own by (simp_all add: entry_blocks_def)
  then show ?thesis
    using 1 2 own by (auto simp: conf_set_option_def path op)
qed

lemma type_loop_bound:
  "type_loop ns name i idx = idx \<or> (i \<le> type_loop ns name i idx \<and> type_loop ns name i idx < i + int (length ns))"
  by (induction ns name i idx rule: type_loop.induct) auto

lemma conf_option_handler_ok:
  assumes inv: "q_inv B q w"
  shows "\<exists>rc q' w'. conf_option_handler env (q, w) sec key val = Inr (rc, q', w') \<and>
           q_inv B q' w' \<and> w_conf w' = w_conf w"
proof (cases "errinj_type_by_name sec = -1")
  case True
  with inv show ?thesis
    by (simp add: conf_option_handler_def)
next
  case False
  obtain i q1 w1 where e: "conf_entry env (errinj_types ! nat (errinj_type_by_name sec)) (q, w) = (i, q1, w1)"
    by (metis prod_cases3)
  note e_ok = conf_entry_ok [OF inv e]
  show ?thesis
  proof (cases i)
    case None
    with False e e_ok show ?thesis
      by (simp add: conf_option_handler_def)
  next
    case (Some j)
    then have j: "j < length (q_entries q1)" and q1: "q_inv B q1 w1" and c: "w_conf w1 = w_conf w"
      using e_ok by auto
    have "owns B (entry_blocks (q_entries q1 ! j) @ q_rest j q1) (w_heap w1)"
      using q1 owns_perm [OF q_blocks_focus [OF j]] by (simp add: q_inv_def)
    then obtain rc e' w' where s: "conf_set_option env key val (q_entries q1 ! j) w1 = Inr (rc, e', w')"
        "owns B (entry_blocks e' @ q_rest j q1) (w_heap w')"
        "ec_type e' = ec_type (q_entries q1 ! j)" "w_conf w' = w_conf w1"
      using conf_set_option_ok by blast
    have "q_inv B (q1\<lparr>q_entries := (q_entries q1)[j := e']\<rparr>) w'"
      using s q1 j owns_perm [OF q_blocks_update [OF j]] list_update_id [of "map ec_type (q_entries q1)" j]
      by (simp add: q_inv_def map_update)
    with False e Some s c show ?thesis
      by (simp add: conf_option_handler_def)
  qed
qed

text \<open>The handler of the configuration is a client of the parser.\<close>

interpretation conf_client: ini_client "conf_option_handler env"
  "\<lambda>(q, w). q_inv B q w \<and> w_conf w = c" for env B c
proof
  fix u :: "err_inj_q \<times> 'a world" and sec name val
  assume "case u of (q, w) \<Rightarrow> q_inv B q w \<and> w_conf w = c"
  then show "\<exists>rc u'. conf_option_handler env u sec name val = Inr (rc, u') \<and>
      (case u' of (q, w) \<Rightarrow> q_inv B q w \<and> w_conf w = c)"
    using conf_option_handler_ok [of B "fst u" "snd u" env sec name val]
    by (cases u) auto
qed

section \<open>Reading and freeing a configuration\<close>

lemma owns_do_sys:
  "do_sys env c w = (r, d, w') \<Longrightarrow> owns B xs (w_heap w') \<longleftrightarrow> owns B xs (w_heap w)"
  by (auto dest: do_sys_frame)

lemma q_fopen_inv: "q_inv B q w \<Longrightarrow> q_fopen env p (q, w) = (f, q', w') \<Longrightarrow>
    q_inv B q' w' \<and> w_conf w' = w_conf w \<and> q' = q"
  by (auto simp: q_fopen_def q_inv_def split: prod.splits)

text \<open>
  \<open>config_init\<close> never faults.  It returns the null pointer when memory runs out or the file
  cannot be opened although it exists; otherwise the queue it returns satisfies the invariant.
\<close>

lemma config_init_ok:
  assumes own: "owns B [] (w_heap w)"
  shows "\<exists>q w'. config_init env path w = Inr (q, w') \<and> w_conf w' = w_conf w \<and>
    (case q of Some q \<Rightarrow> q_inv B q w' | None \<Rightarrow> \<exists>xs. length xs \<le> 1 \<and> owns B xs (w_heap w'))"
proof -
  obtain p w1 where m: "c_malloc env w = (p, w1)"
    by fastforce
  have o1: "owns B (case p of None \<Rightarrow> [] | Some a \<Rightarrow> [a]) (w_heap w1)" and c1: "w_conf w1 = w_conf w"
    using owns_malloc [OF own m] c_malloc_frame [OF m] by auto
  show ?thesis
  proof (cases p)
    case None
    with m o1 c1 show ?thesis
      by (auto simp: config_init_def intro!: exI [of _ "[]"])
  next
    case (Some a)
    let ?q = "\<lparr>q_addr = a, q_entries = []\<rparr>"
    obtain r d w2 where acc: "do_sys env (Access path F_OK) w1 = (r, d, w2)"
      by (metis prod_cases3)
    have q2: "q_inv B ?q w2" and c2: "w_conf w2 = w_conf w"
      using o1 c1 Some acc do_sys_frame [OF acc] by (auto simp: q_inv_def q_blocks_def)
    obtain rc q' w3 where
        parse: "ini_parse (q_fopen env) (q_fclose env) path (conf_option_handler env) (?q, w2) =
          Inr (rc, q', w3)"
        and q3: "q_inv B q' w3" and c3: "w_conf w3 = w_conf w"
        and rc: "rc < 0 \<longleftrightarrow> fst (q_fopen env path (?q, w2)) = None"
      using conf_client.parse_ok [of B "w_conf w" "(?q, w2)" "q_fopen env" "q_fclose env" path env]
        q2 c2 by (fastforce simp: q_fopen_def q_fclose_def q_inv_def split: prod.splits)
    have "length (q_blocks q') \<le> 1" if "rc < 0"
      using that rc parse by (auto simp: ini_parse_def q_fopen_def q_blocks_def split: prod.splits option.splits)
    then show ?thesis
      using m Some acc parse q2 q3 c2 c3
      by (auto simp: config_init_def q_inv_def Let_def)
  qed
qed

lemma delete_entries_ok:
  assumes "owns B (entries_blocks es @ xs) (w_heap w)"
  obtains w' where "delete_entries es w = Inr w'" and "owns B xs (w_heap w')" and "w_conf w' = w_conf w"
  using assms
proof (induction es arbitrary: w thesis)
  case Nil
  then show ?case by simp
next
  case (Cons e es)
  have "mset (entries_blocks (e # es) @ xs) = mset (str_blocks (path_regexp e) @
      str_blocks (op_regexp e) @ ec_addr e # entries_blocks es @ xs)"
    by (simp add: entry_blocks_def)
  then have "owns B (str_blocks (path_regexp e) @ str_blocks (op_regexp e) @
      ec_addr e # entries_blocks es @ xs) (w_heap w)"
    using Cons.prems(2) owns_perm by blast
  then obtain w1 where 1: "free_str (path_regexp e) w = Inr w1" "w_conf w1 = w_conf w"
      "owns B (str_blocks (op_regexp e) @ ec_addr e # entries_blocks es @ xs) (w_heap w1)"
    by (rule owns_free_str)
  from 1(3) obtain w2 where 2: "free_str (op_regexp e) w1 = Inr w2" "w_conf w2 = w_conf w1"
      "owns B (ec_addr e # entries_blocks es @ xs) (w_heap w2)"
    by (rule owns_free_str)
  from 2(3) obtain w3 where 3: "c_free (ec_addr e) w2 = Inr w3" "w_conf w3 = w_conf w2"
      "owns B (entries_blocks es @ xs) (w_heap w3)"
    by (rule owns_free)
  from 3(3) obtain w4 where "delete_entries es w3 = Inr w4" "owns B xs (w_heap w4)" "w_conf w4 = w_conf w3"
    using Cons.IH by blast
  with 1 2 3 Cons.prems(1) show ?case
    by simp
qed

lemma config_delete_ok:
  assumes "q_inv B q w"
  obtains w' where "config_delete (Some q) w = Inr w'" and "owns B [] (w_heap w')"
    and "w_conf w' = w_conf w"
proof -
  have "mset (q_blocks q) = mset (entries_blocks (q_entries q) @ [q_addr q])"
    by (simp add: q_blocks_def)
  then have "owns B (entries_blocks (q_entries q) @ [q_addr q]) (w_heap w)"
    using assms owns_perm unfolding q_inv_def by blast
  then obtain w1 where 1: "delete_entries (q_entries q) w = Inr w1" "owns B [q_addr q] (w_heap w1)"
      "w_conf w1 = w_conf w"
    by (rule delete_entries_ok)
  from 1(2) obtain w2 where "c_free (q_addr q) w1 = Inr w2" "owns B [] (w_heap w2)"
      "w_conf w2 = w_conf w1"
    by (rule owns_free)
  with 1 that show thesis
    by (simp add: config_delete_def)
qed

section \<open>error\_inject\<close>

definition conf_inv :: "nat set \<Rightarrow> 'os world \<Rightarrow> bool" where
  "conf_inv B w \<longleftrightarrow>
     (case errors (w_conf w) of None \<Rightarrow> owns B [] (w_heap w) | Some q \<Rightarrow> q_inv B q w)"

lemma rand_range_frame [simp]:
  "w_conf (snd (rand_range env a b w)) = w_conf w" "w_heap (snd (rand_range env a b w)) = w_heap w"
  by (simp_all add: rand_range_def case_prod_unfold)

lemma op_random_errno_frame:
  "op_random_errno env op w = Inr (rc, w') \<Longrightarrow> w_conf w' = w_conf w \<and> w_heap w' = w_heap w"
  by (auto simp: op_random_errno_def RANDOM_ELEMENT_def res_iff case_prod_unfold
      split: option.splits if_splits)

lemma trigger_frame:
  "trigger env op err rc w = Inr (rc', w') \<Longrightarrow> w_conf w' = w_conf w \<and> w_heap w' = w_heap w"
  by (auto simp: trigger_def res_iff op_random_errno_frame
      split: errinj_type.splits option.splits prod.splits dest: do_sys_frame op_random_errno_frame)

lemma inject_loop_frame:
  "inject_loop env path op opn es rc w = Inr (rc', w') \<Longrightarrow>
   w_conf w' = w_conf w \<and> w_heap w' = w_heap w"
proof (induction env path op opn es rc w rule: inject_loop.induct)
  case (2 env path op opn err es rc w)
  then show ?case
    by (cases "rand_range env MIN_PROBABLITY MAX_PROBABLITY w")
      (fastforce simp: res_iff split: if_splits prod.splits dest: trigger_frame
        dest!: arg_cong [where f = snd, of "rand_range _ _ _ _"])
qed simp

lemma trigger_fault: "trigger env op err rc w = Inl f \<Longrightarrow> f = Read_oob"
  by (auto simp: trigger_def res_iff op_random_errno_def RANDOM_ELEMENT_def
      split: errinj_type.splits option.splits prod.splits if_splits)

lemma inject_loop_fault: "inject_loop env path op opn es rc w = Inl f \<Longrightarrow> f = Read_oob"
proof (induction env path op opn es rc w rule: inject_loop.induct)
  case (2 env path op opn err es rc w)
  then show ?case
    by (auto simp: res_iff split: if_splits prod.splits dest: trigger_fault)
qed simp

lemma conf_inv_mutex [simp]: "conf_inv B (set_mutex m w) \<longleftrightarrow> conf_inv B w"
  by (auto simp: conf_inv_def set_mutex_def q_inv_def split: option.splits)

lemma config_delete_inv:
  assumes "conf_inv B w"
  obtains w' where "config_delete (errors (w_conf w)) w = Inr w'" "owns B [] (w_heap w')"
    "w_conf w' = w_conf w"
proof (cases "errors (w_conf w)")
  case None
  with assms that show thesis
    by (simp add: conf_inv_def config_delete_def)
next
  case (Some q)
  with assms have "q_inv B q w"
    by (simp add: conf_inv_def)
  with Some that show thesis
    by (metis config_delete_ok)
qed

text \<open>The part of \<open>error_inject\<close> that reloads the configuration.\<close>

lemma reload_ok:
  assumes inv: "conf_inv B w" and unlocked: "\<not> mutex (w_conf w)" and path: "path = config_path (w_conf w)"
  shows "\<exists>q w'. error_inject env path op w = Inr (0, w') \<and>
    w_conf w' = (w_conf w)\<lparr>errors := q, mutex := False\<rparr> \<and>
    (case q of Some _ \<Rightarrow> conf_inv B w' | None \<Rightarrow> \<exists>xs. length xs \<le> 1 \<and> owns B xs (w_heap w'))"
proof -
  let ?w = "set_mutex True w"
  obtain w1 where 1: "config_delete (errors (w_conf w)) ?w = Inr w1" "owns B [] (w_heap w1)"
      "w_conf w1 = w_conf ?w"
  proof -
    have "errors (w_conf ?w) = errors (w_conf w)"
      by (simp add: set_mutex_def)
    then show thesis
      using that inv config_delete_inv [of B ?w] by (metis conf_inv_mutex)
  qed
  obtain q w2 where 2: "config_init env path w1 = Inr (q, w2)" "w_conf w2 = w_conf w1"
      "case q of Some q \<Rightarrow> q_inv B q w2 | None \<Rightarrow> \<exists>xs. length xs \<le> 1 \<and> owns B xs (w_heap w2)"
    using config_init_ok [OF 1(2)] by blast
  have "error_inject env path op w = Inr (0, set_mutex False (set_errors q w2))"
    using unlocked path 1(1) 2(1) by (simp add: error_inject_def Let_def set_mutex_def)
  then show ?thesis
    using 1(3) 2(2,3)
    by (intro exI [of _ q] exI [of _ "set_mutex False (set_errors q w2)"])
      (auto simp: set_mutex_def set_errors_def conf_inv_def q_inv_def split: option.splits)
qed

text \<open>The other part: the configuration is read, never changed.\<close>

lemma inject_ok:
  assumes "path \<noteq> config_path (w_conf w)" and "error_inject env path op w = Inr (rc, w')"
  shows "w_conf w' = (w_conf w)\<lparr>mutex := False\<rparr> \<and> w_heap w' = w_heap w"
  using assms
  by (auto simp: error_inject_def set_mutex_def Let_def res_iff split: if_splits option.splits
      dest!: inject_loop_frame)

lemma error_inject_inv:
  assumes "conf_inv B w" and "\<not> mutex (w_conf w)" and "error_inject env path op w = Inr (rc, w')"
  shows "(\<exists>B'. B \<subseteq> B' \<and> conf_inv B' w') \<and> \<not> mutex (w_conf w') \<and>
    config_path (w_conf w') = config_path (w_conf w)"
proof (cases "path = config_path (w_conf w)")
  case True
  with reload_ok [OF assms(1,2) True, of env op] assms(3) obtain q where
      c: "w_conf w' = (w_conf w)\<lparr>errors := q, mutex := False\<rparr>" and
      q: "case q of Some _ \<Rightarrow> conf_inv B w' | None \<Rightarrow> \<exists>xs. length xs \<le> 1 \<and> owns B xs (w_heap w')"
    by auto
  have "\<exists>B'. B \<subseteq> B' \<and> conf_inv B' w'"
  proof (cases q)
    case None
    with q obtain xs where "owns B xs (w_heap w')"
      by auto
    then have "owns (B \<union> set xs) [] (w_heap w')"
      by (auto simp: owns_def)
    with None c show ?thesis
      by (auto simp: conf_inv_def)
  next
    case (Some _)
    with q show ?thesis by auto
  qed
  with c show ?thesis by simp
next
  case False
  with inject_ok [OF False assms(3)] assms(1) show ?thesis
    by (auto simp: conf_inv_def q_inv_def split: option.splits)
qed

lemma error_inject_faults:
  assumes "conf_inv B w" and "\<not> mutex (w_conf w)" and "op \<in> set (fuse_ops (e_build env))"
    and "error_inject env path op w = Inl f"
  shows "f = Read_oob \<and> path \<noteq> config_path (w_conf w)"
proof (cases "path = config_path (w_conf w)")
  case True
  with reload_ok [OF assms(1,2) True, of env op] assms(4) show ?thesis
    by auto
next
  case False
  with assms show ?thesis
    by (auto simp: error_inject_def set_mutex_def Let_def res_iff op_name_label
        split: if_splits option.splits dest: inject_loop_fault)
qed

end
