(* ===== verification/Errinj_Spec.thy ===== *)
theory Errinj_Spec
  imports Errinj_Inv
begin

text \<open>
  The random choices of \<open>error_inject\<close> as arithmetic on the value of \<open>rand()\<close>: when an entry of the queue
  fires, and which error number is drawn.
\<close>

section \<open>Draws\<close>

lemma smod_nonneg: "0 \<le> (r :: int) \<Longrightarrow> 0 < n \<Longrightarrow> r smod n = r mod n"
  by (simp add: signed_modulo_int_def signed_divide_int_def sgn_if minus_mult_div_eq_mod)

lemma rand_range_eq:
  assumes "rand_nonneg env" and "a \<le> b"
  shows "rand_range env a b w = (fst (e_rand env (w_os w)) mod (b - a + 1) + a, snd (c_rand env w))"
proof -
  have "0 \<le> fst (e_rand env (w_os w))"
    using assms(1) by (simp add: rand_nonneg_def)
  then show ?thesis
    using assms(2) by (simp add: rand_range_def case_prod_unfold smod_nonneg)
qed

lemma rand_range_bounds:
  assumes "rand_nonneg env" and "a \<le> b"
  shows "a \<le> fst (rand_range env a b w) \<and> fst (rand_range env a b w) \<le> b"
  using assms pos_mod_bound [of "b - a + 1" "fst (e_rand env (w_os w))"]
  by (simp add: rand_range_eq)

text \<open>The percentage \<open>error_inject\<close> draws for an entry.\<close>

definition draw :: "'os env \<Rightarrow> 'os world \<Rightarrow> int" where
  "draw env w = fst (e_rand env (w_os w)) mod 101"

lemma draw_bounds: "0 \<le> draw env w \<and> draw env w \<le> 100"
  using pos_mod_bound [of 101 "fst (e_rand env (w_os w))"] by (simp add: draw_def)

lemma word_le_of_int:
  assumes "0 \<le> p" and "p \<le> 100"
  shows "(word_of_int p :: 32 word) \<le> x \<longleftrightarrow> p \<le> uint x"
  using assms by (simp add: word_le_def uint_word_of_int)

lemma inject_loop_step:
  assumes "rand_nonneg env"
  shows "inject_loop env path op opn (err # es) rc w =
    (if draw env w \<le> uint (probability err) \<and> applies env err path opn
     then and_then (trigger env op err rc (snd (c_rand env w)))
            (\<lambda>(rc, w). inject_loop env path op opn es rc w)
     else inject_loop env path op opn es rc (snd (c_rand env w)))"
  using draw_bounds [of env w] rand_range_eq [OF assms, of 0 100 w]
  by (simp add: errinj_consts draw_def word_le_of_int)

section \<open>Random error numbers\<close>

lemma op_random_errno_eq:
  fixes w :: "'os world"
  assumes "rand_nonneg env" and "op_array (e_build env) op = Some a"
    and "errno_table (b_platform (e_build env)) a = Some tbl"
  defines "i \<equiv> nat (fst (e_rand env (w_os w)) mod (int (length tbl) + 1))"
  shows "op_random_errno env op w =
    (if i < length tbl then Inr (e_errno env (tbl ! i), snd (c_rand env w)) else Inl Read_oob)"
proof -
  let ?m = "fst (e_rand env (w_os w)) mod (int (length tbl) + 1)"
  have "rand_range env 0 (int (length tbl)) w = (?m, snd (c_rand env w))"
    using rand_range_eq [OF assms(1), of 0 "int (length tbl)" w] by simp
  moreover have "0 \<le> ?m" and "?m < int (length tbl) \<longleftrightarrow> i < length tbl"
    by (simp_all add: i_def nat_less_iff)
  ultimately show ?thesis
    using assms(2,3) by (simp add: op_random_errno_def RANDOM_ELEMENT_def i_def)
qed

section \<open>Requests on other files\<close>

lemma error_inject_other_path:
  assumes "\<not> mutex (w_conf w)" and "path \<noteq> config_path (w_conf w)"
    and "op \<in> set (fuse_ops (e_build env))"
  shows "error_inject env path op w =
    (case errors (w_conf w) of
       None \<Rightarrow> Inr (0, w)
     | Some q \<Rightarrow> and_then (inject_loop env path op (op_label op) (q_entries q) 0 (set_mutex True w))
                  (\<lambda>(rc, w). Inr (rc, set_mutex False w)))"
proof -
  have "set_mutex False (set_mutex True w) = w"
    using assms(1) by (simp add: set_mutex_def)
  then show ?thesis
    using assms op_name_label [OF assms(3)]
    by (auto simp: error_inject_def Let_def set_mutex_def split: option.splits)
qed

end
