(* ===== verification/Dispatch.thy ===== *)
theory Dispatch
  imports Ops Errinj_Spec
begin

text \<open>
  The table \<open>unreliable_ops\<close> (\<^verbatim>\<open>unreliablefs.c\<close>) through which FUSE reaches the operations, and
  what holds for every one of them.

  A request is a callback with its arguments.  The contract an operation owes the injector is the
  locale \<open>injected_op\<close>: a fault of the injector is its fault, a suppressed call returns 0 and an
  injected code comes back as it is, both with the output argument as the caller left it, and what
  runs after the injector leaves the process state alone.  The contract is proved for the table,
  that is, for all callbacks; the facts about sequences of requests follow from it.
\<close>

section \<open>Requests\<close>

datatype 'b fuse_request =
    Req_getattr string stat
  | Req_readlink string buf nat
  | Req_mknod string int int
  | Req_mkdir string int
  | Req_unlink string
  | Req_rmdir string
  | Req_symlink string string
  | Req_rename string string
  | Req_link string string
  | Req_chmod string int
  | Req_chown string int int
  | Req_truncate string int
  | Req_open string "fuse_file_info option"
  | Req_read string buf nat int "fuse_file_info option"
  | Req_write string string nat int "fuse_file_info option"
  | Req_statfs string opaque
  | Req_flush string "fuse_file_info option"
  | Req_release string "fuse_file_info option"
  | Req_fsync string int "fuse_file_info option"
  | Req_setxattr string string string nat int
  | Req_getxattr string string buf nat
  | Req_listxattr string buf nat
  | Req_removexattr string string
  | Req_opendir string "fuse_file_info option"
  | Req_readdir string 'b "'b fuse_fill_dir" int "fuse_file_info option"
  | Req_releasedir string "fuse_file_info option"
  | Req_fsyncdir string int "fuse_file_info option"
  | Req_access string int
  | Req_create string int "fuse_file_info option"
  | Req_ftruncate string int "fuse_file_info option"
  | Req_fgetattr string stat "fuse_file_info option"
  | Req_lock string "fuse_file_info option" int opaque
  | Req_ioctl string int opaque "fuse_file_info option"
  | Req_flock string "fuse_file_info option" int
  | Req_fallocate string int int int "fuse_file_info option"
  | Req_utimens string opaque

text \<open>What the caller finds in the output argument afterwards.\<close>

datatype 'b fuse_out =
    Out_none
  | Out_stat stat
  | Out_buf buf
  | Out_fi "fuse_file_info option"
  | Out_opaque opaque
  | Out_dir 'b

type_synonym ('o, 'os) reply = "(int \<times> 'o \<times> 'os world) res"

definition map_out :: "('o \<Rightarrow> 'p) \<Rightarrow> ('os world \<Rightarrow> ('o, 'os) reply) \<Rightarrow> 'os world \<Rightarrow> ('p, 'os) reply"
where
  "map_out g f w = and_then (f w) (\<lambda>(ret, out, w). Inr (ret, g out, w))"

definition when_built :: "bool \<Rightarrow> 'a \<Rightarrow> 'a option" where
  "when_built c x = (if c then Some x else None)"

abbreviation none_out :: "unit \<Rightarrow> 'b fuse_out" where
  "none_out \<equiv> \<lambda>_. Out_none"

section \<open>The table of callbacks\<close>

text \<open>
  \<open>None\<close> where the build leaves the member null.  The members \<open>init\<close> and \<open>destroy\<close> answer no request:
  they are \<open>unreliable_init\<close> and \<open>unreliable_destroy\<close> of Ops, which do nothing.
\<close>

fun unreliable_ops ::
    "'os env \<Rightarrow> 'b fuse_request \<Rightarrow> ('os world \<Rightarrow> ('b fuse_out, 'os) reply) option" where
  "unreliable_ops env (Req_getattr p st) = Some (map_out Out_stat (unreliable_getattr env p st))"
| "unreliable_ops env (Req_readlink p b n) = Some (map_out Out_buf (unreliable_readlink env p b n))"
| "unreliable_ops env (Req_mknod p m d) = Some (map_out none_out (unreliable_mknod env p m d))"
| "unreliable_ops env (Req_mkdir p m) = Some (map_out none_out (unreliable_mkdir env p m))"
| "unreliable_ops env (Req_unlink p) = Some (map_out none_out (unreliable_unlink env p))"
| "unreliable_ops env (Req_rmdir p) = Some (map_out none_out (unreliable_rmdir env p))"
| "unreliable_ops env (Req_symlink t l) = Some (map_out none_out (unreliable_symlink env t l))"
| "unreliable_ops env (Req_rename p q) = Some (map_out none_out (unreliable_rename env p q))"
| "unreliable_ops env (Req_link p q) = Some (map_out none_out (unreliable_link env p q))"
| "unreliable_ops env (Req_chmod p m) = Some (map_out none_out (unreliable_chmod env p m))"
| "unreliable_ops env (Req_chown p u g) = Some (map_out none_out (unreliable_chown env p u g))"
| "unreliable_ops env (Req_truncate p n) = Some (map_out none_out (unreliable_truncate env p n))"
| "unreliable_ops env (Req_open p fi) = Some (map_out Out_fi (unreliable_open env p fi))"
| "unreliable_ops env (Req_read p b n off fi) = Some (map_out Out_buf (unreliable_read env p b n off fi))"
| "unreliable_ops env (Req_write p s n off fi) = Some (map_out none_out (unreliable_write env p s n off fi))"
| "unreliable_ops env (Req_statfs p b) = Some (map_out Out_opaque (unreliable_statfs env p b))"
| "unreliable_ops env (Req_flush p fi) = Some (map_out none_out (unreliable_flush env p fi))"
| "unreliable_ops env (Req_release p fi) = Some (map_out none_out (unreliable_release env p fi))"
| "unreliable_ops env (Req_fsync p ds fi) = Some (map_out none_out (unreliable_fsync env p ds fi))"
| "unreliable_ops env (Req_setxattr p nm v n fl) =
     when_built (HAVE_XATTR (e_build env)) (map_out none_out (unreliable_setxattr env p nm v n fl))"
| "unreliable_ops env (Req_getxattr p nm v n) =
     when_built (HAVE_XATTR (e_build env)) (map_out Out_buf (unreliable_getxattr env p nm v n))"
| "unreliable_ops env (Req_listxattr p l n) =
     when_built (HAVE_XATTR (e_build env)) (map_out Out_buf (unreliable_listxattr env p l n))"
| "unreliable_ops env (Req_removexattr p nm) =
     when_built (HAVE_XATTR (e_build env)) (map_out none_out (unreliable_removexattr env p nm))"
| "unreliable_ops env (Req_opendir p fi) = Some (map_out Out_fi (unreliable_opendir env p fi))"
| "unreliable_ops env (Req_readdir p b filler off fi) =
     Some (map_out Out_dir (unreliable_readdir env p b filler off fi))"
| "unreliable_ops env (Req_releasedir p fi) = Some (map_out none_out (unreliable_releasedir env p fi))"
| "unreliable_ops env (Req_fsyncdir p ds fi) = Some (map_out none_out (unreliable_fsyncdir env p ds fi))"
| "unreliable_ops env (Req_access p m) = Some (map_out none_out (unreliable_access env p m))"
| "unreliable_ops env (Req_create p m fi) = Some (map_out Out_fi (unreliable_create env p m fi))"
| "unreliable_ops env (Req_ftruncate p n fi) = Some (map_out none_out (unreliable_ftruncate env p n fi))"
| "unreliable_ops env (Req_fgetattr p st fi) = Some (map_out Out_stat (unreliable_fgetattr env p st fi))"
| "unreliable_ops env (Req_lock p fi cmd fl) = Some (map_out Out_opaque (unreliable_lock env p fi cmd fl))"
| "unreliable_ops env (Req_ioctl p cmd arg fi) =
     when_built (\<not> is_openbsd (e_build env)) (map_out Out_opaque (unreliable_ioctl env p cmd arg fi))"
| "unreliable_ops env (Req_flock p fi op) =
     when_built (HAVE_FLOCK (e_build env)) (map_out none_out (unreliable_flock env p fi op))"
| "unreliable_ops env (Req_fallocate p m off n fi) =
     when_built (HAVE_FALLOCATE (e_build env)) (map_out none_out (unreliable_fallocate env p m off n fi))"
| "unreliable_ops env (Req_utimens p ts) =
     when_built (HAVE_UTIMENSAT (e_build env)) (map_out none_out (unreliable_utimens env p ts))"

text \<open>The path and the enumerator a callback hands to the injector, and its output argument.\<close>

fun req_path :: "'b fuse_request \<Rightarrow> string" where
  "req_path (Req_getattr p _) = p"
| "req_path (Req_readlink p _ _) = p"
| "req_path (Req_mknod p _ _) = p"
| "req_path (Req_mkdir p _) = p"
| "req_path (Req_unlink p) = p"
| "req_path (Req_rmdir p) = p"
| "req_path (Req_symlink target _) = target"
| "req_path (Req_rename old _) = old"
| "req_path (Req_link old _) = old"
| "req_path (Req_chmod p _) = p"
| "req_path (Req_chown p _ _) = p"
| "req_path (Req_truncate p _) = p"
| "req_path (Req_open p _) = p"
| "req_path (Req_read p _ _ _ _) = p"
| "req_path (Req_write p _ _ _ _) = p"
| "req_path (Req_statfs p _) = p"
| "req_path (Req_flush p _) = p"
| "req_path (Req_release p _) = p"
| "req_path (Req_fsync p _ _) = p"
| "req_path (Req_setxattr p _ _ _ _) = p"
| "req_path (Req_getxattr p _ _ _) = p"
| "req_path (Req_listxattr p _ _) = p"
| "req_path (Req_removexattr p _) = p"
| "req_path (Req_opendir p _) = p"
| "req_path (Req_readdir p _ _ _ _) = p"
| "req_path (Req_releasedir p _) = p"
| "req_path (Req_fsyncdir p _ _) = p"
| "req_path (Req_access p _) = p"
| "req_path (Req_create p _ _) = p"
| "req_path (Req_ftruncate p _ _) = p"
| "req_path (Req_fgetattr p _ _) = p"
| "req_path (Req_lock p _ _ _) = p"
| "req_path (Req_ioctl p _ _ _) = p"
| "req_path (Req_flock p _ _) = p"
| "req_path (Req_fallocate p _ _ _ _) = p"
| "req_path (Req_utimens p _) = p"

fun req_op :: "'b fuse_request \<Rightarrow> fuse_op" where
  "req_op (Req_getattr _ _) = OP_GETATTR"
| "req_op (Req_readlink _ _ _) = OP_READLINK"
| "req_op (Req_mknod _ _ _) = OP_MKNOD"
| "req_op (Req_mkdir _ _) = OP_MKDIR"
| "req_op (Req_unlink _) = OP_UNLINK"
| "req_op (Req_rmdir _) = OP_RMDIR"
| "req_op (Req_symlink _ _) = OP_SYMLINK"
| "req_op (Req_rename _ _) = OP_RENAME"
| "req_op (Req_link _ _) = OP_LINK"
| "req_op (Req_chmod _ _) = OP_CHMOD"
| "req_op (Req_chown _ _ _) = OP_CHOWN"
| "req_op (Req_truncate _ _) = OP_TRUNCATE"
| "req_op (Req_open _ _) = OP_OPEN"
| "req_op (Req_read _ _ _ _ _) = OP_READ"
| "req_op (Req_write _ _ _ _ _) = OP_WRITE"
| "req_op (Req_statfs _ _) = OP_STATFS"
| "req_op (Req_flush _ _) = OP_FLUSH"
| "req_op (Req_release _ _) = OP_RELEASE"
| "req_op (Req_fsync _ _ _) = OP_FSYNC"
| "req_op (Req_setxattr _ _ _ _ _) = OP_SETXATTR"
| "req_op (Req_getxattr _ _ _ _) = OP_GETXATTR"
| "req_op (Req_listxattr _ _ _) = OP_LISTXATTR"
| "req_op (Req_removexattr _ _) = OP_REMOVEXATTR"
| "req_op (Req_opendir _ _) = OP_OPENDIR"
| "req_op (Req_readdir _ _ _ _ _) = OP_READDIR"
| "req_op (Req_releasedir _ _) = OP_RELEASEDIR"
| "req_op (Req_fsyncdir _ _ _) = OP_FSYNCDIR"
| "req_op (Req_access _ _) = OP_ACCESS"
| "req_op (Req_create _ _ _) = OP_CREAT"
| "req_op (Req_ftruncate _ _ _) = OP_FTRUNCATE"
| "req_op (Req_fgetattr _ _ _) = OP_FGETATTR"
| "req_op (Req_lock _ _ _ _) = OP_LOCK"
| "req_op (Req_ioctl _ _ _ _) = OP_IOCTL"
| "req_op (Req_flock _ _ _) = OP_FLOCK"
| "req_op (Req_fallocate _ _ _ _ _) = OP_FALLOCATE"
| "req_op (Req_utimens _ _) = OP_UTIMENS"

fun req_out :: "'b fuse_request \<Rightarrow> 'b fuse_out" where
  "req_out (Req_getattr _ st) = Out_stat st"
| "req_out (Req_readlink _ b _) = Out_buf b"
| "req_out (Req_open _ fi) = Out_fi fi"
| "req_out (Req_read _ b _ _ _) = Out_buf b"
| "req_out (Req_statfs _ b) = Out_opaque b"
| "req_out (Req_getxattr _ _ v _) = Out_buf v"
| "req_out (Req_listxattr _ l _) = Out_buf l"
| "req_out (Req_opendir _ fi) = Out_fi fi"
| "req_out (Req_readdir _ b _ _ _) = Out_dir b"
| "req_out (Req_create _ _ fi) = Out_fi fi"
| "req_out (Req_fgetattr _ st _) = Out_stat st"
| "req_out (Req_lock _ _ _ fl) = Out_opaque fl"
| "req_out (Req_ioctl _ _ arg _) = Out_opaque arg"
| "req_out _ = Out_none"

text \<open>What each callback does once the injector lets it pass.\<close>

fun native :: "'os env \<Rightarrow> 'b fuse_request \<Rightarrow> 'os world \<Rightarrow> ('b fuse_out, 'os) reply" where
  "native env (Req_getattr p st) = map_out Out_stat (lstat_body env p)"
| "native env (Req_readlink p b n) = map_out Out_buf (readlink_body env p b n)"
| "native env (Req_mknod p m d) = map_out none_out (call0 env (Mknod p m d) ())"
| "native env (Req_mkdir p m) = map_out none_out (call0 env (Mkdir p m) ())"
| "native env (Req_unlink p) = map_out none_out (call0 env (Unlink p) ())"
| "native env (Req_rmdir p) = map_out none_out (call0 env (Rmdir p) ())"
| "native env (Req_symlink t l) = map_out none_out (call0 env (Symlink t l) ())"
| "native env (Req_rename p q) = map_out none_out (call0 env (Rename p q) ())"
| "native env (Req_link p q) = map_out none_out (call0_neg env (Link p q) ())"
| "native env (Req_chmod p m) = map_out none_out (call0_neg env (Chmod p m) ())"
| "native env (Req_chown p u g) = map_out none_out (call0 env (Chown p u g) ())"
| "native env (Req_truncate p n) = map_out none_out (call0 env (Truncate p n) ())"
| "native env (Req_open p fi) = map_out Out_fi (open_body env p fi)"
| "native env (Req_read p b n off fi) = map_out Out_buf (read_body env p b n off fi)"
| "native env (Req_write p s n off fi) = map_out none_out (write_body env p s n off fi)"
| "native env (Req_statfs p b) = map_out Out_opaque (statfs_body env p b)"
| "native env (Req_flush p fi) = map_out none_out (flush_body env p fi)"
| "native env (Req_release p fi) = map_out none_out (release_body env p fi)"
| "native env (Req_fsync p ds fi) = map_out none_out (fsync_body env p ds fi)"
| "native env (Req_setxattr p nm v n fl) =
     map_out none_out (call0 env (Setxattr p nm v n (if is_apple env then Some 0 else None) fl) ())"
| "native env (Req_getxattr p nm v n) = map_out Out_buf (getxattr_body env p nm v n)"
| "native env (Req_listxattr p l n) = map_out Out_buf (listxattr_body env p l n)"
| "native env (Req_removexattr p nm) =
     map_out none_out (call0 env (Removexattr p nm (if is_apple env then Some XATTR_NOFOLLOW else None)) ())"
| "native env (Req_opendir p fi) = map_out Out_fi (opendir_body env p fi)"
| "native env (Req_readdir p b filler off fi) = map_out Out_dir (readdir_body env p b filler off fi)"
| "native env (Req_releasedir p fi) = map_out none_out (releasedir_body env p fi)"
| "native env (Req_fsyncdir p ds fi) = map_out none_out (fsyncdir_body env p ds fi)"
| "native env (Req_access p m) = map_out none_out (call0 env (Access p m) ())"
| "native env (Req_create p m fi) = map_out Out_fi (create_body env p m fi)"
| "native env (Req_ftruncate p n fi) = map_out none_out (call0 env (Truncate p n) ())"
| "native env (Req_fgetattr p st fi) = map_out Out_stat (fgetattr_body env p st fi)"
| "native env (Req_lock p fi cmd fl) = map_out Out_opaque (lock_body env p fi cmd fl)"
| "native env (Req_ioctl p cmd arg fi) = map_out Out_opaque (ioctl_body env p cmd arg fi)"
| "native env (Req_flock p fi op) = map_out none_out (flock_body env p fi op)"
| "native env (Req_fallocate p m off n fi) = map_out none_out (fallocate_body env p m off n fi)"
| "native env (Req_utimens p ts) =
     map_out none_out (call0 env (Utimensat 0 p ts (e_at_nofollow env)) ())"

text \<open>The callbacks a build registers are the ones it has an enumerator for.\<close>

lemma unreliable_ops_registered:
  "unreliable_ops env r \<noteq> None \<longleftrightarrow> req_op r \<in> set (fuse_ops (e_build env))"
  by (cases r) (auto simp: when_built_def fuse_ops_def only_if_def)

section \<open>What runs after the injector leaves the process state alone\<close>

definition keeps_process :: "('os world \<Rightarrow> ('o, 'os) reply) \<Rightarrow> bool" where
  "keeps_process f \<longleftrightarrow>
     (\<forall>w ret out w'. f w = Inr (ret, out, w') \<longrightarrow> w_conf w' = w_conf w \<and> w_heap w' = w_heap w)"

lemma keeps_processI:
  "(\<And>w ret out w'. f w = Inr (ret, out, w') \<Longrightarrow> w_conf w' = w_conf w \<and> w_heap w' = w_heap w) \<Longrightarrow>
   keeps_process f"
  by (auto simp: keeps_process_def)

lemma do_sys_process [simp]:
  "w_conf (snd (snd (do_sys env c w))) = w_conf w" "w_heap (snd (snd (do_sys env c w))) = w_heap w"
  by (simp_all add: do_sys_def case_prod_unfold)

lemma close_if_null_process [simp]:
  "w_conf (close_if_null env fd fi w) = w_conf w" "w_heap (close_if_null env fd fi w) = w_heap w"
  by (simp_all add: close_if_null_def split: option.splits)

lemma fd_for_process [simp]:
  "w_conf (snd (fd_for env p fl fi w)) = w_conf w" "w_heap (snd (fd_for env p fl fi w)) = w_heap w"
  by (simp_all add: fd_for_def case_prod_unfold split: option.splits)

lemma readdir_loop_process:
  assumes "readdir_loop env filler dp buf w = Some r"
  shows "w_conf (snd r) = w_conf w \<and> w_heap (snd r) = w_heap w"
  using assms
proof (induction rule: readdir_loop.raw_induct [rotated, consumes 1])
  case (1 loop env filler dp buf w r)
  obtain ret d w1 where c: "do_sys env (Readdir dp) w = (ret, d, w1)"
    by (metis prod_cases3)
  with 1(2) do_sys_frame [OF c] show ?case
    by (auto split: if_splits payload.splits prod.splits dest!: 1(1))
qed

lemmas body_defs = call0_def call0_neg_def lstat_body_def with_fi_def case_prod_unfold Let_def

lemma keeps_process_call0 [simp]:
  "keeps_process (call0 env c out)" "keeps_process (call0_neg env c out)"
  "keeps_process (lstat_body env path)"
  by (auto simp: keeps_process_def body_defs split: if_splits)

lemma keeps_process_map_out: "keeps_process f \<Longrightarrow> keeps_process (map_out g f)"
  by (fastforce simp: keeps_process_def map_out_def res_iff)

lemma map_out_with_injection:
  "map_out g (with_injection env path op out body) =
     with_injection env path op (g out) (map_out g body)"
  by (rule ext) (auto simp: map_out_def with_injection_def and_then_assoc case_prod_unfold
      intro!: and_then_cong)

section \<open>The contract\<close>

text \<open>
  \<open>f\<close> asks the injector about \<open>path\<close> and \<open>op\<close> first and obeys it; \<open>native\<close> is what it does
  otherwise.
\<close>

locale injected_op =
  fixes env :: "'os env" and path :: string and op :: fuse_op and out :: 'o
    and f native :: "'os world \<Rightarrow> ('o, 'os) reply"
  assumes guarded: "f = with_injection env path op out native"
    and native_process: "keeps_process native"
begin

lemma faulted: "error_inject env path op w = Inl e \<Longrightarrow> f w = Inl e"
  by (simp add: guarded with_injection_def)

lemma suppressed: "error_inject env path op w = Inr (- ERRNO_NOOP, w') \<Longrightarrow> f w = Inr (0, out, w')"
  by (simp add: guarded with_injection_def)

lemma injected:
  "error_inject env path op w = Inr (rc, w') \<Longrightarrow> rc \<noteq> 0 \<Longrightarrow> rc \<noteq> - ERRNO_NOOP \<Longrightarrow>
   f w = Inr (rc, out, w')"
  by (simp add: guarded with_injection_def)

lemma passed: "error_inject env path op w = Inr (0, w') \<Longrightarrow> f w = native w'"
  by (simp add: guarded with_injection_def ERRNO_NOOP_def)

lemma process:
  assumes "f w = Inr (ret, o', w'')"
  obtains rc w' where "error_inject env path op w = Inr (rc, w')"
    and "w_conf w'' = w_conf w'" and "w_heap w'' = w_heap w'"
  using assms native_process that
  by (fastforce simp: guarded with_injection_def keeps_process_def res_iff split: if_splits)

lemma keeps_inv:
  assumes "conf_inv B w" and "\<not> mutex (w_conf w)" and "f w = Inr (ret, o', w')"
  shows "(\<exists>B'. B \<subseteq> B' \<and> conf_inv B' w') \<and> \<not> mutex (w_conf w') \<and>
    config_path (w_conf w') = config_path (w_conf w)"
proof -
  obtain rc w1 where i: "error_inject env path op w = Inr (rc, w1)"
      and "w_conf w' = w_conf w1" "w_heap w' = w_heap w1"
    using process [OF assms(3)] by blast
  then have "conf_inv B' w' \<longleftrightarrow> conf_inv B' w1" for B'
    by (simp add: conf_inv_def q_inv_def split: option.splits)
  with error_inject_inv [OF assms(1,2) i] \<open>w_conf w' = w_conf w1\<close> show ?thesis
    by simp
qed

text \<open>Without a configuration the operation is the native one.\<close>

lemma unconfigured:
  assumes "errors (w_conf w) = None" and "\<not> mutex (w_conf w)"
    and "path \<noteq> config_path (w_conf w)" and "op \<in> set (fuse_ops (e_build env))"
  shows "f w = native w"
  using passed [of w w] error_inject_other_path [OF assms(2,3,4)] assms(1) by simp

end

section \<open>The table meets the contract\<close>

lemmas op_defs =
  unreliable_getattr_def unreliable_readlink_def unreliable_mknod_def unreliable_mkdir_def
  unreliable_unlink_def unreliable_rmdir_def unreliable_symlink_def unreliable_rename_def
  unreliable_link_def unreliable_chmod_def unreliable_chown_def unreliable_truncate_def
  unreliable_open_def unreliable_read_def unreliable_write_def unreliable_statfs_def
  unreliable_flush_def unreliable_release_def unreliable_fsync_def unreliable_setxattr_def
  unreliable_getxattr_def unreliable_listxattr_def unreliable_removexattr_def
  unreliable_opendir_def unreliable_readdir_def unreliable_releasedir_def unreliable_fsyncdir_def
  unreliable_access_def unreliable_create_def unreliable_ftruncate_def unreliable_fgetattr_def
  unreliable_lock_def unreliable_ioctl_def unreliable_flock_def unreliable_fallocate_def
  unreliable_utimens_def

lemma unreliable_ops_guarded:
  assumes "unreliable_ops env r = Some f"
  shows "f = with_injection env (req_path r) (req_op r) (req_out r) (native env r)"
  using assms
  by (cases r) (auto simp: op_defs map_out_with_injection when_built_def split: if_splits)

lemma body_process:
  "keeps_process (readlink_body env path buf n)" "keeps_process (statfs_body env path vb)"
  "keeps_process (open_body env path fi)" "keeps_process (create_body env path mode fi)"
  "keeps_process (flush_body env path fi)" "keeps_process (release_body env path fi)"
  "keeps_process (fsync_body env path ds fi)" "keeps_process (fgetattr_body env path st fi)"
  "keeps_process (lock_body env path fi cmd fl)" "keeps_process (ioctl_body env path cmd arg fi)"
  "keeps_process (flock_body env path fi fop)" "keeps_process (getxattr_body env path nm buf n)"
  "keeps_process (listxattr_body env path buf n)" "keeps_process (opendir_body env path fi)"
  "keeps_process (releasedir_body env path fi)" "keeps_process (fsyncdir_body env path ds fi)"
  "keeps_process (fallocate_body env path mode off len fi)"
  "keeps_process (read_body env path buf n off fi)"
  "keeps_process (write_body env path str n off fi)"
  by (rule keeps_processI; auto simp: readlink_body_def statfs_body_def open_body_def create_body_def
      flush_body_def release_body_def fsync_body_def fgetattr_body_def lock_body_def ioctl_body_def
      flock_body_def getxattr_body_def listxattr_body_def opendir_body_def releasedir_body_def
      fsyncdir_body_def fallocate_body_def read_body_def write_body_def body_defs res_iff
      split: if_splits option.splits)+

lemma readdir_body_process: "keeps_process (readdir_body env path buf filler off fi)"
  by (rule keeps_processI)
    (auto simp: readdir_body_def body_defs split: if_splits option.splits dest!: readdir_loop_process)

lemma native_process: "keeps_process (native env r)"
  by (cases r) (auto intro!: keeps_process_map_out body_process readdir_body_process)

lemma unreliable_ops_contract:
  "unreliable_ops env r = Some f \<Longrightarrow>
   injected_op env (req_path r) (req_op r) (req_out r) f (native env r)"
  by unfold_locales (simp_all add: native_process unreliable_ops_guarded)

lemmas callback_suppressed = injected_op.suppressed [OF unreliable_ops_contract]
  and callback_injected = injected_op.injected [OF unreliable_ops_contract]
  and callback_passed = injected_op.passed [OF unreliable_ops_contract]
  and callback_faulted = injected_op.faulted [OF unreliable_ops_contract]
  and callback_process = injected_op.process [OF unreliable_ops_contract]
  and callback_keeps_inv = injected_op.keeps_inv [OF unreliable_ops_contract]
  and callback_unconfigured = injected_op.unconfigured [OF unreliable_ops_contract]

text \<open>\<open>unreliable_lstat\<close> is not in the table; it meets the contract as well.\<close>

interpretation lstat_op: injected_op env path OP_LSTAT st "unreliable_lstat env path st"
  "lstat_body env path" for env path st
  by unfold_locales (simp_all add: unreliable_lstat_def)

lemma callback_op: "unreliable_ops env r = Some f \<Longrightarrow> req_op r \<in> set (fuse_ops (e_build env))"
  using unreliable_ops_registered [of env r] by simp

section \<open>Sequences of requests\<close>

text \<open>FUSE calls back once per request; the state is the world the last call left.\<close>

inductive fs_run ::
    "'os env \<Rightarrow> 'os world \<Rightarrow> ('b fuse_request \<times> int \<times> 'b fuse_out) list \<Rightarrow> 'os world \<Rightarrow> bool" for env
where
  run_start: "fs_run env w [] w"
| run_call: "fs_run env w tr w' \<Longrightarrow> unreliable_ops env r = Some f \<Longrightarrow> f w' = Inr (ret, out, w'') \<Longrightarrow>
     fs_run env w (tr @ [(r, ret, out)]) w''"

inductive_cases fs_run_snocE: "fs_run env w (tr @ [(r, ret, out)]) w''"
inductive_simps fs_run_Nil [simp]: "fs_run env w [] w'"

lemma fs_run_inv:
  assumes "fs_run env w tr w'" and "conf_inv B w" and "\<not> mutex (w_conf w)"
  shows "(\<exists>B'. B \<subseteq> B' \<and> conf_inv B' w') \<and> \<not> mutex (w_conf w') \<and>
    config_path (w_conf w') = config_path (w_conf w)"
  using assms
proof (induction rule: fs_run.induct)
  case (run_call w tr w' r f ret out w'')
  then obtain B' where "B \<subseteq> B'" "conf_inv B' w'" "\<not> mutex (w_conf w')"
      "config_path (w_conf w') = config_path (w_conf w)"
    by auto
  then show ?case
    using callback_keeps_inv [OF run_call.hyps(2) _ _ run_call.hyps(3)] by (metis subset_trans)
qed auto

text \<open>The injections themselves change only when the configuration file's path is in a request.\<close>

lemma callback_errors:
  assumes "unreliable_ops env r = Some f" and "f w = Inr (ret, out, w')"
    and "req_path r \<noteq> config_path (w_conf w)"
  shows "errors (w_conf w') = errors (w_conf w)"
proof -
  obtain rc w1 where "error_inject env (req_path r) (req_op r) w = Inr (rc, w1)"
      and "w_conf w' = w_conf w1"
    using callback_process [OF assms(1,2)] by blast
  with inject_ok [OF assms(3)] show ?thesis by auto
qed

text \<open>The next callback never stops on the mutex and never frees memory it does not own.\<close>

lemma callback_faults:
  assumes "unreliable_ops env r = Some f" and "conf_inv B w" and "\<not> mutex (w_conf w)"
    and "error_inject env (req_path r) (req_op r) w = Inl e"
  shows "e = Read_oob \<and> req_path r \<noteq> config_path (w_conf w)"
  using error_inject_faults [OF assms(2,3) callback_op [OF assms(1)] assms(4)] .

end
