(* ===== verification/Ops_Spec.thy ===== *)
theory Ops_Spec
  imports Dispatch
begin

text \<open>
  What the operations do once the injector lets them pass: descriptors and handles, the calls that
  are forwarded one to one, memory, descriptors that are closed again, and directory listings.
  What the operations rely on from the operating system is stated as predicates on the environment
  (\<open>sys_results\<close>, \<open>sys_lengths\<close>, \<open>fd_kernel\<close>, \<open>delivers\<close>), each from the manual pages of the calls.
\<close>

section \<open>Handles\<close>

text \<open>A descriptor survives the way through \<open>fi->fh\<close>.\<close>

lemma fd_of_fh_of_fd:
  assumes "- (2 ^ 31) \<le> fd" and "fd < 2 ^ 31"
  shows "fd_of_fh (fh_of_fd fd) = fd"
proof -
  have "(ucast (word_of_int fd :: 64 word) :: 32 word) = word_of_int fd"
    by (rule bit_word_eqI) (simp add: bit_simps)
  then show ?thesis
    using assms by (simp add: fd_of_fh_def fh_of_fd_def sint32_of_int)
qed

section \<open>Calls that are forwarded\<close>

text \<open>\<open>-1\<close> is the only negative value these calls return.\<close>

definition sys_results :: "'os env \<Rightarrow> bool" where
  "sys_results env \<longleftrightarrow> (\<forall>c s. -1 \<le> sr_ret (fst (e_sys env c s)))"

text \<open>The requests that amount to one call without an output argument.\<close>

fun forwarded :: "'os env \<Rightarrow> 'b fuse_request \<Rightarrow> syscall option" where
  "forwarded env (Req_mknod p m d) = Some (Mknod p m d)"
| "forwarded env (Req_mkdir p m) = Some (Mkdir p m)"
| "forwarded env (Req_unlink p) = Some (Unlink p)"
| "forwarded env (Req_rmdir p) = Some (Rmdir p)"
| "forwarded env (Req_symlink t l) = Some (Symlink t l)"
| "forwarded env (Req_rename p q) = Some (Rename p q)"
| "forwarded env (Req_link p q) = Some (Link p q)"
| "forwarded env (Req_chmod p m) = Some (Chmod p m)"
| "forwarded env (Req_chown p u g) = Some (Chown p u g)"
| "forwarded env (Req_truncate p n) = Some (Truncate p n)"
| "forwarded env (Req_release p (Some i)) = Some (Close (fd_of_fh (fi_fh i)))"
| "forwarded env (Req_fsync p ds (Some i)) =
     Some (if ds \<noteq> 0 then Fdatasync (fd_of_fh (fi_fh i)) else Fsync (fd_of_fh (fi_fh i)))"
| "forwarded env (Req_setxattr p nm v n fl) =
     Some (Setxattr p nm v n (if is_apple env then Some 0 else None) fl)"
| "forwarded env (Req_removexattr p nm) =
     Some (Removexattr p nm (if is_apple env then Some XATTR_NOFOLLOW else None))"
| "forwarded env (Req_releasedir p (Some i)) = Some (Closedir (fi_fh i))"
| "forwarded env (Req_access p m) = Some (Access p m)"
| "forwarded env (Req_ftruncate p n fi) = Some (Truncate p n)"
| "forwarded env (Req_flock p (Some i) op) = Some (Flock (fd_of_fh (fi_fh i)) op)"
| "forwarded env (Req_utimens p ts) = Some (Utimensat 0 p ts (e_at_nofollow env))"
| "forwarded env _ = None"

text \<open>The return value of a call the way FUSE wants it.\<close>

definition fuse_ret :: "sysret \<Rightarrow> int" where
  "fuse_ret r = (if sr_ret r = -1 then - sr_errno r else 0)"

lemma call0_eq:
  assumes "\<And>p. c \<noteq> Opendir p" and "\<And>d. c \<noteq> Readdir d"
  shows "map_out none_out (call0 env c ()) w =
    Inr (fuse_ret (fst (e_sys env c (w_os w))), Out_none, snd (snd (do_sys env c w)))"
  using assms
  by (cases c) (auto simp: map_out_def call0_def do_sys_def fuse_ret_def sys_fails_def case_prod_unfold)

lemma call0_neg_eq:
  assumes "sys_results env"
  shows "call0_neg env c out = call0 env c out"
proof
  fix w :: "'a world"
  have "-1 \<le> sr_ret (fst (e_sys env c (w_os w)))"
    using assms by (simp add: sys_results_def)
  then show "call0_neg env c out w = call0 env c out w"
    by (auto simp: call0_def call0_neg_def do_sys_def case_prod_unfold)
qed

text \<open>The handle of \<open>releasedir\<close> must be an open stream; every other call takes what it is given.\<close>

fun stream_ok :: "'os env \<Rightarrow> 'b fuse_request \<Rightarrow> 'os world \<Rightarrow> bool" where
  "stream_ok env (Req_releasedir p (Some i)) w \<longleftrightarrow> e_stream env (w_os w) (fi_fh i)"
| "stream_ok env _ w \<longleftrightarrow> True"

lemma native_bad_stream: "\<not> stream_ok env r w \<Longrightarrow> native env r w = Inl Bad_stream"
  by (cases "(env, r, w)" rule: stream_ok.cases) (simp_all add: releasedir_body_def map_out_def with_fi_def)

lemma native_forwarded:
  assumes "sys_results env" and "forwarded env r = Some c" and "stream_ok env r w"
  shows "native env r w =
    Inr (fuse_ret (fst (e_sys env c (w_os w))), Out_none, snd (snd (do_sys env c w)))"
proof -
  have "(\<forall>p. c \<noteq> Opendir p) \<and> (\<forall>d. c \<noteq> Readdir d) \<and> native env r w = map_out none_out (call0 env c ()) w"
    using assms
    by (cases "(env, r)" rule: forwarded.cases)
      (auto simp: call0_neg_eq release_body_def fsync_body_def releasedir_body_def flock_body_def
        with_fi_def map_out_def)
  then show ?thesis
    by (simp add: call0_eq)
qed

section \<open>Memory\<close>

text \<open>
  The calls that fill a buffer store no more bytes than they were told the buffer has
  (\<open>readlink(2)\<close>, \<open>pread(2)\<close>, \<open>getxattr(2)\<close>, \<open>listxattr(2)\<close>), and \<open>readlink\<close> returns how many.
\<close>

fun room :: "syscall \<Rightarrow> nat" where
  "room (Readlink p n) = n"
| "room (Pread fd n off) = n"
| "room (Getxattr p nm n x) = n"
| "room (Listxattr p n x) = n"
| "room _ = 0"

fun stored :: "payload \<Rightarrow> nat" where
  "stored (Bytes s) = length s"
| "stored _ = 0"

definition sys_lengths :: "'os env \<Rightarrow> bool" where
  "sys_lengths env \<longleftrightarrow>
     (\<forall>c s. stored (sr_data (fst (e_sys env c s))) \<le> room c) \<and>
     (\<forall>p n s. sr_ret (fst (e_sys env (Readlink p n) s)) \<noteq> -1 \<longrightarrow>
        sr_ret (fst (e_sys env (Readlink p n) s)) = int (stored (sr_data (fst (e_sys env (Readlink p n) s)))))"

text \<open>
  What FUSE promises of the arguments: the buffer is as long as it says (for \<open>readlink\<close> that is
  \<open>PATH_MAX\<close>, which fits in an \<open>int\<close>), there are as many bytes as it says to write, and there is a
  \<open>fuse_file_info\<close> for the operations on open files.
\<close>

fun req_wf :: "'b fuse_request \<Rightarrow> bool" where
  "req_wf (Req_readlink p b n) \<longleftrightarrow> length b = n \<and> n < 2 ^ 31"
| "req_wf (Req_read p b n off fi) \<longleftrightarrow> length b = n"
| "req_wf (Req_write p s n off fi) \<longleftrightarrow> n \<le> length s"
| "req_wf (Req_getxattr p nm v n) \<longleftrightarrow> length v = n"
| "req_wf (Req_listxattr p l n) \<longleftrightarrow> length l = n"
| "req_wf (Req_open p fi) \<longleftrightarrow> fi \<noteq> None"
| "req_wf (Req_flush p fi) \<longleftrightarrow> fi \<noteq> None"
| "req_wf (Req_release p fi) \<longleftrightarrow> fi \<noteq> None"
| "req_wf (Req_fsync p ds fi) \<longleftrightarrow> fi \<noteq> None"
| "req_wf (Req_opendir p fi) \<longleftrightarrow> fi \<noteq> None"
| "req_wf (Req_releasedir p fi) \<longleftrightarrow> fi \<noteq> None"
| "req_wf (Req_create p m fi) \<longleftrightarrow> fi \<noteq> None"
| "req_wf (Req_fgetattr p st fi) \<longleftrightarrow> fi \<noteq> None"
| "req_wf (Req_lock p fi cmd fl) \<longleftrightarrow> fi \<noteq> None"
| "req_wf (Req_ioctl p cmd arg fi) \<longleftrightarrow> fi \<noteq> None"
| "req_wf (Req_flock p fi op) \<longleftrightarrow> fi \<noteq> None"
| "req_wf (Req_fallocate p m off n fi) \<longleftrightarrow> fi \<noteq> None"
| "req_wf _ \<longleftrightarrow> True"

lemma fill_ok:
  assumes "stored d \<le> length b"
  obtains b' where "fill b d = Inr b'" and "length b' = length b"
  using assms by (cases d) (auto simp: fill_def that)

lemma do_sys_stored:
  "sys_lengths env \<Longrightarrow> do_sys env c w = (ret, d, w') \<Longrightarrow> stored d \<le> room c"
  by (auto simp: sys_lengths_def do_sys_def split: prod.splits) (metis fst_conv)

lemma readlink_ret:
  "sys_lengths env \<Longrightarrow> do_sys env (Readlink p n) w = (ret, d, w') \<Longrightarrow> ret \<noteq> -1 \<Longrightarrow> ret = int (stored d)"
  by (auto simp: sys_lengths_def do_sys_def split: prod.splits) (metis fst_conv)

lemma isl_map_out [simp]: "isl (map_out g f w) \<longleftrightarrow> isl (f w)"
  by (cases "f w") (auto simp: map_out_def split: prod.splits)

lemma readlink_body_ok:
  assumes "sys_lengths env" and "length b = n" and "n < 2 ^ 31"
  shows "isl (readlink_body env p b n w) \<longleftrightarrow> fst (do_sys env (Readlink p n) w) = int n"
proof -
  obtain ret d w' where c: "do_sys env (Readlink p n) w = (ret, d, w')"
    by (metis prod_cases3)
  have "stored d \<le> length b"
    using do_sys_stored [OF assms(1) c] assms(2) by simp
  then obtain b' where "fill b d = Inr b'" "length b' = length b"
    by (rule fill_ok)
  moreover have "c_int ret = ret"
    using readlink_ret [OF assms(1) c] assms(2,3) \<open>stored d \<le> length b\<close>
    by (cases "ret = -1") (simp_all add: c_int_id)
  ultimately show ?thesis
    using c readlink_ret [OF assms(1) c] assms(2) \<open>stored d \<le> length b\<close>
    by (cases "ret = -1") (auto simp: readlink_body_def wr_def Let_def)
qed

text \<open>
  With such arguments and such a system only three things can go wrong in an operation: the
  terminating byte of \<open>readlink\<close> when the link fills the buffer, an endless directory, and
  \<open>releasedir\<close> on a handle that is no stream.
\<close>

definition native_safe :: "'os env \<Rightarrow> 'b fuse_request \<Rightarrow> 'os world \<Rightarrow> bool" where
  "native_safe env r w \<longleftrightarrow>
     (case r of
        Req_readlink p b n \<Rightarrow> fst (do_sys env (Readlink p n) w) \<noteq> int n
      | Req_readdir p b filler off fi \<Rightarrow>
          (case do_sys env (Opendir p) w of (dp, d, w) \<Rightarrow>
             dp = 0 \<or> readdir_loop env filler (word_of_int dp) b w \<noteq> None)
      | Req_releasedir p fi \<Rightarrow> stream_ok env r w
      | _ \<Rightarrow> True)"

lemma filling_body_ok:
  assumes "sys_lengths env" and "length b = n"
  shows "\<not> isl (read_body env p b n off fi w)" "\<not> isl (getxattr_body env p nm b n w)"
    "\<not> isl (listxattr_body env p b n w)"
proof -
  have f: "\<exists>b'. fill b d = Inr b'" if "do_sys env c w1 = (ret, d, w2)" "room c = n" for c w1 ret d w2
    using fill_ok [of d b] do_sys_stored [OF assms(1) that(1)] assms(2) that(2) by auto
  show "\<not> isl (read_body env p b n off fi w)"
    by (auto simp: read_body_def Let_def split: prod.splits dest!: f)
  show "\<not> isl (getxattr_body env p nm b n w)"
    by (auto simp: getxattr_body_def split: prod.splits dest!: f)
  show "\<not> isl (listxattr_body env p b n w)"
    by (auto simp: listxattr_body_def split: prod.splits dest!: f)
qed

lemma native_ok:
  assumes "sys_lengths env" and "req_wf r"
  shows "\<not> isl (native env r w) \<longleftrightarrow> native_safe env r w"
  using assms filling_body_ok [OF assms(1)]
  by (cases r) (auto simp: native_safe_def readlink_body_ok readdir_body_def open_body_def
      create_body_def flush_body_def release_body_def fsync_body_def fgetattr_body_def lock_body_def
      ioctl_body_def flock_body_def opendir_body_def releasedir_body_def fsyncdir_body_def
      fallocate_body_def write_body_def statfs_body_def body_defs split: option.splits)

section \<open>Descriptors\<close>

text \<open>
  \<open>fds s\<close> is the set of descriptors open in state \<open>s\<close>.  \<open>open\<close> and \<open>dup\<close> return one that was not
  open or \<open>-1\<close>; \<open>close\<close> gives it back whatever it returns; \<open>pread\<close> and \<open>pwrite\<close> leave the set alone.
  Nothing is said of the other calls.
\<close>

definition fd_kernel :: "'os env \<Rightarrow> ('os \<Rightarrow> int set) \<Rightarrow> bool" where
  "fd_kernel env fds \<longleftrightarrow>
     (\<forall>c s. case e_sys env c s of (r, s') \<Rightarrow>
        (case c of
           Open p fl m \<Rightarrow> if sr_ret r = -1 then fds s' = fds s
                          else sr_ret r \<notin> fds s \<and> fds s' = insert (sr_ret r) (fds s)
         | Dup fd \<Rightarrow> if sr_ret r = -1 then fds s' = fds s
                     else sr_ret r \<notin> fds s \<and> fds s' = insert (sr_ret r) (fds s)
         | Close fd \<Rightarrow> fds s' = fds s - {fd}
         | Pread fd n off \<Rightarrow> fds s' = fds s
         | Pwrite fd str n off \<Rightarrow> fds s' = fds s
         | _ \<Rightarrow> True)) \<and> (\<forall>s. -1 \<notin> fds s)"

abbreviation w_fds :: "('os \<Rightarrow> int set) \<Rightarrow> 'os world \<Rightarrow> int set" where
  "w_fds fds w \<equiv> fds (w_os w)"

lemma fd_open:
  assumes "fd_kernel env fds" and "do_sys env (Open p fl m) w = (fd, d, w')"
  shows "if fd = -1 then w_fds fds w' = w_fds fds w
         else fd \<notin> w_fds fds w \<and> w_fds fds w' = insert fd (w_fds fds w)"
  using assms unfolding fd_kernel_def do_sys_def
  by (auto split: prod.splits dest!: spec [of _ "Open p fl m"] dest: spec [of _ "w_os w"])

lemma fd_dup:
  assumes "fd_kernel env fds" and "do_sys env (Dup fd0) w = (fd, d, w')"
  shows "if fd = -1 then w_fds fds w' = w_fds fds w
         else fd \<notin> w_fds fds w \<and> w_fds fds w' = insert fd (w_fds fds w)"
  using assms unfolding fd_kernel_def do_sys_def
  by (auto split: prod.splits dest!: spec [of _ "Dup fd0"] dest: spec [of _ "w_os w"])

lemma fd_close:
  assumes "fd_kernel env fds" and "do_sys env (Close fd) w = (r, d, w')"
  shows "w_fds fds w' = w_fds fds w - {fd}"
  using assms unfolding fd_kernel_def do_sys_def
  by (auto split: prod.splits dest!: spec [of _ "Close fd"] dest: spec [of _ "w_os w"])

lemma fd_rw:
  assumes "fd_kernel env fds" and "do_sys env c w = (r, d, w')"
    and "c = Pread fd n off \<or> c = Pwrite fd str n off"
  shows "w_fds fds w' = w_fds fds w"
  using assms unfolding fd_kernel_def do_sys_def
  by (auto split: prod.splits dest!: spec [of _ c] dest: spec [of _ "w_os w"])

lemma close_if_null_fds:
  "fd_kernel env fds \<Longrightarrow> w_fds fds (close_if_null env fd fi w) =
     (if fi = None then w_fds fds w - {fd} else w_fds fds w)"
  by (cases "do_sys env (Close fd) w") (auto simp: close_if_null_def fd_close split: option.splits)

lemma fd_for_fds:
  assumes "fd_kernel env fds" and "fd_for env p fl fi w = (fd, w')"
  shows "if fi = None \<and> fd \<noteq> -1
         then fd \<notin> w_fds fds w \<and> w_fds fds w' = insert fd (w_fds fds w)
         else w_fds fds w' = w_fds fds w"
  using assms fd_open [OF assms(1)]
  by (auto simp: fd_for_def split: option.splits prod.splits if_splits)

lemma read_body_fds:
  assumes "fd_kernel env fds" and "read_body env p b n off fi w = Inr (ret, b', w')"
  shows "w_fds fds w' = w_fds fds w"
proof -
  obtain fd w1 where o: "fd_for env p O_RDONLY fi w = (fd, w1)"
    by fastforce
  obtain r d w2 where c: "do_sys env (Pread fd n off) w1 = (r, d, w2)"
    by (metis prod_cases3)
  have "w_fds fds w2 = w_fds fds w1"
    using fd_rw [OF assms(1) c] by blast
  then show ?thesis
    using assms(2) o c fd_for_fds [OF assms(1) o] close_if_null_fds [OF assms(1)]
    by (auto simp: read_body_def Let_def res_iff split: if_splits)
qed

lemma write_body_fds:
  assumes "fd_kernel env fds" and "write_body env p str n off fi w = Inr (ret, u, w')"
  shows "w_fds fds w' = w_fds fds w"
proof -
  obtain fd w1 where o: "fd_for env p O_WRONLY fi w = (fd, w1)"
    by fastforce
  obtain r d w2 where c: "do_sys env (Pwrite fd str n off) w1 = (r, d, w2)"
    by (metis prod_cases3)
  have "w_fds fds w2 = w_fds fds w1"
    using fd_rw [OF assms(1) c] by blast
  then show ?thesis
    using assms(2) o c fd_for_fds [OF assms(1) o] close_if_null_fds [OF assms(1)]
    by (auto simp: write_body_def Let_def split: if_splits)
qed

lemma flush_body_fds:
  assumes "fd_kernel env fds" and "flush_body env p fi w = Inr (ret, u, w')"
  shows "w_fds fds w' = w_fds fds w"
proof -
  obtain i where i: "fi = Some i"
    using assms(2) by (cases fi) (auto simp: flush_body_def with_fi_def)
  obtain fd d w1 where c: "do_sys env (Dup (fd_of_fh (fi_fh i))) w = (fd, d, w1)"
    by (metis prod_cases3)
  obtain r d' w2 where c': "do_sys env (Close fd) w1 = (r, d', w2)"
    by (metis prod_cases3)
  have "w' = w2"
    using assms(2) i c c' by (auto simp: flush_body_def with_fi_def call0_def split: if_splits)
  moreover have "-1 \<notin> w_fds fds w"
    using assms(1) by (simp add: fd_kernel_def)
  ultimately show ?thesis
    using fd_dup [OF assms(1) c] fd_close [OF assms(1) c'] by (auto split: if_splits)
qed

section \<open>Directory listings\<close>

type_synonym dirent = "nat \<times> 8 word \<times> string"

text \<open>From this world on, \<open>readdir\<close> on the stream yields these entries and then the end.\<close>

fun delivers :: "'os env \<Rightarrow> 64 word \<Rightarrow> 'os world \<Rightarrow> dirent list \<Rightarrow> bool" where
  "delivers env dp w [] \<longleftrightarrow> fst (do_sys env (Readdir dp) w) = 0"
| "delivers env dp w ((ino, ty, name) # es) \<longleftrightarrow>
     (case do_sys env (Readdir dp) w of (ret, d, w') \<Rightarrow>
        ret \<noteq> 0 \<and> d = Dirent ino ty name \<and> delivers env dp w' es)"

text \<open>
  The listing the caller should get: entry by entry until its buffer is full.  The mode has the type
  of the entry in the bits above the twelve of the permissions (\<open>DTTOIF\<close>), everything else is zero.
\<close>

definition entry_stat :: "nat \<Rightarrow> 8 word \<Rightarrow> stat" where
  "entry_stat ino ty = \<lparr>st_ino = ino, st_mode = word_of_int (uint ty * 2 ^ 12), st_other = []\<rparr>"

lemma dirent_stat_eq: "dirent_stat ino ty = entry_stat ino ty"
proof -
  have "push_bit 12 (ucast ty :: 32 word) = word_of_int (uint ty * 2 ^ 12)"
    by (simp add: push_bit_eq_mult word_of_int_uint mult.commute flip: ucast_eq)
  then show ?thesis
    by (simp add: dirent_stat_def entry_stat_def zero_stat_def)
qed

fun listing :: "'b fuse_fill_dir \<Rightarrow> 'b \<Rightarrow> dirent list \<Rightarrow> 'b" where
  "listing filler buf [] = buf"
| "listing filler buf ((ino, ty, name) # es) =
     (case filler buf name (entry_stat ino ty) of (full, buf) \<Rightarrow>
        if full \<noteq> 0 then buf else listing filler buf es)"

lemma readdir_loop_listing:
  assumes "delivers env dp w es"
  shows "\<exists>w'. readdir_loop env filler dp buf w = Some (listing filler buf es, w')"
  using assms
proof (induction es arbitrary: buf w)
  case Nil
  then show ?case
    by (subst readdir_loop.simps) (auto split: prod.splits)
next
  case (Cons e es)
  obtain ino ty name where e: "e = (ino, ty, name)"
    by (metis prod_cases3)
  then obtain ret w' where "do_sys env (Readdir dp) w = (ret, Dirent ino ty name, w')"
      and "ret \<noteq> 0" and "delivers env dp w' es"
    using Cons.prems by (auto split: prod.splits)
  with Cons.IH [of w'] e show ?case
    by (subst readdir_loop.simps) (auto simp: dirent_stat_eq split: prod.splits)
qed

lemma readdir_body_listing:
  assumes "do_sys env (Opendir p) w = (dp, d, w1)" and "dp \<noteq> 0"
    and "delivers env (word_of_int dp) w1 es"
  shows "\<exists>w'. readdir_body env p buf filler off fi w = Inr (0, listing filler buf es, w')"
proof -
  obtain w2 where "readdir_loop env filler (word_of_int dp) buf w1 = Some (listing filler buf es, w2)"
    using readdir_loop_listing [OF assms(3), of filler buf] by auto
  with assms(1,2) show ?thesis
    by (simp add: readdir_body_def)
qed

end
