(* ===== verification/Mount.thy ===== *)
theory Mount
  imports Dispatch
begin

text \<open>
  The program's \<open>main\<close> (\<^verbatim>\<open>unreliablefs.c\<close>): options, base directory, the path of the configuration,
  the FUSE loop and the cleanup.

  \<open>fuse_opt_parse\<close> and \<open>fuse_main\<close> belong to libfuse and are fields of the record \<open>host\<close>, as are
  \<open>stat\<close>, \<open>realpath\<close>, \<open>time\<close>, \<open>srand\<close> and \<open>pthread_mutex_init\<close>.  What \<open>fuse_main\<close> may do is
  stated where it is needed: it calls the callbacks it was given, on any number of threads
  (\<open>fuse_threads\<close> in Mount_Spec).  Messages are not modelled.
\<close>

section \<open>Options\<close>

definition KEY_HELP :: int where "KEY_HELP = 0"
definition KEY_VERSION :: int where "KEY_VERSION = 1"
definition KEY_DEBUG :: int where "KEY_DEBUG = 2"
definition FUSE_OPT_KEY_DISCARD :: int where "FUSE_OPT_KEY_DISCARD = -4"

datatype conf_field = Field_seed | Field_basedir

datatype fuse_opt =
    Store_opt string conf_field int
  | Key_opt string int

definition unreliablefs_opts :: "fuse_opt list" where
  "unreliablefs_opts =
     [Store_opt ''-seed=%u'' Field_seed 0,
      Store_opt ''-basedir=%s'' Field_basedir 0,
      Key_opt ''-d'' KEY_DEBUG,
      Key_opt ''-V'' KEY_VERSION,
      Key_opt ''-v'' KEY_VERSION,
      Key_opt ''--version'' KEY_VERSION,
      Key_opt ''-h'' KEY_HELP,
      Key_opt ''--help'' KEY_HELP,
      Key_opt ''subdir'' FUSE_OPT_KEY_DISCARD,
      Key_opt ''modules='' FUSE_OPT_KEY_DISCARD]"

text \<open>A call that comes back, or the end of the process with an exit code.\<close>

datatype ('a, 'os) ctl = Returns 'a "'os world" | Exits int "'os world"

type_synonym 'os opt_proc =
  "string \<Rightarrow> int \<Rightarrow> string list \<Rightarrow> 'os world \<Rightarrow> (int \<times> string list, 'os) ctl res"

record 'os host =
  m_time :: "'os \<Rightarrow> int \<times> 'os"
  m_opt_parse :: "fuse_opt list \<Rightarrow> 'os opt_proc \<Rightarrow> string list \<Rightarrow> 'os world \<Rightarrow> (string list, 'os) ctl res"
  m_srand :: "32 word \<Rightarrow> 'os \<Rightarrow> 'os"
  m_stat :: "string \<Rightarrow> 'os \<Rightarrow> stat option \<times> 'os"
  m_realpath :: "string \<Rightarrow> 'os \<Rightarrow> string option \<times> 'os"
  m_mutex_init :: "'os \<Rightarrow> int \<times> 'os"
  m_fuse_main :: "string list \<Rightarrow> 'os world \<Rightarrow> (int \<times> 'os world) res"
  m_PATH_MAX :: nat

definition EXIT_FAILURE :: int where "EXIT_FAILURE = 1"
definition DEFAULT_CONF_NAME :: string where "DEFAULT_CONF_NAME = ''unreliablefs.conf''"
definition subdir_prefix :: string where "subdir_prefix = ''-omodules=subdir,subdir=''"

definition unreliablefs_opt_proc :: "'os host \<Rightarrow> 'os opt_proc" where
  "unreliablefs_opt_proc h arg key outargs w =
     (if key = KEY_HELP then Inr (Exits 1 w)
      else if key = KEY_VERSION
      then and_then (m_fuse_main h (outargs @ [''--version'']) w) (\<lambda>(ret, w). Inr (Exits 1 w))
      else Inr (Returns (1, outargs) w))"

section \<open>main\<close>

definition S_ISDIR :: "32 word \<Rightarrow> bool" where
  "S_ISDIR m \<longleftrightarrow> and m 0xF000 = 0x4000"

definition is_dir :: "'os host \<Rightarrow> string \<Rightarrow> 'os world \<Rightarrow> bool \<times> 'os world" where
  "is_dir h path w =
     (case m_stat h path (w_os w) of (st, os) \<Rightarrow>
        (case st of None \<Rightarrow> False | Some s \<Rightarrow> S_ISDIR (st_mode s), w\<lparr>w_os := os\<rparr>))"

text \<open>\<open>sprintf\<close> into an array of \<open>n\<close> bytes: the text and its terminating byte.\<close>

definition sprintf_array :: "nat \<Rightarrow> string \<Rightarrow> string res" where
  "sprintf_array n s = (if length s < n then Inr s else Inl Write_oob)"

text \<open>\<open>snprintf\<close> with room for \<open>n\<close> bytes cuts the text.\<close>

definition snprintf_array :: "nat \<Rightarrow> string \<Rightarrow> string" where
  "snprintf_array n s = take (n - 1) s"

definition with_conf :: "(unreliablefs_config \<Rightarrow> unreliablefs_config) \<Rightarrow> 'os world \<Rightarrow> 'os world" where
  "with_conf g w = w\<lparr>w_conf := g (w_conf w)\<rparr>"

text \<open>\<open>memset(&conf, 0, sizeof(conf))\<close>, then the defaults.\<close>

definition default_conf :: "int \<Rightarrow> unreliablefs_config" where
  "default_conf t =
     \<lparr>errors = None, basedir = ''/'', config_path = [], seed = word_of_int t, debug = 0, mutex = False\<rparr>"

text \<open>From \<open>realpath\<close> to the configuration: the block of \<open>config_path\<close>, or \<open>None\<close> on failure.\<close>

definition build_config_path :: "'os env \<Rightarrow> 'os host \<Rightarrow> 'os world \<Rightarrow> nat option \<times> 'os world" where
  "build_config_path env h w =
     (case m_realpath h (basedir (w_conf w)) (w_os w) of
        (None, os) \<Rightarrow> (None, w\<lparr>w_os := os\<rparr>)
      | (Some real_path, os) \<Rightarrow>
          (case c_malloc env (w\<lparr>w_os := os\<rparr>) of
             (None, w) \<Rightarrow> (None, w)
           | (Some _, w) \<Rightarrow>
               let w = with_conf (\<lambda>c. c\<lparr>basedir := real_path\<rparr>) w;
                   sz = length DEFAULT_CONF_NAME + length real_path + 2 in
               (case c_malloc env w of
                  (None, w) \<Rightarrow> (None, w)
                | (Some p, w) \<Rightarrow>
                    (Some p,
                     with_conf (\<lambda>c. c\<lparr>config_path :=
                       snprintf_array sz (real_path @ ''/'' @ DEFAULT_CONF_NAME)\<rparr>) w))))"

definition mount :: "'os env \<Rightarrow> 'os host \<Rightarrow> string list \<Rightarrow> 'os world \<Rightarrow> (int \<times> 'os world) res" where
  "mount env h args w =
     (case build_config_path env h w of
        (None, w) \<Rightarrow> Inr (EXIT_FAILURE, w)
      | (Some p, w) \<Rightarrow>
          and_then (config_init env (config_path (w_conf w)) w) (\<lambda>(q, w).
          let w = set_errors q w in
          (case m_mutex_init h (w_os w) of (r, os) \<Rightarrow>
             let w = w\<lparr>w_os := os\<rparr> in
             if r \<noteq> 0 then Inr (EXIT_FAILURE, w)
             else and_then (m_fuse_main h args (set_mutex False w)) (\<lambda>(ret, w).
                  and_then (config_delete (errors (w_conf w)) w) (\<lambda>w.
                  and_then (c_free p w) (\<lambda>w. Inr (ret, w)))))))"

definition main :: "'os env \<Rightarrow> 'os host \<Rightarrow> string list \<Rightarrow> 'os world \<Rightarrow> (int \<times> 'os world) res" where
  "main env h argv w =
     (case m_time h (w_os w) of (t, os) \<Rightarrow>
        and_then (m_opt_parse h unreliablefs_opts (unreliablefs_opt_proc h) argv
                    (w\<lparr>w_os := os, w_conf := default_conf t\<rparr>))
          (\<lambda>parsed. case parsed of
             Exits code w \<Rightarrow> Inr (code, w)
           | Returns args w \<Rightarrow>
               (let w = w\<lparr>w_os := m_srand h (seed (w_conf w)) (w_os w)\<rparr> in
                (case is_dir h (basedir (w_conf w)) w of (ok, w) \<Rightarrow>
                   if \<not> ok then Inr (EXIT_FAILURE, w)
                   else and_then (sprintf_array (m_PATH_MAX h) (subdir_prefix @ basedir (w_conf w)))
                          (\<lambda>opt. mount env h (args @ [opt]) w)))))"

end
