(* ===== verification/Conf_Spec.thy ===== *)
theory Conf_Spec
  imports Errinj_Inv Ini_Print
begin

text \<open>
  What the configuration means.  The pairs of a text are what a recording handler sees
  (\<open>ini_pairs\<close>).  A client of the parser whose handler acts on an abstraction of its data by a pure
  step computes the fold of that step over the pairs (locale \<open>ini_reading\<close>, an extension of
  \<open>ini_client\<close>).  The handler of \<open>config_init\<close> is such a client: the queue it builds is the list of
  injections the file describes.
\<close>

section \<open>Clients with an abstraction\<close>

definition ini_pairs :: "string \<Rightarrow> (string \<times> string \<times> string) list" where
  "ini_pairs t = (case ini_text collect [] t of Inr (rc, ps) \<Rightarrow> ps | Inl e \<Rightarrow> [])"

definition same_place :: "'u ini_abs \<Rightarrow> 'v ini_abs \<Rightarrow> bool" where
  "same_place a b \<longleftrightarrow> a_section a = a_section b \<and> a_prev a = a_prev b \<and> a_lineno a = a_lineno b"

lemma collect_emit:
  "a_emit collect b n v = Inr (b\<lparr>a_user := a_user b @ [(a_section b, n, v)]\<rparr>)"
  by (simp add: a_emit_def collect_def)

locale ini_reading = ini_client h inv for h :: "'u ini_handler" and inv +
  fixes abs :: "'u \<Rightarrow> 'c" and step :: "string \<Rightarrow> string \<Rightarrow> string \<Rightarrow> 'c \<Rightarrow> 'c"
  assumes handler_abs: "inv u \<Longrightarrow> h u sec name val = Inr (rc, u') \<Longrightarrow> abs u' = step sec name val (abs u)"
begin

abbreviation steps :: "(string \<times> string \<times> string) list \<Rightarrow> 'c \<Rightarrow> 'c" where
  "steps \<equiv> fold (\<lambda>(s, n, v). step s n v)"

lemma emit_sim:
  assumes "same_place a b" and "inv (a_user a)" and "a_emit h a n v = Inr a'"
  shows "inv (a_user a') \<and> same_place a' (b\<lparr>a_user := a_user b @ [(a_section b, n, v)]\<rparr>) \<and>
    abs (a_user a') = step (a_section b) n v (abs (a_user a))"
proof -
  obtain rc u where h: "h (a_user a) (a_section a) n v = Inr (rc, u)" "inv u"
    using handler_ok [OF assms(2)] by blast
  with assms handler_abs [OF assms(2) h(1)] show ?thesis
    by (auto simp: a_emit_def a_fail_def same_place_def Let_def split: if_splits)
qed

lemma effect_sim:
  assumes "same_place a b" and "inv (a_user a)" and "a_effect h a e = Inr a'"
  shows "\<exists>b' evs. a_effect collect b e = Inr b' \<and> same_place a' b' \<and> inv (a_user a') \<and>
    a_user b' = a_user b @ evs \<and> abs (a_user a') = steps evs (abs (a_user a))"
proof (cases e)
  case (More v)
  with assms(3) have "a_emit h a (a_prev a) v = Inr a'"
    by (simp add: a_effect_def)
  from emit_sim [OF assms(1,2) this] More assms(1) show ?thesis
    by (auto simp: a_effect_def collect_emit same_place_def)
next
  case (Pair n v)
  let ?p = "take (MAX_NAME - 1) n"
  have "same_place (a\<lparr>a_prev := ?p\<rparr>) (b\<lparr>a_prev := ?p\<rparr>)" "inv (a_user (a\<lparr>a_prev := ?p\<rparr>))"
      "a_emit h (a\<lparr>a_prev := ?p\<rparr>) n v = Inr a'"
    using assms Pair by (auto simp: same_place_def a_effect_def)
  from emit_sim [OF this] Pair show ?thesis
    by (auto simp: a_effect_def collect_emit)
qed (use assms in \<open>auto simp: a_effect_def a_fail_def same_place_def\<close>)

lemma run_sim:
  assumes "same_place a b" and "inv (a_user a)"
  shows "\<exists>a' b' evs. ini_run h a xs = Inr a' \<and> ini_run collect b xs = Inr b' \<and>
    inv (a_user a') \<and> a_user b' = a_user b @ evs \<and> abs (a_user a') = steps evs (abs (a_user a))"
  using assms
proof (induction xs arbitrary: a b)
  case Nil
  then show ?case by simp
next
  case (Cons x xs)
  let ?n = "\<lambda>a. a\<lparr>a_lineno := Suc (a_lineno a)\<rparr>"
  let ?e = "ini_entry (Suc (a_lineno a) = 1) (a_prev a \<noteq> []) x"
  have "same_place (?n a) (?n b)" "inv (a_user (?n a))"
    using Cons.prems by (auto simp: same_place_def)
  moreover from this obtain a1 where a1: "a_effect h (?n a) ?e = Inr a1"
    using effect_ok [of "?n a"] by blast
  ultimately obtain b1 evs where b1: "a_effect collect (?n b) ?e = Inr b1" "same_place a1 b1"
      "inv (a_user a1)" "a_user b1 = a_user b @ evs" "abs (a_user a1) = steps evs (abs (a_user a))"
    using effect_sim [of "?n a" "?n b" ?e a1] by auto
  have s: "ini_step h a x = Inr a1" "ini_step collect b x = Inr b1"
    using a1 b1(1) Cons.prems(1) by (simp_all add: ini_step_def Let_def same_place_def)
  obtain a2 b2 evs' where "ini_run h a1 xs = Inr a2" "ini_run collect b1 xs = Inr b2"
      "inv (a_user a2)" "a_user b2 = a_user b1 @ evs'" "abs (a_user a2) = steps evs' (abs (a_user a1))"
    using Cons.IH [OF b1(2,3)] by blast
  with s b1(4,5) show ?case
    by (intro exI [of _ a2] exI [of _ b2] exI [of _ "evs @ evs'"]) simp
qed

lemma text_abs:
  assumes "inv u"
  shows "\<exists>rc u'. ini_text h u t = Inr (rc, u') \<and> inv u' \<and> abs u' = steps (ini_pairs t) (abs u)"
proof -
  have "same_place (ini_init u) (ini_init [])" "inv (a_user (ini_init u))"
    using assms by (simp_all add: same_place_def ini_init_def)
  from run_sim [OF this, of "map c_view (chunks (INI_MAX_LINE - 1) t)"] show ?thesis
    by (auto simp: ini_text_def ini_pairs_def ini_init_def)
qed

end

lemma ini_pairs_print: "list_all section_ok ss \<Longrightarrow> ini_pairs (print_ini ss) = flat ss"
  by (simp add: ini_pairs_def ini_text_print)

section \<open>Injections as the manual describes them\<close>

record injection =
  i_type :: errinj_type
  i_path :: "string option"
  i_op :: "string option"
  i_prob :: "32 word"
  i_dur :: "32 word"

definition blank :: "errinj_type \<Rightarrow> injection" where
  "blank t = \<lparr>i_type = t, i_path = None, i_op = None, i_prob = 0, i_dur = 0\<rparr>"

definition inj_type_of :: "string \<Rightarrow> errinj_type option" where
  "inj_type_of s =
     (if s = ''errinj_errno'' then Some ERRINJ_ERRNO
      else if s = ''errinj_kill_caller'' then Some ERRINJ_KILL_CALLER
      else if s = ''errinj_noop'' then Some ERRINJ_NOOP
      else if s = ''errinj_slowdown'' then Some ERRINJ_SLOWDOWN
      else None)"

definition inj_option :: "string \<Rightarrow> string \<Rightarrow> injection \<Rightarrow> injection" where
  "inj_option key val i =
     (if key = ''path_regexp'' then i\<lparr>i_path := Some val\<rparr>
      else if key = ''op_regexp'' then i\<lparr>i_op := Some val\<rparr>
      else if key = ''probability'' then i\<lparr>i_prob := atoi val\<rparr>
      else if key = ''duration'' then i\<lparr>i_dur := atoi val\<rparr>
      else i)"

text \<open>Change the injection of a type, appending a blank one first if there is none.\<close>

fun inj_put :: "errinj_type \<Rightarrow> (injection \<Rightarrow> injection) \<Rightarrow> injection list \<Rightarrow> injection list" where
  "inj_put t f [] = [f (blank t)]"
| "inj_put t f (i # is) = (if i_type i = t then f i # is else i # inj_put t f is)"

definition inj_step :: "string \<Rightarrow> string \<Rightarrow> string \<Rightarrow> injection list \<Rightarrow> injection list" where
  "inj_step sec key val is =
     (case inj_type_of sec of None \<Rightarrow> is | Some t \<Rightarrow> inj_put t (inj_option key val) is)"

definition abs_entry :: "errinj_conf \<Rightarrow> injection" where
  "abs_entry e =
     \<lparr>i_type = ec_type e, i_path = map_option snd (path_regexp e), i_op = map_option snd (op_regexp e),
      i_prob = probability e, i_dur = duration e\<rparr>"

definition abs_q :: "err_inj_q \<Rightarrow> injection list" where
  "abs_q q = map abs_entry (q_entries q)"

text \<open>\<open>calloc\<close> and \<open>strdup\<close> never fail.\<close>

definition enough_memory :: "'os env \<Rightarrow> bool" where
  "enough_memory env \<longleftrightarrow> (\<forall>s. fst (e_memory env s))"

lemma enough_malloc:
  assumes "enough_memory env"
  obtains w' where "c_malloc env w = (Some (h_next (w_heap w)), w')"
  using assms that
  by (cases "e_memory env (w_os w)") (auto simp: enough_memory_def c_malloc_def, metis fst_conv)

lemma enough_strdup:
  assumes "enough_memory env"
  obtains w' where "c_strdup env s w = (Some (h_next (w_heap w), s), w')"
proof -
  obtain w' where "c_malloc env w = (Some (h_next (w_heap w)), w')"
    using enough_malloc [OF assms] .
  with that show thesis
    by (simp add: c_strdup_def)
qed

lemma type_by_name:
  "(case inj_type_of s of
      None \<Rightarrow> errinj_type_by_name s = -1
    | Some t \<Rightarrow> errinj_type_by_name s \<noteq> -1 \<and> errinj_types ! nat (errinj_type_by_name s) = t)"
  by (simp add: inj_type_of_def errinj_type_by_name_def errinj_name_def errinj_types_def)

lemma put_found:
  "find_entry t es = Some i \<Longrightarrow> abs_entry e = f (abs_entry (es ! i)) \<Longrightarrow>
   map abs_entry (es[i := e]) = inj_put t f (map abs_entry es)"
proof (induction es arbitrary: i)
  case Nil
  then show ?case by simp
next
  case (Cons e0 es)
  then show ?case
    by (cases i) (auto simp: abs_entry_def split: if_splits)
qed

lemma put_new:
  "find_entry t es = None \<Longrightarrow> inj_put t f (map abs_entry es) = map abs_entry es @ [f (blank t)]"
  by (induction es) (auto simp: abs_entry_def split: if_splits)

lemma set_option_abs:
  assumes "enough_memory env" and "conf_set_option env key val e w = Inr (rc, e', w')"
  shows "abs_entry e' = inj_option key val (abs_entry e)"
proof -
  have dup: "\<exists>a. fst (c_strdup env val w1) = Some (a, val)" for w1 :: "'a world"
    using enough_strdup [OF assms(1), of val w1] by (metis fst_conv)
  show ?thesis
    using assms(2) dup
    by (auto simp: conf_set_option_def inj_option_def abs_entry_def res_iff case_prod_unfold
        split: if_splits)
qed

lemma handler_abs_q:
  assumes "enough_memory env" and "conf_option_handler env (q, w) sec key val = Inr (rc, q', w')"
  shows "abs_q q' = inj_step sec key val (abs_q q)"
proof (cases "inj_type_of sec")
  case None
  with assms(2) type_by_name [of sec] show ?thesis
    by (auto simp: conf_option_handler_def inj_step_def)
next
  case (Some t)
  then have t: "errinj_type_by_name sec \<noteq> -1" "errinj_types ! nat (errinj_type_by_name sec) = t"
    using type_by_name [of sec] by auto
  show ?thesis
  proof (cases "find_entry t (q_entries q)")
    case None
    obtain w1 where m: "c_malloc env w = (Some (h_next (w_heap w)), w1)"
      using enough_malloc [OF assms(1)] .
    let ?e = "new_entry (h_next (w_heap w)) t"
    obtain e' w2 where o: "conf_set_option env key val ?e w1 = Inr (rc, e', w2)"
        and q': "q' = q\<lparr>q_entries := q_entries q @ [e']\<rparr>"
      using assms(2) t None m by (auto simp: conf_option_handler_def conf_entry_def res_iff Let_def)
    have "abs_entry ?e = blank t"
      by (simp add: abs_entry_def new_entry_def blank_def)
    with set_option_abs [OF assms(1) o] q' put_new [OF None] Some show ?thesis
      by (simp add: abs_q_def inj_step_def)
  next
    case (Some i)
    obtain e' w2 where o: "conf_set_option env key val (q_entries q ! i) w = Inr (rc, e', w2)"
        and q': "q' = q\<lparr>q_entries := (q_entries q)[i := e']\<rparr>"
      using assms(2) t Some by (auto simp: conf_option_handler_def conf_entry_def res_iff Let_def)
    with set_option_abs [OF assms(1) o] put_found [OF Some] \<open>inj_type_of sec = _\<close> show ?thesis
      by (simp add: abs_q_def inj_step_def)
  qed
qed

interpretation conf_reading: ini_reading "conf_option_handler env"
  "\<lambda>(q, w). q_inv B q w \<and> w_conf w = c \<and> enough_memory env" "\<lambda>(q, w). abs_q q" inj_step
  for env B c
proof unfold_locales
  fix u :: "err_inj_q \<times> 'a world" and sec name val
  assume u: "case u of (q, w) \<Rightarrow> q_inv B q w \<and> w_conf w = c \<and> enough_memory env"
  then show "\<exists>rc u'. conf_option_handler env u sec name val = Inr (rc, u') \<and>
      (case u' of (q, w) \<Rightarrow> q_inv B q w \<and> w_conf w = c \<and> enough_memory env)"
    using conf_option_handler_ok [of B "fst u" "snd u" env sec name val] by (cases u) auto
  fix rc u'
  assume "conf_option_handler env u sec name val = Inr (rc, u')"
  with u show "(\<lambda>(q, w). abs_q q) u' = inj_step sec name val ((\<lambda>(q, w). abs_q q) u)"
    by (cases u; cases u') (auto intro: handler_abs_q)
qed

section \<open>Reading the configuration file\<close>

text \<open>The injections a text describes.\<close>

definition injections :: "string \<Rightarrow> injection list" where
  "injections t = fold (\<lambda>(s, n, v). inj_step s n v) (ini_pairs t) []"

lemma q_fopen_fst [simp]: "fst (q_fopen env p (q, w)) = fst (e_fopen env p (w_os w))"
  by (simp add: q_fopen_def case_prod_unfold)

lemma ini_parse_conf:
  assumes "q_inv B q w" and "enough_memory env" and "e_fopen env path (w_os w) = (Some f, os)"
  obtains rc q' w' where
    "ini_parse (q_fopen env) (q_fclose env) path (conf_option_handler env) (q, w) = Inr (rc, q', w')"
    and "0 \<le> rc" and "q_inv B q' w'" and "w_conf w' = w_conf w"
    and "abs_q q' = fold (\<lambda>(s, n, v). inj_step s n v) (ini_pairs (f_unread f)) (abs_q q)"
proof -
  let ?w = "w\<lparr>w_os := os\<rparr>"
  have i: "q_inv B q ?w"
    using assms(1) by (simp add: q_inv_def)
  obtain rc q' w1 where t: "ini_text (conf_option_handler env) (q, ?w) (f_unread f) = Inr (rc, q', w1)"
      "q_inv B q' w1" "w_conf w1 = w_conf w"
      "abs_q q' = fold (\<lambda>(s, n, v). inj_step s n v) (ini_pairs (f_unread f)) (abs_q q)"
    using conf_reading.text_abs [of B "w_conf w" env "(q, ?w)" "f_unread f"] i assms(2) by auto
  have "0 \<le> rc"
    using t(1) by (auto simp: ini_text_def res_iff)
  show thesis
  proof (rule that)
    show "ini_parse (q_fopen env) (q_fclose env) path (conf_option_handler env) (q, w) =
        Inr (rc, q', w1\<lparr>w_os := e_fclose env (w_os w1)\<rparr>)"
      using t(1) assms(3)
      by (simp add: ini_parse_def q_fopen_def q_fclose_def ini_parse_file_eq)
  qed (use t \<open>0 \<le> rc\<close> in \<open>simp_all add: q_inv_def\<close>)
qed

lemma config_init_reads:
  assumes "owns B [] (w_heap w)" and "enough_memory env"
    and "\<And>s. sr_ret (fst (e_sys env (Access path F_OK) s)) = 0"
    and "\<And>s. map_option f_unread (fst (e_fopen env path s)) = Some t"
  obtains q w' where "config_init env path w = Inr (Some q, w')" and "abs_q q = injections t"
    and "q_inv B q w'" and "w_conf w' = w_conf w"
proof -
  obtain w1 where m: "c_malloc env w = (Some (h_next (w_heap w)), w1)"
    using enough_malloc [OF assms(2)] .
  let ?q = "\<lparr>q_addr = h_next (w_heap w), q_entries = []\<rparr>"
  obtain r d w2 where acc: "do_sys env (Access path F_OK) w1 = (r, d, w2)"
    by (metis prod_cases3)
  have r: "r = 0"
    using acc assms(3) [of "w_os w1"] by (auto simp: do_sys_def split: prod.splits)
  have q2: "q_inv B ?q w2" "w_conf w2 = w_conf w"
    using owns_malloc [OF assms(1) m] c_malloc_frame [OF m] do_sys_frame [OF acc]
    by (auto simp: q_inv_def q_blocks_def)
  obtain f os where f: "e_fopen env path (w_os w2) = (Some f, os)" "f_unread f = t"
    using assms(4) [of "w_os w2"] by (cases "e_fopen env path (w_os w2)") auto
  obtain rc q' w3 where
      p: "ini_parse (q_fopen env) (q_fclose env) path (conf_option_handler env) (?q, w2) = Inr (rc, q', w3)"
        "0 \<le> rc" "q_inv B q' w3" "w_conf w3 = w_conf w2"
        "abs_q q' = fold (\<lambda>(s, n, v). inj_step s n v) (ini_pairs (f_unread f)) (abs_q ?q)"
    using ini_parse_conf [OF q2(1) assms(2) f(1)] .
  show thesis
    using that m acc r p q2(2) f(2) by (simp add: config_init_def Let_def injections_def abs_q_def)
qed

end
