(* ===== verification/Threads.thy ===== *)
theory Threads
  imports Dispatch
begin

text \<open>
  FUSE serves requests on several threads at once.  \<open>error_inject\<close> takes \<open>conf.mutex\<close> around its use
  of the shared queue; here its steps are taken apart (lock, free the old queue, read the new one,
  one step per injection of the queue, unlock) and interleaved with the steps of any number of
  other threads.  The system calls of an operation are one step: they do not touch the process
  state, and \<open>errno\<close> belongs to the thread that reads it right after the call.

  The invariant says who holds the mutex and what state the queue is in at each point of the
  critical section.  It gives mutual exclusion, that no thread walks over freed entries, and that
  the threads never block each other for good.
\<close>

section \<open>Where a thread can be\<close>

datatype 'b pc =
    Idle
  | Enter "'b fuse_request"                        \<comment> \<open>before \<open>pthread_mutex_lock\<close>\<close>
  | Check "'b fuse_request"                        \<comment> \<open>the mutex is taken\<close>
  | Deleted "'b fuse_request"                      \<comment> \<open>between \<open>config_delete\<close> and \<open>config_init\<close>\<close>
  | Scan "'b fuse_request" "errinj_conf list" int  \<comment> \<open>in \<open>TAILQ_FOREACH\<close>: entries left, \<open>rc\<close>\<close>
  | Leave "'b fuse_request" int                    \<comment> \<open>at the label \<open>cleanup\<close>\<close>
  | Run "'b fuse_request" int                      \<comment> \<open>\<open>error_inject\<close> has returned\<close>
  | Done "'b fuse_request" int "'b fuse_out"

fun holds :: "'b pc \<Rightarrow> bool" where
  "holds (Check r) \<longleftrightarrow> True"
| "holds (Deleted r) \<longleftrightarrow> True"
| "holds (Scan r es rc) \<longleftrightarrow> True"
| "holds (Leave r rc) \<longleftrightarrow> True"
| "holds _ \<longleftrightarrow> False"

text \<open>One round of the loop over the queue.\<close>

definition inject_entry ::
    "'os env \<Rightarrow> string \<Rightarrow> fuse_op \<Rightarrow> errinj_conf \<Rightarrow> int \<Rightarrow> 'os world \<Rightarrow> (int \<times> 'os world) res" where
  "inject_entry env path op err rc w =
     (case rand_range env MIN_PROBABLITY MAX_PROBABLITY w of (p, w) \<Rightarrow>
        if \<not> (word_of_int p \<le> probability err) then Inr (rc, w)
        else (case op_name (e_build env) op of
                None \<Rightarrow> Inl Read_oob
              | Some n \<Rightarrow>
                  and_then n (\<lambda>opn.
                    if \<not> applies env err path opn then Inr (rc, w) else trigger env op err rc w)))"

section \<open>Steps\<close>

inductive tstep :: "'os env \<Rightarrow> 'b pc \<times> 'os world \<Rightarrow> 'b pc \<times> 'os world \<Rightarrow> bool" for env where
  t_call: "unreliable_ops env r \<noteq> None \<Longrightarrow> tstep env (Idle, w) (Enter r, w)"
| t_lock: "\<not> mutex (w_conf w) \<Longrightarrow> tstep env (Enter r, w) (Check r, set_mutex True w)"
| t_delete: "req_path r = config_path (w_conf w) \<Longrightarrow> config_delete (errors (w_conf w)) w = Inr w' \<Longrightarrow>
    tstep env (Check r, w) (Deleted r, w')"
| t_init: "config_init env (req_path r) w = Inr (q, w') \<Longrightarrow>
    tstep env (Deleted r, w) (Leave r 0, set_errors q w')"
| t_none: "req_path r \<noteq> config_path (w_conf w) \<Longrightarrow> errors (w_conf w) = None \<Longrightarrow>
    tstep env (Check r, w) (Leave r 0, w)"
| t_scan: "req_path r \<noteq> config_path (w_conf w) \<Longrightarrow> errors (w_conf w) = Some q \<Longrightarrow>
    tstep env (Check r, w) (Scan r (q_entries q) 0, w)"
| t_entry: "inject_entry env (req_path r) (req_op r) e rc w = Inr (rc', w') \<Longrightarrow>
    tstep env (Scan r (e # es) rc, w) (Scan r es rc', w')"
| t_end: "tstep env (Scan r [] rc, w) (Leave r rc, w)"
| t_unlock: "tstep env (Leave r rc, w) (Run r rc, set_mutex False w)"
| t_injected: "rc \<noteq> 0 \<Longrightarrow>
    tstep env (Run r rc, w) (Done r (if rc = - ERRNO_NOOP then 0 else rc) (req_out r), w)"
| t_native: "native env r w = Inr (ret, out, w') \<Longrightarrow> tstep env (Run r 0, w) (Done r ret out, w')"
| t_return: "tstep env (Done r ret out, w) (Idle, w)"

record ('b, 'os) threads =
  t_pc :: "nat \<Rightarrow> 'b pc"
  t_world :: "'os world"

inductive sys_step :: "'os env \<Rightarrow> ('b, 'os) threads \<Rightarrow> ('b, 'os) threads \<Rightarrow> bool" for env where
  one: "tstep env (t_pc s i, t_world s) (p, w) \<Longrightarrow>
    sys_step env s (s\<lparr>t_pc := (t_pc s)(i := p), t_world := w\<rparr>)"

definition threads_init :: "'os world \<Rightarrow> ('b, 'os) threads" where
  "threads_init w = \<lparr>t_pc = (\<lambda>_. Idle), t_world = w\<rparr>"

abbreviation reaches :: "'os env \<Rightarrow> ('b, 'os) threads \<Rightarrow> ('b, 'os) threads \<Rightarrow> bool" where
  "reaches env \<equiv> (sys_step env)\<^sup>*\<^sup>*"

section \<open>The invariant\<close>

text \<open>What holds at a point inside the critical section.\<close>

fun section_inv :: "nat set \<Rightarrow> 'b pc \<Rightarrow> 'os world \<Rightarrow> bool" where
  "section_inv B (Deleted r) w \<longleftrightarrow> owns B [] (w_heap w)"
| "section_inv B (Scan r es rc) w \<longleftrightarrow> conf_inv B w \<and>
     (\<exists>q pre. errors (w_conf w) = Some q \<and> q_entries q = pre @ es)"
| "section_inv B _ w \<longleftrightarrow> conf_inv B w"

definition holder_inv :: "nat option \<Rightarrow> nat set \<Rightarrow> ('b, 'os) threads \<Rightarrow> bool" where
  "holder_inv h B s \<longleftrightarrow>
     (\<forall>i. holds (t_pc s i) \<longleftrightarrow> h = Some i) \<and> (mutex (w_conf (t_world s)) \<longleftrightarrow> h \<noteq> None) \<and>
     (case h of None \<Rightarrow> conf_inv B (t_world s) | Some i \<Rightarrow> section_inv B (t_pc s i) (t_world s))"

definition threads_inv :: "nat set \<Rightarrow> ('b, 'os) threads \<Rightarrow> bool" where
  "threads_inv B s \<longleftrightarrow> (\<exists>h B'. B \<subseteq> B' \<and> holder_inv h B' s)"

text \<open>
  The blocks that belong to nobody any more grow by one at most with every configuration that could
  not be read: the head of its queue.
\<close>

definition grows :: "nat \<Rightarrow> nat set \<Rightarrow> nat set \<Rightarrow> bool" where
  "grows n B B' \<longleftrightarrow> B \<subseteq> B' \<and> finite (B' - B) \<and> card (B' - B) \<le> n"

lemma grows_refl [simp]: "grows n B B"
  by (simp add: grows_def)

lemma grows_0 [simp]: "grows 0 B B' \<longleftrightarrow> B' = B"
  by (auto simp: grows_def)

lemma grows_trans:
  assumes "grows m A B" and "grows n B C"
  shows "grows (m + n) A C"
proof -
  have "C - A = (C - B) \<union> (B - A)"
    using assms by (auto simp: grows_def)
  then show ?thesis
    using assms card_Un_le [of "C - B" "B - A"] by (auto simp: grows_def)
qed

text \<open>A step of a thread at \<open>p\<close> that leads to the world \<open>w\<close> and did not get a configuration.\<close>

fun unread_config :: "'b pc \<Rightarrow> 'os world \<Rightarrow> nat" where
  "unread_config (Deleted r) w = (if errors (w_conf w) = None then 1 else 0)"
| "unread_config _ w = 0"

lemma conf_inv_cong:
  "w_conf w = w_conf w' \<Longrightarrow> w_heap w = w_heap w' \<Longrightarrow> conf_inv B w \<longleftrightarrow> conf_inv B w'"
  by (simp add: conf_inv_def q_inv_def split: option.splits)

lemma section_inv_cong:
  assumes "w_conf w = w_conf w'" and "w_heap w = w_heap w'"
  shows "section_inv B p w \<longleftrightarrow> section_inv B p w'"
  using assms conf_inv_cong [OF assms, of B] by (cases p) simp_all

lemma inject_entry_frame:
  assumes "inject_entry env path op e rc w = Inr (rc', w')"
  shows "w_conf w' = w_conf w \<and> w_heap w' = w_heap w"
proof -
  obtain p w1 where r: "rand_range env MIN_PROBABLITY MAX_PROBABLITY w = (p, w1)"
    by fastforce
  then have "w_conf w1 = w_conf w" "w_heap w1 = w_heap w"
    using rand_range_frame [of env MIN_PROBABLITY MAX_PROBABLITY w] by simp_all
  then show ?thesis
    using assms r
    by (auto simp: inject_entry_def res_iff split: if_splits option.splits dest!: trigger_frame)
qed

text \<open>Steps outside the critical section.\<close>

lemma tstep_outside:
  assumes "tstep env (p, w) (p', w')" and "\<not> holds p" and "\<not> holds p'"
  shows "w_conf w' = w_conf w \<and> w_heap w' = w_heap w"
  using assms
proof (cases rule: tstep.cases)
  case (t_native r ret out)
  then show ?thesis
    using native_process [of env r] by (simp add: keeps_process_def)
qed auto

text \<open>Steps inside it.  What a failed reload loses is counted among the blocks of others.\<close>

lemma config_init_section:
  assumes "config_init env path w = Inr (q, w1)" and "owns B [] (w_heap w)"
  obtains B' where "grows (if q = None then 1 else 0) B B'" "conf_inv B' (set_errors q w1)"
    "w_conf w1 = w_conf w"
proof (cases q)
  case None
  with config_init_ok [OF assms(2), of env path] assms(1) obtain xs
    where "owns B xs (w_heap w1)" and xs: "length xs \<le> 1" and c: "w_conf w1 = w_conf w"
    by auto
  then have "owns (B \<union> set xs) [] (w_heap w1)"
    by (auto simp: owns_def)
  moreover have "card (set xs - B) \<le> 1"
    using xs card_length [of xs] card_mono [of "set xs" "set xs - B"] by auto
  then have "grows 1 B (B \<union> set xs)"
    by (simp add: grows_def Un_Diff)
  ultimately show thesis
    using None c that [of "B \<union> set xs"] by (simp add: conf_inv_def set_errors_def)
next
  case (Some q')
  with config_init_ok [OF assms(2), of env path] assms(1) that [of B] show thesis
    by (simp add: conf_inv_def set_errors_def q_inv_def)
qed

lemma tstep_inside:
  assumes "tstep env (p, w) (p', w')" and "holds p" and "holds p'" and "section_inv B p w"
  shows "(\<exists>B'. grows (unread_config p w') B B' \<and> section_inv B' p' w') \<and>
    mutex (w_conf w') = mutex (w_conf w)"
  using assms
proof (cases rule: tstep.cases)
  case (t_delete r)
  then obtain w1 where "config_delete (errors (w_conf w)) w = Inr w1" "owns B [] (w_heap w1)"
      "w_conf w1 = w_conf w"
    using config_delete_inv [of B w] assms(4) by auto
  with t_delete show ?thesis
    by (auto intro!: exI [of _ B])
next
  case (t_init r q w1)
  have "owns B [] (w_heap w)"
    using assms(4) t_init by simp
  then obtain B' where "grows (if q = None then 1 else 0) B B'" "conf_inv B' (set_errors q w1)"
      "w_conf w1 = w_conf w"
    using config_init_section [of env "req_path r" w q w1 B] t_init by blast
  with t_init show ?thesis
    by (auto simp: set_errors_def)
next
  case (t_entry r e rc rc' es)
  then have f: "w_conf w' = w_conf w" "w_heap w' = w_heap w"
    using inject_entry_frame by blast+
  obtain q pre where "errors (w_conf w) = Some q" "q_entries q = (pre @ [e]) @ es"
    using assms(4) t_entry by auto
  then show ?thesis
    using assms(4) t_entry f conf_inv_cong [OF f] by (intro conjI exI [of _ B]) auto
qed (auto intro!: exI [of _ B])

lemma tstep_enter:
  assumes "tstep env (p, w) (p', w')" and "\<not> holds p" and "holds p'"
  shows "\<not> mutex (w_conf w) \<and> w' = set_mutex True w \<and> (\<exists>r. p' = Check r)"
  using assms by (cases rule: tstep.cases) auto

lemma tstep_leave:
  assumes "tstep env (p, w) (p', w')" and "holds p" and "\<not> holds p'" and "section_inv B p w"
  shows "w' = set_mutex False w \<and> conf_inv B w"
  using assms by (cases rule: tstep.cases) auto

lemma mutex_set_mutex [simp]: "mutex (w_conf (set_mutex m w)) = m"
  by (simp add: set_mutex_def)

text \<open>A step outside the critical section does not disturb the thread inside it.\<close>

lemma holder_outside:
  assumes inv: "holder_inv h B s" and step: "tstep env (t_pc s i, t_world s) (p, w)"
    and i: "\<not> holds (t_pc s i)" and p: "\<not> holds p"
  shows "holder_inv h B (s\<lparr>t_pc := (t_pc s)(i := p), t_world := w\<rparr>)"
proof -
  have f: "w_conf w = w_conf (t_world s)" "w_heap w = w_heap (t_world s)"
    using tstep_outside [OF step i p] by simp_all
  have "(case h of None \<Rightarrow> conf_inv B w | Some j \<Rightarrow> section_inv B (((t_pc s)(i := p)) j) w)"
  proof (cases h)
    case None
    with inv conf_inv_cong [OF f] show ?thesis
      by (simp add: holder_inv_def)
  next
    case (Some j)
    with inv i have "section_inv B (t_pc s j) (t_world s)" and "j \<noteq> i"
      by (auto simp: holder_inv_def)
    with Some section_inv_cong [OF f, of B "t_pc s j"] show ?thesis
      by simp
  qed
  moreover have "holds (((t_pc s)(i := p)) j) \<longleftrightarrow> h = Some j" for j
    using inv i p by (cases "j = i") (simp_all add: holder_inv_def)
  ultimately show ?thesis
    using inv f(1) unfolding holder_inv_def by (cases h) simp_all
qed

text \<open>A step of any thread keeps the invariant, whether it enters, leaves, or stays where it is.\<close>

lemma holder_step:
  assumes inv: "holder_inv h B s" and step: "tstep env (t_pc s i, t_world s) (p, w)"
  defines "s' \<equiv> s\<lparr>t_pc := (t_pc s)(i := p), t_world := w\<rparr>"
  shows "\<exists>h' B'. grows (unread_config (t_pc s i) w) B B' \<and> holder_inv h' B' s'"
proof (cases "holds (t_pc s i)"; cases "holds p")
  assume i: "holds (t_pc s i)" and p: "holds p"
  then have h: "h = Some i" and "section_inv B (t_pc s i) (t_world s)"
    using inv by (auto simp: holder_inv_def)
  from tstep_inside [OF step i p this(2)] obtain B'
    where "grows (unread_config (t_pc s i) w) B B'" "section_inv B' p w"
      "mutex (w_conf w) = mutex (w_conf (t_world s))"
    by auto
  then show ?thesis
    using inv h p by (intro exI [of _ h] exI [of _ B']) (auto simp: holder_inv_def s'_def)
next
  assume i: "holds (t_pc s i)" and p: "\<not> holds p"
  then have h: "h = Some i" and "section_inv B (t_pc s i) (t_world s)"
    using inv by (auto simp: holder_inv_def)
  from tstep_leave [OF step i p this(2)] show ?thesis
    using inv h p by (intro exI [of _ None] exI [of _ B]) (auto simp: holder_inv_def s'_def)
next
  assume i: "\<not> holds (t_pc s i)" and p: "holds p"
  from tstep_enter [OF step i p] obtain r where w: "\<not> mutex (w_conf (t_world s))"
      "w = set_mutex True (t_world s)" "p = Check r"
    by auto
  then have "h = None" "conf_inv B (t_world s)"
    using inv by (auto simp: holder_inv_def split: option.splits)
  with w show ?thesis
    using inv by (intro exI [of _ "Some i"] exI [of _ B]) (auto simp: holder_inv_def s'_def)
next
  assume i: "\<not> holds (t_pc s i)" and p: "\<not> holds p"
  then have "holder_inv h B s'"
    using holder_outside [OF inv step] by (simp add: s'_def)
  then show ?thesis
    by (intro exI [of _ h] exI [of _ B]) simp
qed

lemma threads_inv_step: "sys_step env s s' \<Longrightarrow> threads_inv B s \<Longrightarrow> threads_inv B s'"
proof (induction rule: sys_step.induct)
  case (one s i p w)
  then obtain h B1 where "B \<subseteq> B1" "holder_inv h B1 s"
    by (auto simp: threads_inv_def)
  with holder_step [OF this(2) one.hyps] show ?case
    unfolding threads_inv_def grows_def by (meson subset_trans)
qed

lemma threads_inv_init:
  assumes "conf_inv B w" and "\<not> mutex (w_conf w)"
  shows "threads_inv B (threads_init w)"
proof -
  have "holder_inv None B (threads_init w)"
    using assms by (simp add: holder_inv_def threads_init_def)
  then show ?thesis
    unfolding threads_inv_def by blast
qed

lemma threads_inv_reaches:
  assumes "reaches env (threads_init w) s" and "conf_inv B w" and "\<not> mutex (w_conf w)"
  shows "threads_inv B s"
  using assms(1)
  by (induction rule: rtranclp_induct) (auto intro: threads_inv_init [OF assms(2,3)] threads_inv_step)

section \<open>Runs\<close>

text \<open>A run with the number of configurations that could not be read in it.\<close>

inductive sys_run :: "'os env \<Rightarrow> ('b, 'os) threads \<Rightarrow> nat \<Rightarrow> ('b, 'os) threads \<Rightarrow> bool" for env where
  run_none: "sys_run env s 0 s"
| run_step: "sys_run env s n s' \<Longrightarrow> tstep env (t_pc s' i, t_world s') (p, w) \<Longrightarrow>
    sys_run env s (n + unread_config (t_pc s' i) w) (s'\<lparr>t_pc := (t_pc s')(i := p), t_world := w\<rparr>)"

lemma sys_run_inv:
  assumes "sys_run env s n s'" and "holder_inv h B s"
  shows "\<exists>h' B'. grows n B B' \<and> holder_inv h' B' s'"
  using assms
proof (induction rule: sys_run.induct)
  case (run_none s)
  then show ?case
    by auto
next
  case (run_step s n s' i p w)
  then obtain h' B' where 1: "grows n B B'" "holder_inv h' B' s'"
    by blast
  from holder_step [OF this(2) run_step.hyps(2)] obtain h'' B'' where
      "grows (unread_config (t_pc s' i) w) B' B''"
      "holder_inv h'' B'' (s'\<lparr>t_pc := (t_pc s')(i := p), t_world := w\<rparr>)"
    by blast
  with grows_trans [OF 1(1)] show ?case
    by blast
qed

lemma threads_init_inv:
  assumes "conf_inv B w" and "\<not> mutex (w_conf w)"
  shows "holder_inv None B (threads_init w)"
  using assms by (simp add: holder_inv_def threads_init_def)

text \<open>When all threads are idle, nobody holds the mutex and the queue is sound.\<close>

lemma idle_inv:
  assumes "holder_inv h B s" and "\<forall>i. t_pc s i = Idle"
  shows "conf_inv B (t_world s)"
proof -
  have "h = None"
    using assms by (cases h) (auto simp: holder_inv_def)
  with assms(1) show ?thesis
    by (simp add: holder_inv_def)
qed

section \<open>Isolation\<close>

text \<open>A step of another thread than \<open>i\<close>.\<close>

inductive other_step :: "'os env \<Rightarrow> nat \<Rightarrow> ('b, 'os) threads \<Rightarrow> ('b, 'os) threads \<Rightarrow> bool" for env i where
  other: "j \<noteq> i \<Longrightarrow> tstep env (t_pc s j, t_world s) (p, w) \<Longrightarrow>
    other_step env i s (s\<lparr>t_pc := (t_pc s)(j := p), t_world := w\<rparr>)"

lemma other_step_frame:
  assumes "other_step env i s s'" and "holder_inv (Some i) B s"
  shows "holder_inv (Some i) B s' \<and> t_pc s' i = t_pc s i \<and>
    w_conf (t_world s') = w_conf (t_world s) \<and> w_heap (t_world s') = w_heap (t_world s)"
  using assms
proof (induction rule: other_step.induct)
  case (other j s p w)
  then have j: "\<not> holds (t_pc s j)" and m: "mutex (w_conf (t_world s))"
    by (auto simp: holder_inv_def)
  then have p: "\<not> holds p"
    using tstep_enter [OF other.hyps(2)] by blast
  from holder_outside [OF other.prems other.hyps(2) j p] tstep_outside [OF other.hyps(2) j p] other.hyps(1)
  show ?case
    by simp
qed

lemma others_frame:
  assumes "(other_step env i)\<^sup>*\<^sup>* s s'" and "holder_inv (Some i) B s"
  shows "holder_inv (Some i) B s' \<and> t_pc s' i = t_pc s i \<and>
    w_conf (t_world s') = w_conf (t_world s) \<and> w_heap (t_world s') = w_heap (t_world s)"
  using assms
proof (induction rule: rtranclp_induct)
  case (step s1 s2)
  then show ?case
    using other_step_frame [OF step.hyps(2)] by auto
qed simp

section \<open>Consequences\<close>

lemma holds_unique:
  assumes "threads_inv B s" and "holds (t_pc s i)" and "holds (t_pc s j)"
  shows "i = j"
proof -
  obtain h where "\<forall>i. holds (t_pc s i) \<longleftrightarrow> h = Some i"
    using assms(1) by (auto simp: threads_inv_def holder_inv_def)
  with assms(2,3) show ?thesis
    by (metis option.inject)
qed

lemma q_inv_live:
  assumes "q_inv B q w" and "e \<in> set (q_entries q)" and "a \<in> set (entry_blocks e)"
  shows "a \<in> h_live (w_heap w)"
proof -
  have "a \<in> set (q_blocks q)"
    using assms(2,3) by (auto simp: q_blocks_def entries_blocks_def)
  then show ?thesis
    using assms(1) by (simp add: q_inv_def owns_def)
qed

lemma scan_live:
  assumes "threads_inv B s" and "t_pc s i = Scan r es rc" and "e \<in> set es" and "a \<in> set (entry_blocks e)"
  shows "a \<in> h_live (w_heap (t_world s))"
proof -
  obtain h B' where inv: "holder_inv h B' s"
    using assms(1) by (auto simp: threads_inv_def)
  moreover have "holds (t_pc s i)"
    using assms(2) by simp
  ultimately have "section_inv B' (t_pc s i) (t_world s)"
    by (auto simp: holder_inv_def)
  then obtain q pre where "q_inv B' q (t_world s)" "q_entries q = pre @ es"
    using assms(2) by (auto simp: conf_inv_def)
  then show ?thesis
    using assms(3,4) q_inv_live [of B' q "t_world s" e a] by simp
qed

text \<open>What can stop a thread for good: an overrun in the injector or a fault of the operation.\<close>

fun faulty :: "'os env \<Rightarrow> 'b pc \<Rightarrow> 'os world \<Rightarrow> bool" where
  "faulty env (Scan r (e # es) rc) w \<longleftrightarrow> isl (inject_entry env (req_path r) (req_op r) e rc w)"
| "faulty env (Run r rc) w \<longleftrightarrow> rc = 0 \<and> isl (native env r w)"
| "faulty env _ w \<longleftrightarrow> False"

lemma inside_progress:
  assumes "holds p" and "section_inv B p w" and "\<not> faulty env p w"
  shows "\<exists>p' w'. tstep env (p, w) (p', w')"
proof (cases p)
  case (Check r)
  then have inv: "conf_inv B w"
    using assms(2) by simp
  obtain w' where "config_delete (errors (w_conf w)) w = Inr w'"
    using config_delete_inv [OF inv] by blast
  then show ?thesis
    using Check t_delete [of r w w' env] t_none [of r w env] t_scan [of r w _ env]
    by (cases "req_path r = config_path (w_conf w)"; cases "errors (w_conf w)") blast+
next
  case (Deleted r)
  then obtain q w' where "config_init env (req_path r) w = Inr (q, w')"
    using config_init_ok [of B w env "req_path r"] assms(2) by auto
  with Deleted t_init show ?thesis
    by blast
next
  case (Scan r es rc)
  show ?thesis
  proof (cases es)
    case Nil
    with Scan t_end show ?thesis
      by blast
  next
    case (Cons e es')
    with assms(3) Scan obtain rc' w' where "inject_entry env (req_path r) (req_op r) e rc w = Inr (rc', w')"
      by (cases "inject_entry env (req_path r) (req_op r) e rc w") auto
    with Scan Cons t_entry show ?thesis
      by blast
  qed
next
  case (Leave r rc)
  with t_unlock show ?thesis
    by blast
qed (use assms(1) in auto)

lemma outside_progress:
  assumes "\<not> holds p" and "p \<noteq> Idle" and "\<not> mutex (w_conf w) \<or> (\<forall>r. p \<noteq> Enter r)" and "\<not> faulty env p w"
  shows "\<exists>p' w'. tstep env (p, w) (p', w')"
proof (cases p)
  case (Run r rc)
  show ?thesis
  proof (cases "rc = 0")
    case True
    with Run assms(4) obtain ret out w' where "native env r w = Inr (ret, out, w')"
      by (cases "native env r w") auto
    with Run True t_native show ?thesis
      by blast
  next
    case False
    with Run t_injected show ?thesis
      by blast
  qed
qed (use assms in \<open>auto intro: t_lock t_return\<close>)

text \<open>While a thread is busy, some thread can go on or is about to fault: no deadlock.\<close>

lemma threads_progress:
  assumes "threads_inv B s" and "t_pc s i \<noteq> Idle"
  shows "\<exists>j. t_pc s j \<noteq> Idle \<and>
    ((\<exists>p w. tstep env (t_pc s j, t_world s) (p, w)) \<or> faulty env (t_pc s j) (t_world s))"
proof -
  obtain h B' where inv: "holder_inv h B' s"
    using assms(1) by (auto simp: threads_inv_def)
  show ?thesis
  proof (cases h)
    case (Some j)
    then have j: "holds (t_pc s j)" "section_inv B' (t_pc s j) (t_world s)"
      using inv by (auto simp: holder_inv_def)
    then have "t_pc s j \<noteq> Idle"
      by auto
    with inside_progress [OF j] show ?thesis
      by blast
  next
    case None
    then have "\<not> holds (t_pc s i)" "\<not> mutex (w_conf (t_world s))"
      using inv by (auto simp: holder_inv_def)
    with outside_progress [OF _ assms(2)] assms(2) show ?thesis
      by blast
  qed
qed

section \<open>One thread alone\<close>

lemma inject_loop_entry:
  assumes "op \<in> set (fuse_ops (e_build env))"
  shows "inject_loop env path op (op_label op) (e # es) rc w =
    and_then (inject_entry env path op e rc w) (\<lambda>(rc, w). inject_loop env path op (op_label op) es rc w)"
  using op_name_label [OF assms] by (simp add: inject_entry_def case_prod_unfold)

lemma scan_run:
  assumes "req_op r \<in> set (fuse_ops (e_build env))"
    and "inject_loop env (req_path r) (req_op r) (op_label (req_op r)) es rc w = Inr (rc', w')"
  shows "(tstep env)\<^sup>*\<^sup>* (Scan r es rc, w) (Leave r rc', w')"
  using assms(2)
proof (induction es arbitrary: rc w)
  case Nil
  then show ?case
    using t_end [of env r rc w] by auto
next
  case (Cons e es)
  then obtain rc1 w1 where e: "inject_entry env (req_path r) (req_op r) e rc w = Inr (rc1, w1)"
      "inject_loop env (req_path r) (req_op r) (op_label (req_op r)) es rc1 w1 = Inr (rc', w')"
    by (auto simp only: inject_loop_entry [OF assms(1)] res_iff)
  from t_entry [OF e(1)] Cons.IH [OF e(2)] show ?case
    by (rule converse_rtranclp_into_rtranclp)
qed

lemma set_mutex_twice [simp]: "set_mutex m (set_mutex n w) = set_mutex m w"
  by (simp add: set_mutex_def)

lemma set_mutex_conf [simp]:
  "config_path (w_conf (set_mutex m w)) = config_path (w_conf w)"
  "errors (w_conf (set_mutex m w)) = errors (w_conf w)"
  by (simp_all add: set_mutex_def)

text \<open>The two ways through the critical section.\<close>

lemma reload_run:
  assumes "error_inject env (req_path r) (req_op r) w = Inr (rc, w')" and unlocked: "\<not> mutex (w_conf w)"
    and path: "req_path r = config_path (w_conf w)"
  shows "\<exists>w1. (tstep env)\<^sup>*\<^sup>* (Check r, set_mutex True w) (Leave r rc, w1) \<and> w' = set_mutex False w1"
proof -
  obtain w1 q w2 where d: "config_delete (errors (w_conf (set_mutex True w))) (set_mutex True w) = Inr w1"
      and c: "config_init env (req_path r) w1 = Inr (q, w2)"
      and w': "rc = 0" "w' = set_mutex False (set_errors q w2)"
    using assms by (auto simp: error_inject_def Let_def res_iff)
  have "(tstep env)\<^sup>*\<^sup>* (Check r, set_mutex True w) (Deleted r, w1)"
    using path d by (intro r_into_rtranclp t_delete) simp_all
  also have "tstep env (Deleted r, w1) (Leave r 0, set_errors q w2)"
    using c by (rule t_init)
  finally show ?thesis
    using w' by blast
qed

lemma check_run:
  assumes op: "req_op r \<in> set (fuse_ops (e_build env))"
    and inj: "error_inject env (req_path r) (req_op r) w = Inr (rc, w')" and unlocked: "\<not> mutex (w_conf w)"
    and path: "req_path r \<noteq> config_path (w_conf w)"
  shows "\<exists>w1. (tstep env)\<^sup>*\<^sup>* (Check r, set_mutex True w) (Leave r rc, w1) \<and> w' = set_mutex False w1"
proof (cases "errors (w_conf w)")
  case None
  then have "w' = w" "rc = 0"
    using error_inject_other_path [OF unlocked path op] inj by simp_all
  moreover have "tstep env (Check r, set_mutex True w) (Leave r 0, set_mutex True w)"
    using path None by (intro t_none) simp_all
  ultimately show ?thesis
    using unlocked by (intro exI [of _ "set_mutex True w"]) (auto simp: set_mutex_def)
next
  case (Some q)
  then have "and_then (inject_loop env (req_path r) (req_op r) (op_label (req_op r)) (q_entries q) 0
      (set_mutex True w)) (\<lambda>(rc, w). Inr (rc, set_mutex False w)) = Inr (rc, w')"
    using error_inject_other_path [OF unlocked path op] inj by simp
  then obtain w1 where l: "inject_loop env (req_path r) (req_op r) (op_label (req_op r)) (q_entries q) 0
      (set_mutex True w) = Inr (rc, w1)" and w': "w' = set_mutex False w1"
    by (auto simp: res_iff)
  have "tstep env (Check r, set_mutex True w) (Scan r (q_entries q) 0, set_mutex True w)"
    using path Some by (intro t_scan) simp_all
  from converse_rtranclp_into_rtranclp [OF this scan_run [OF op l]] w' show ?thesis
    by blast
qed

lemma inject_run:
  assumes "req_op r \<in> set (fuse_ops (e_build env))"
    and "error_inject env (req_path r) (req_op r) w = Inr (rc, w')"
  shows "(tstep env)\<^sup>*\<^sup>* (Enter r, w) (Run r rc, w')"
proof -
  have unlocked: "\<not> mutex (w_conf w)"
    using assms(2) by (auto simp: error_inject_def split: if_splits)
  obtain w1 where run: "(tstep env)\<^sup>*\<^sup>* (Check r, set_mutex True w) (Leave r rc, w1)"
      and w': "w' = set_mutex False w1"
    using reload_run [OF assms(2) unlocked] check_run [OF assms unlocked] by blast
  note run
  also have "tstep env (Leave r rc, w1) (Run r rc, w')"
    unfolding w' by (rule t_unlock)
  finally show ?thesis
    using t_lock [OF unlocked] by (rule converse_rtranclp_into_rtranclp [rotated])
qed

text \<open>A thread that is not disturbed computes the callback, and then the run that serves it can end.\<close>

lemma callback_run:
  assumes "unreliable_ops env r = Some f" and "f w = Inr (ret, out, w')"
  shows "(tstep env)\<^sup>*\<^sup>* (Enter r, w) (Done r ret out, w')"
proof -
  obtain rc w1 where i: "error_inject env (req_path r) (req_op r) w = Inr (rc, w1)"
    using callback_process [OF assms] by blast
  have "tstep env (Run r rc, w1) (Done r ret out, w')"
  proof (cases "rc = 0")
    case True
    then have "native env r w1 = Inr (ret, out, w')"
      using callback_passed [OF assms(1)] i assms(2) by simp
    with True show ?thesis
      by (auto intro: t_native)
  next
    case False
    then have "ret = (if rc = - ERRNO_NOOP then 0 else rc)" "out = req_out r" "w' = w1"
      using callback_suppressed [OF assms(1), of w w1] callback_injected [OF assms(1) i False] i assms(2)
      by (cases "rc = - ERRNO_NOOP"; simp)+
    with t_injected [OF False, of env r w1] show ?thesis
      by simp
  qed
  with inject_run [OF callback_op [OF assms(1)] i] show ?thesis
    by (rule rtranclp.rtrancl_into_rtrancl)
qed

lemma alone_run:
  assumes "(tstep env)\<^sup>*\<^sup>* (p, w) (p', w')"
  shows "\<exists>n. sys_run env \<lparr>t_pc = (\<lambda>_. Idle)(0 := p), t_world = w\<rparr> n \<lparr>t_pc = (\<lambda>_. Idle)(0 := p'), t_world = w'\<rparr>"
  using assms
proof (induction rule: rtranclp_induct2)
  case refl
  then show ?case
    using run_none by blast
next
  case (step p1 w1 p2 w2)
  then obtain n where
      "sys_run env \<lparr>t_pc = (\<lambda>_. Idle)(0 := p), t_world = w\<rparr> n \<lparr>t_pc = (\<lambda>_. Idle)(0 := p1), t_world = w1\<rparr>"
    by blast
  from run_step [OF this, of 0 p2 w2] step.hyps(2)
  have "sys_run env \<lparr>t_pc = (\<lambda>_. Idle)(0 := p), t_world = w\<rparr> (n + unread_config p1 w2)
      \<lparr>t_pc = (\<lambda>_. Idle)(0 := p2), t_world = w2\<rparr>"
    by simp
  then show ?case
    by blast
qed

lemma served_run:
  fixes r :: "'b fuse_request"
  assumes "unreliable_ops env r = Some f" and "f w = Inr (ret, out, w')"
  shows "\<exists>n. sys_run env (threads_init w) n (threads_init w' :: ('b, 'os) threads)"
proof -
  have call: "tstep env (Idle, w) (Enter r, w)"
    using assms(1) by (intro t_call) simp
  have return: "tstep env (Done r ret out, w') (Idle, w')"
    by (rule t_return)
  have "(tstep env)\<^sup>*\<^sup>* (Idle, w) (Done r ret out, w')"
    using call callback_run [OF assms] by (rule converse_rtranclp_into_rtranclp)
  then have "(tstep env)\<^sup>*\<^sup>* (Idle :: 'b pc, w) (Idle, w')"
    using return by (rule rtranclp.rtrancl_into_rtrancl)
  from alone_run [OF this] show ?thesis
    by (simp add: threads_init_def fun_upd_idem)
qed

end
