(* ===== verification/Mount_Spec.thy ===== *)
theory Mount_Spec
  imports Mount Conf_Spec Threads
begin

text \<open>
  The life of a mounted file system: where the configuration is looked for, that the state FUSE
  starts from satisfies the invariant of the injections, and which blocks are left when the process
  ends: the one of \<open>realpath\<close>, and one for every configuration that existed and could not be read.
\<close>

section \<open>Enough memory\<close>

text \<open>Memory does not run out and \<open>fopen\<close> succeeds.\<close>

definition plenty :: "'os env \<Rightarrow> bool" where
  "plenty env \<longleftrightarrow> enough_memory env \<and> (\<forall>p s. fst (e_fopen env p s) \<noteq> None)"

lemma plenty_memory: "plenty env \<Longrightarrow> enough_memory env"
  by (simp add: plenty_def)

lemmas plenty_malloc = enough_malloc [OF plenty_memory]

lemma config_init_plenty:
  assumes "plenty env" and own: "owns B [] (w_heap w)"
  obtains q w' where "config_init env path w = Inr (Some q, w')" and "q_inv B q w'"
    and "w_conf w' = w_conf w"
proof -
  obtain w1 where m: "c_malloc env w = (Some (h_next (w_heap w)), w1)"
    using plenty_malloc [OF assms(1)] .
  let ?q = "\<lparr>q_addr = h_next (w_heap w), q_entries = []\<rparr>"
  obtain r d w2 where acc: "do_sys env (Access path F_OK) w1 = (r, d, w2)"
    by (metis prod_cases3)
  have q2: "q_inv B ?q w2" "w_conf w2 = w_conf w"
    using owns_malloc [OF own m] c_malloc_frame [OF m] do_sys_frame [OF acc]
    by (auto simp: q_inv_def q_blocks_def)
  obtain f os where f: "e_fopen env path (w_os w2) = (Some f, os)"
    using assms(1) by (cases "e_fopen env path (w_os w2)") (auto simp: plenty_def, metis fst_conv option.distinct(1))
  obtain rc q' w3 where
      parse: "ini_parse (q_fopen env) (q_fclose env) path (conf_option_handler env) (?q, w2) =
        Inr (rc, q', w3)" and rc: "\<not> rc < 0"
      and q3: "q_inv B q' w3" "w_conf w3 = w_conf w"
    using ini_parse_conf [OF q2(1) plenty_memory [OF assms(1)] f] q2(2) by (metis not_less)
  show thesis
    using that m acc parse rc q2 q3 by (cases "r = 0") (auto simp: config_init_def Let_def)
qed

text \<open>Then every reload gets a configuration.\<close>

lemma sys_run_plenty:
  assumes "sys_run env s n s'" and "plenty env" and "holder_inv h B s"
  shows "n = 0"
  using assms(1,3)
proof (induction rule: sys_run.induct)
  case (run_step s n s' i p w)
  obtain h' B' where inv: "holder_inv h' B' s'"
    using sys_run_inv [OF run_step.hyps(1) run_step.prems] by blast
  have "unread_config (t_pc s' i) w = 0"
    using run_step.hyps(2)
  proof (cases rule: tstep.cases)
    case (t_init r q w1)
    then have "holds (t_pc s' i)"
      by simp
    then have "h' = Some i"
      using inv by (simp add: holder_inv_def)
    then have "owns B' [] (w_heap (t_world s'))"
      using inv t_init by (simp add: holder_inv_def)
    with config_init_plenty [OF assms(2)] t_init have "q \<noteq> None"
      by (metis Inr_inject Pair_inject option.distinct(1))
    with t_init show ?thesis
      by (simp add: set_errors_def)
  qed simp_all
  with run_step.IH [OF run_step.prems] show ?case
    by simp
qed simp

section \<open>The configuration path\<close>

lemma build_config_path_ok:
  assumes "build_config_path env h w = (Some p, w')" and "owns B [] (w_heap w)"
  shows "\<exists>real os. m_realpath h (basedir (w_conf w)) (w_os w) = (Some real, os) \<and>
    basedir (w_conf w') = real \<and> config_path (w_conf w') = real @ ''/unreliablefs.conf'' \<and>
    errors (w_conf w') = errors (w_conf w) \<and> mutex (w_conf w') = mutex (w_conf w) \<and>
    p = Suc (h_next (w_heap w)) \<and>
    owns (insert p (insert (h_next (w_heap w)) B)) [] (w_heap w')"
  using assms
  by (auto simp: build_config_path_def c_malloc_def with_conf_def snprintf_array_def Let_def owns_def
      DEFAULT_CONF_NAME_def split: prod.splits option.splits if_splits) (metis less_SucI)

section \<open>From mount to exit\<close>

type_synonym dir_buf = "(string \<times> stat) list"

text \<open>
  Requests served by any number of threads, from all idle to all idle, in which \<open>k\<close> times the
  configuration could not be read; only what the callbacks do to the data of the process counts.
\<close>

definition fuse_run :: "'os env \<Rightarrow> 'os world \<Rightarrow> nat \<Rightarrow> 'os world \<Rightarrow> bool" where
  "fuse_run env w k w' \<longleftrightarrow>
     (\<exists>s :: (dir_buf, 'os) threads. sys_run env (threads_init w) k s \<and> (\<forall>i. t_pc s i = Idle) \<and>
        w_conf (t_world s) = w_conf w' \<and> w_heap (t_world s) = w_heap w')"

text \<open>
  What is assumed of \<open>fuse_main\<close>: when it is started on sound data and returns, it has done to the
  data of the process what such a run does.  It may as well not return, or fail.
\<close>

definition fuse_threads :: "'os env \<Rightarrow> 'os host \<Rightarrow> bool" where
  "fuse_threads env h \<longleftrightarrow>
     (\<forall>args B w ret w'. conf_inv B w \<and> \<not> mutex (w_conf w) \<and> m_fuse_main h args w = Inr (ret, w') \<longrightarrow>
        (\<exists>k. fuse_run env w k w'))"

text \<open>The world in which \<open>main\<close> calls \<open>fuse_main\<close>, after the configuration is read.\<close>

definition started :: "'os host \<Rightarrow> err_inj_q option \<Rightarrow> 'os world \<Rightarrow> 'os world" where
  "started h q w = set_mutex False ((set_errors q w)\<lparr>w_os := snd (m_mutex_init h (w_os w))\<rparr>)"

lemma owns_drop:
  assumes "owns (insert p B) [] (w_heap w)" and "p \<notin> B"
  obtains w' where "c_free p w = Inr w'" and "owns B [] (w_heap w')" and "w_conf w' = w_conf w"
proof -
  have "owns B [p] (w_heap w)"
    using assms by (auto simp: owns_def)
  then show thesis
    by (rule owns_free) (rule that)
qed

lemma mount_eq:
  assumes "build_config_path env h w = (Some p, w1)" and "\<forall>s. fst (m_mutex_init h s) = 0"
    and "config_init env (config_path (w_conf w1)) w1 = Inr (q, w2)"
  shows "mount env h args w =
    and_then (m_fuse_main h args (started h q w2)) (\<lambda>(ret, w).
    and_then (config_delete (errors (w_conf w)) w) (\<lambda>w. and_then (c_free p w) (\<lambda>w. Inr (ret, w))))"
proof -
  have "fst (m_mutex_init h (w_os w2)) = 0"
    using assms(2) by simp
  then show ?thesis
    using assms(1,3) by (simp add: mount_def started_def set_errors_def Let_def case_prod_unfold)
qed

text \<open>What is left when \<open>fuse_main\<close> has returned and the cleanup is done.\<close>

lemma cleanup:
  assumes "conf_inv B w" and "p \<in> B"
  shows "\<exists>w'. and_then (config_delete (errors (w_conf w)) w) (\<lambda>w. and_then (c_free p w) (\<lambda>w. Inr (ret, w))) =
      Inr (ret, w') \<and> h_live (w_heap w') = B - {p}"
proof -
  obtain w1 where w1: "config_delete (errors (w_conf w)) w = Inr w1" "owns B [] (w_heap w1)"
    using config_delete_inv [OF assms(1)] by blast
  then have "owns (insert p (B - {p})) [] (w_heap w1)"
    using assms(2) by (simp add: insert_absorb)
  then obtain w2 where "c_free p w1 = Inr w2" "owns (B - {p}) [] (w_heap w2)"
    using owns_drop [of p "B - {p}" w1] by blast
  with w1 show ?thesis
    by (simp add: owns_def)
qed

lemma started_inv: "conf_inv B (started h q w) \<longleftrightarrow> conf_inv B (set_errors q w)"
  by (simp add: started_def conf_inv_def q_inv_def set_mutex_def set_errors_def split: option.splits)

text \<open>The blocks after a run.\<close>

lemma fuse_run_inv:
  assumes "fuse_run env w k w'" and "conf_inv B w" and "\<not> mutex (w_conf w)"
  shows "\<exists>B'. grows k B B' \<and> conf_inv B' w' \<and> (plenty env \<longrightarrow> k = 0)"
proof -
  note init = threads_init_inv [OF assms(2,3)]
  obtain s :: "(dir_buf, _) threads" where run: "sys_run env (threads_init w) k s"
      and idle: "\<forall>i. t_pc s i = Idle"
      and eq: "w_conf (t_world s) = w_conf w'" "w_heap (t_world s) = w_heap w'"
    using assms(1) unfolding fuse_run_def by blast
  obtain h' B' where "grows k B B'" "holder_inv h' B' s"
    using sys_run_inv [OF run init] by blast
  moreover have "plenty env \<longrightarrow> k = 0"
    using sys_run_plenty [OF run _ init] by blast
  ultimately show ?thesis
    using idle_inv [OF _ idle] conf_inv_cong eq by metis
qed

lemma mount_cleans:
  assumes threads: "fuse_threads env h" and own: "owns B [] (w_heap w)"
    and path: "build_config_path env h w = (Some p, w1)" and mutex: "\<forall>s. fst (m_mutex_init h s) = 0"
    and conf: "config_init env (config_path (w_conf w1)) w1 = Inr (q, w2)"
    and main: "m_fuse_main h args (started h q w2) = Inr (ret, w4)"
  shows "\<exists>w' k L. mount env h args w = Inr (ret, w') \<and> fuse_run env (started h q w2) k w4 \<and>
    h_live (w_heap w') = insert (h_next (w_heap w)) B \<union> L \<and>
    finite L \<and> card L \<le> k + (if q = None then 1 else 0) \<and> (plenty env \<longrightarrow> L = {})"
proof -
  let ?r = "h_next (w_heap w)" and ?lost = "if q = None then 1 else 0 :: nat"
  let ?B = "insert p (insert ?r B)"
  have w1: "owns ?B [] (w_heap w1)" and p: "p = Suc ?r"
    using build_config_path_ok [OF path own] by auto
  then obtain B2 where B2: "grows ?lost ?B B2" "conf_inv B2 (started h q w2)"
    using config_init_section [OF conf w1] by (auto simp: started_inv)
  have free: "\<not> mutex (w_conf (started h q w2))"
    by (simp add: started_def set_mutex_def)
  then obtain k where run: "fuse_run env (started h q w2) k w4"
    using threads B2(2) main unfolding fuse_threads_def by blast
  from fuse_run_inv [OF run B2(2) free] obtain B3 where B3: "grows k B2 B3" "conf_inv B3 w4"
      and k: "plenty env \<longrightarrow> k = 0"
    by blast
  have g: "grows (?lost + k) ?B B3"
    using grows_trans [OF B2(1) B3(1)] .
  then have "p \<in> B3"
    by (auto simp: grows_def)
  with B3(2) obtain w' where m: "mount env h args w = Inr (ret, w')" "h_live (w_heap w') = B3 - {p}"
    using cleanup [of B3 w4 p ret] mount_eq [OF path mutex conf, of args] main by auto
  have "p \<notin> insert ?r B"
    using own p by (auto simp: owns_def)
  then have "B3 - {p} = insert ?r B \<union> (B3 - ?B)"
    using g by (auto simp: grows_def)
  moreover have "B3 - ?B = {}" if pl: "plenty env"
  proof -
    obtain q' w' where "config_init env (config_path (w_conf w1)) w1 = Inr (Some q', w')"
      using config_init_plenty [OF pl w1] .
    with conf k pl g show ?thesis
      by auto
  qed
  ultimately show ?thesis
    using g m run by (intro exI [of _ w'] exI [of _ k] exI [of _ "B3 - ?B"]) (auto simp: grows_def)
qed

end
