(* ===== verification/Sample.thy ===== *)
theory Sample
  imports Ops_Spec Mount_Spec
begin

text \<open>
  A small concrete system on which the hypotheses about the outside hold: the properties are
  evaluated on it.  It is a Linux build with every optional feature; files all have the same
  contents, a directory stream delivers the entries it still has, and \<open>rand\<close> plays a tape.
\<close>

record mini_os =
  mo_rand :: "int list"
  mo_fds :: "int list"
  mo_dir :: "dirent list"
  mo_made :: "string list"

definition mini_build :: build where
  "mini_build = \<lparr>b_platform = Linux, HAVE_XATTR = True, HAVE_FLOCK = True, HAVE_FALLOCATE = True,
     HAVE_UTIMENSAT = True\<rparr>"

definition mini_errno :: "errno_name \<Rightarrow> int" where
  "mini_errno e =
     (if e = EPERM then 1 else if e = ENOENT then 2 else if e = ENOMEM then 12
      else if e = EACCES then 13 else if e = EEXIST then 17 else 5)"

definition answer :: "int \<Rightarrow> payload \<Rightarrow> sysret" where
  "answer r d = \<lparr>sr_ret = r, sr_errno = 0, sr_data = d\<rparr>"

definition fresh_fd :: "mini_os \<Rightarrow> int" where
  "fresh_fd s = fold max (mo_fds s) 2 + 1"

definition mini_sys :: "syscall \<Rightarrow> mini_os \<Rightarrow> sysret \<times> mini_os" where
  "mini_sys c s =
     (case c of
        Open p fl m \<Rightarrow> (answer (fresh_fd s) Nothing, s\<lparr>mo_fds := fresh_fd s # mo_fds s\<rparr>)
      | Dup fd \<Rightarrow> (answer (fresh_fd s) Nothing, s\<lparr>mo_fds := fresh_fd s # mo_fds s\<rparr>)
      | Close fd \<Rightarrow> (answer 0 Nothing, s\<lparr>mo_fds := removeAll fd (mo_fds s)\<rparr>)
      | Pread fd n off \<Rightarrow> (answer (int (min n 5)) (Bytes (take n ''hello'')), s)
      | Pwrite fd str n off \<Rightarrow> (answer (int n) Nothing, s)
      | Readlink p n \<Rightarrow> (answer (int (min n 6)) (Bytes (take n ''target'')), s)
      | Opendir p \<Rightarrow> (answer 1 Nothing, s)
      | Readdir dp \<Rightarrow>
          (case mo_dir s of
             [] \<Rightarrow> (answer 0 Nothing, s)
           | (ino, ty, name) # es \<Rightarrow> (answer 1 (Dirent ino ty name), s\<lparr>mo_dir := es\<rparr>))
      | Mkdir p m \<Rightarrow>
          if p \<in> set (mo_made s) then (\<lparr>sr_ret = -1, sr_errno = 17, sr_data = Nothing\<rparr>, s)
          else (answer 0 Nothing, s\<lparr>mo_made := p # mo_made s\<rparr>)
      | _ \<Rightarrow> (answer 0 Nothing, s))"

definition mini_rand :: "mini_os \<Rightarrow> int \<times> mini_os" where
  "mini_rand s = (case mo_rand s of [] \<Rightarrow> (0, s) | r # rs \<Rightarrow> (\<bar>r\<bar>, s\<lparr>mo_rand := rs\<rparr>))"

text \<open>The environment in which every file that is opened has the given text.\<close>

definition mini_env :: "string \<Rightarrow> mini_os env" where
  "mini_env t =
     \<lparr>e_build = mini_build, e_sys = mini_sys, e_rand = mini_rand, e_memory = (\<lambda>s. (True, s)),
      e_fopen = (\<lambda>p s. (Some \<lparr>f_unread = t\<rparr>, s)), e_fclose = (\<lambda>s. s),
      e_regcomp = (\<lambda>re. 0), e_regexec = (\<lambda>re s. if re = s \<or> re = ''.*'' then 0 else 1),
      e_context = (\<lambda>s. Some 42), e_errno = mini_errno,
      e_stream = (\<lambda>s dp. dp \<noteq> 0), e_at_nofollow = 256\<rparr>"

definition mini_os0 :: mini_os where
  "mini_os0 = \<lparr>mo_rand = [], mo_fds = [0, 1, 2], mo_dir = [], mo_made = []\<rparr>"

definition mini_world :: "err_inj_q option \<Rightarrow> mini_os \<Rightarrow> mini_os world" where
  "mini_world q s =
     \<lparr>w_os = s, w_errno = 0, w_heap = \<lparr>h_next = 0, h_live = {}\<rparr>,
      w_conf = \<lparr>errors = q, basedir = ''/m'', config_path = ''/m/unreliablefs.conf'', seed = 1, debug = 0,
                mutex = False\<rparr>\<rparr>"

lemma mini_env_simps [simp]:
  "e_build (mini_env t) = mini_build" "e_sys (mini_env t) = mini_sys" "e_rand (mini_env t) = mini_rand"
  "e_memory (mini_env t) = (\<lambda>s. (True, s))" "e_fopen (mini_env t) = (\<lambda>p s. (Some \<lparr>f_unread = t\<rparr>, s))"
  "e_fclose (mini_env t) = (\<lambda>s. s)" "e_errno (mini_env t) = mini_errno"
  "e_regcomp (mini_env t) = (\<lambda>re. 0)"
  "e_regexec (mini_env t) = (\<lambda>re s. if re = s \<or> re = ''.*'' then 0 else 1)"
  "e_context (mini_env t) = (\<lambda>s. Some 42)" "e_stream (mini_env t) = (\<lambda>s dp. dp \<noteq> 0)" "e_at_nofollow (mini_env t) = 256"
  by (simp_all add: mini_env_def)

lemma mini_world_simps [simp]:
  "w_os (mini_world q s) = s" "w_errno (mini_world q s) = 0"
  "w_heap (mini_world q s) = \<lparr>h_next = 0, h_live = {}\<rparr>"
  "errors (w_conf (mini_world q s)) = q" "\<not> mutex (w_conf (mini_world q s))"
  "config_path (w_conf (mini_world q s)) = ''/m/unreliablefs.conf''"
  "basedir (w_conf (mini_world q s)) = ''/m''"
  by (simp_all add: mini_world_def)

lemma answer_simps [simp]: "sr_ret (answer r d) = r" "sr_data (answer r d) = d" "sr_errno (answer r d) = 0"
  by (simp_all add: answer_def)

lemma fold_max_ge: "(a :: int) \<le> fold max xs a" "x \<in> set xs \<Longrightarrow> x \<le> fold max xs (a :: int)"
proof (induction xs arbitrary: a)
  case (Cons y ys)
  { case 1 show ?case using Cons(1) [of "max y a"] by simp }
  { case 2 then show ?case using Cons(1,2) [of "max y a"] by auto }
qed simp_all

lemma fresh_fd: "fresh_fd s \<notin> set (mo_fds s)" "3 \<le> fresh_fd s"
  using fold_max_ge(2) [of "fresh_fd s" "mo_fds s" 2] fold_max_ge(1) [of 2 "mo_fds s"]
  by (auto simp: fresh_fd_def)

section \<open>The hypotheses hold\<close>

lemma mini_rand_nonneg: "rand_nonneg (mini_env t)"
  by (auto simp: rand_nonneg_def mini_rand_def split: list.splits)

lemma mini_sys_results: "sys_results (mini_env t)"
proof -
  have "-1 \<le> fresh_fd s" for s
    using fresh_fd(2) [of s] by simp
  then show ?thesis
    by (auto simp: sys_results_def mini_sys_def split: syscall.splits list.splits)
qed

lemma mini_sys_lengths: "sys_lengths (mini_env t)"
  by (auto simp: sys_lengths_def mini_sys_def split: syscall.splits list.splits)

definition mini_fds :: "mini_os \<Rightarrow> int set" where
  "mini_fds s = {fd \<in> set (mo_fds s). 0 \<le> fd}"

lemma mini_fd_kernel: "fd_kernel (mini_env t) mini_fds"
  unfolding fd_kernel_def
proof (intro conjI allI)
  fix c :: syscall and s
  have "0 \<le> fresh_fd s" "fresh_fd s \<noteq> -1" "fresh_fd s \<notin> set (mo_fds s)"
    using fresh_fd [of s] by auto
  then show "case e_sys (mini_env t) c s of (r, s') \<Rightarrow>
      (case c of
         Open p fl m \<Rightarrow> if sr_ret r = -1 then mini_fds s' = mini_fds s
                        else sr_ret r \<notin> mini_fds s \<and> mini_fds s' = insert (sr_ret r) (mini_fds s)
       | Dup fd \<Rightarrow> if sr_ret r = -1 then mini_fds s' = mini_fds s
                   else sr_ret r \<notin> mini_fds s \<and> mini_fds s' = insert (sr_ret r) (mini_fds s)
       | Close fd \<Rightarrow> mini_fds s' = mini_fds s - {fd}
       | Pread fd n off \<Rightarrow> mini_fds s' = mini_fds s
       | Pwrite fd str n off \<Rightarrow> mini_fds s' = mini_fds s
       | _ \<Rightarrow> True)"
    by (cases c) (auto simp: mini_sys_def mini_fds_def split: list.splits)
qed (simp add: mini_fds_def)

lemma mini_plenty: "plenty (mini_env t)" "enough_memory (mini_env t)"
  by (simp_all add: plenty_def enough_memory_def)

lemma mini_owns: "owns {} [] (w_heap (mini_world q s))"
  by (simp add: owns_def)

end
