(* ===== verification/Inject_Spec.thy ===== *)
theory Inject_Spec
  imports Errinj_Spec Conf_Spec
begin

text \<open>
  The injector on the level of the configuration: a list of injections, the state of the operating
  system and nothing else.  \<open>inject_all\<close> says which injections fire, in what order, and what the
  request is answered; \<open>error_inject\<close> is shown to compute it.
\<close>

section \<open>The errors of an operation\<close>

fun array_label :: "errno_array \<Rightarrow> string" where
  "array_label A_access = ''access''"
| "array_label A_chmod = ''chmod''"
| "array_label A_close = ''close''"
| "array_label A_creat = ''creat''"
| "array_label A_fallocate = ''fallocate''"
| "array_label A_fcntl = ''fcntl''"
| "array_label A_flock = ''flock''"
| "array_label A_fsync = ''fsync''"
| "array_label A_ftruncate = ''ftruncate''"
| "array_label A_getxattr = ''getxattr''"
| "array_label A_ioctl = ''ioctl''"
| "array_label A_link = ''link''"
| "array_label A_listxattr = ''listxattr''"
| "array_label A_lstat = ''lstat''"
| "array_label A_mkdir = ''mkdir''"
| "array_label A_mknod = ''mknod''"
| "array_label A_opendir = ''opendir''"
| "array_label A_read = ''read''"
| "array_label A_readdir = ''readdir''"
| "array_label A_readlink = ''readlink''"
| "array_label A_removexattr = ''removexattr''"
| "array_label A_rename = ''rename''"
| "array_label A_rmdir = ''rmdir''"
| "array_label A_setxattr = ''setxattr''"
| "array_label A_statfs = ''statfs''"
| "array_label A_symlink = ''symlink''"
| "array_label A_truncate = ''truncate''"
| "array_label A_unlink = ''unlink''"
| "array_label A_utimensat = ''utimensat''"
| "array_label A_write = ''write''"

definition errno_arrays :: "errno_array list" where
  "errno_arrays =
     [A_access, A_chmod, A_close, A_creat, A_fallocate, A_fcntl, A_flock, A_fsync, A_ftruncate, A_getxattr,
      A_ioctl, A_link, A_listxattr, A_lstat, A_mkdir, A_mknod, A_opendir, A_read, A_readdir, A_readlink,
      A_removexattr, A_rename, A_rmdir, A_setxattr, A_statfs, A_symlink, A_truncate, A_unlink, A_utimensat,
      A_write]"

text \<open>
  An operation draws from the table that has its own name; ten operations have no table of their own
  and share that of a related call.
\<close>

definition table_label :: "fuse_op \<Rightarrow> string" where
  "table_label op =
     (if op \<in> {OP_GETATTR, OP_FGETATTR} then ''lstat''
      else if op = OP_CHOWN then ''chmod''
      else if op = OP_OPEN then ''creat''
      else if op \<in> {OP_FLUSH, OP_RELEASE, OP_RELEASEDIR} then ''close''
      else if op = OP_FSYNCDIR then ''fsync''
      else if op = OP_LOCK then ''fcntl''
      else if op = OP_UTIMENS then ''utimensat''
      else op_label op)"

definition op_errnos :: "build \<Rightarrow> fuse_op \<Rightarrow> errno_name list" where
  "op_errnos b op =
     (case find (\<lambda>a. array_label a = table_label op) errno_arrays of
        None \<Rightarrow> []
      | Some a \<Rightarrow> (case errno_table (b_platform b) a of None \<Rightarrow> [] | Some tbl \<Rightarrow> tbl))"

lemma op_array_label:
  assumes "op_array b op = Some a"
  shows "find (\<lambda>a. array_label a = table_label op) errno_arrays = Some a"
  using assms by (cases op) (auto simp: table_label_def errno_arrays_def split: if_splits)

lemma op_errnos_table:
  assumes "compiles b" and "op \<in> set (fuse_ops b)"
  obtains a where "op_array b op = Some a" and "errno_table (b_platform b) a = Some (op_errnos b op)"
proof -
  obtain a tbl where a: "op_array b op = Some a" "errno_table (b_platform b) a = Some tbl"
    using compiles_table [OF assms] .
  with op_array_label [OF a(1)] that show thesis
    by (simp add: op_errnos_def)
qed

section \<open>Injections and requests\<close>

definition matches :: "'os env \<Rightarrow> string option \<Rightarrow> string \<Rightarrow> bool" where
  "matches env re s \<longleftrightarrow>
     (case re of None \<Rightarrow> True | Some r \<Rightarrow> e_regcomp env r = 0 \<and> e_regexec env r s = 0)"

text \<open>The requests an injection is for: by the path, and by the name of the operation.\<close>

definition concerns :: "'os env \<Rightarrow> injection \<Rightarrow> string \<Rightarrow> fuse_op \<Rightarrow> bool" where
  "concerns env i path op \<longleftrightarrow> matches env (i_path i) path \<and> matches env (i_op i) (op_label op)"

text \<open>
  What an injection that fires does to the answer and to the system.  \<open>None\<close> is the read past the end
  of the table of errors.
\<close>

definition carry_out :: "'os env \<Rightarrow> fuse_op \<Rightarrow> injection \<Rightarrow> int \<Rightarrow> 'os \<Rightarrow> (int \<times> 'os) option" where
  "carry_out env op i rc s =
     (case i_type i of
        ERRINJ_NOOP \<Rightarrow> Some (999, s)
      | ERRINJ_KILL_CALLER \<Rightarrow>
          Some (rc, case e_context env s of None \<Rightarrow> s | Some pid \<Rightarrow> snd (e_sys env (Kill pid 9) s))
      | ERRINJ_SLOWDOWN \<Rightarrow> Some (rc, snd (e_sys env (Nanosleep 0 (unat (i_dur i))) s))
      | ERRINJ_ERRNO \<Rightarrow>
          let tbl = op_errnos (e_build env) op; k = nat (fst (e_rand env s) mod (int (length tbl) + 1)) in
          if k < length tbl then Some (- e_errno env (tbl ! k), snd (e_rand env s)) else None)"

text \<open>
  One after the other: an injection fires when a number drawn from 0 to 100 is at most its
  probability and the request concerns it; the last one that sets the answer wins.
\<close>

fun inject_all :: "'os env \<Rightarrow> string \<Rightarrow> fuse_op \<Rightarrow> injection list \<Rightarrow> int \<Rightarrow> 'os \<Rightarrow> (int \<times> 'os) option" where
  "inject_all env path op [] rc s = Some (rc, s)"
| "inject_all env path op (i # is) rc s =
     (case (if fst (e_rand env s) mod 101 \<le> uint (i_prob i) \<and> concerns env i path op
            then carry_out env op i rc (snd (e_rand env s)) else Some (rc, snd (e_rand env s))) of
        None \<Rightarrow> None
      | Some (rc, s) \<Rightarrow> inject_all env path op is rc s)"

lemma applies_concerns: "applies env e path (op_label op) \<longleftrightarrow> concerns env (abs_entry e) path op"
  by (simp add: applies_def concerns_def matches_def abs_entry_def is_regex_matched_def Let_def
      split: option.split)

text \<open>The worlds the injector goes through differ from the first in the system and \<open>errno\<close> only.\<close>

definition same_process :: "'os world \<Rightarrow> 'os world \<Rightarrow> bool" where
  "same_process w w' \<longleftrightarrow> w_conf w' = w_conf w \<and> w_heap w' = w_heap w"

definition agrees :: "'os world \<Rightarrow> (int \<times> 'os world) res \<Rightarrow> (int \<times> 'os) option \<Rightarrow> bool" where
  "agrees w r m \<longleftrightarrow>
     (case m of
        None \<Rightarrow> r = Inl Read_oob
      | Some (rc, s) \<Rightarrow> \<exists>w'. r = Inr (rc, w') \<and> w_os w' = s \<and> same_process w w')"

lemma agreesI: "r = Inr (rc, w') \<Longrightarrow> same_process w w' \<Longrightarrow> agrees w r (Some (rc, w_os w'))"
  by (auto simp: agrees_def)

lemma same_process_do_sys: "same_process w (snd (snd (do_sys env c w)))"
  by (simp add: same_process_def do_sys_def case_prod_unfold)

lemma trigger_agrees:
  assumes "rand_nonneg env" and "compiles (e_build env)" and "op \<in> set (fuse_ops (e_build env))"
  shows "agrees w (trigger env op e rc w) (carry_out env op (abs_entry e) rc (w_os w))"
proof (cases "ec_type e")
  case ERRINJ_ERRNO
  obtain a where a: "op_array (e_build env) op = Some a"
      "errno_table (b_platform (e_build env)) a = Some (op_errnos (e_build env) op)"
    using op_errnos_table [OF assms(2,3)] .
  from ERRINJ_ERRNO op_random_errno_eq [OF assms(1) a, of w] show ?thesis
    by (simp add: trigger_def carry_out_def abs_entry_def agrees_def same_process_def Let_def)
next
  case ERRINJ_KILL_CALLER
  then show ?thesis
    by (cases "e_context env (w_os w)")
      (auto simp: trigger_def carry_out_def abs_entry_def agrees_def same_process_def do_sys_def
        DEFAULT_SIGNAL_NAME_def SIGKILL_def case_prod_unfold)
next
  case ERRINJ_SLOWDOWN
  then show ?thesis
    by (auto simp: trigger_def carry_out_def abs_entry_def agrees_def same_process_def do_sys_def case_prod_unfold)
next
  case ERRINJ_NOOP
  then show ?thesis
    by (simp add: trigger_def carry_out_def abs_entry_def agrees_def same_process_def ERRNO_NOOP_def)
qed

lemma agrees_and_then:
  assumes "agrees w1 r m" and "same_process w w1"
    and "\<And>rc w2. same_process w w2 \<Longrightarrow> agrees w (f (rc, w2)) (g rc (w_os w2))"
  shows "agrees w (and_then r f) (case m of None \<Rightarrow> None | Some (rc, s) \<Rightarrow> g rc s)"
proof (cases m)
  case None
  with assms(1) show ?thesis
    by (simp add: agrees_def)
next
  case (Some p)
  then obtain rc w2 where "r = Inr (rc, w2)" "m = Some (rc, w_os w2)" "same_process w w2"
    using assms(1,2) by (cases p) (auto simp: agrees_def same_process_def)
  with assms(3) show ?thesis
    by simp
qed

lemma inject_loop_agrees:
  assumes "rand_nonneg env" and "compiles (e_build env)" and "op \<in> set (fuse_ops (e_build env))"
    and "same_process w0 w"
  shows "agrees w0 (inject_loop env path op (op_label op) es rc w)
    (inject_all env path op (map abs_entry es) rc (w_os w))"
  using assms(4)
proof (induction es arbitrary: rc w)
  case Nil
  then show ?case
    by (simp add: agrees_def)
next
  case (Cons e es)
  let ?w = "snd (c_rand env w)"
  have w: "same_process w0 ?w" "w_os ?w = snd (e_rand env (w_os w))"
    using Cons.prems by (simp_all add: same_process_def)
  let ?fires = "fst (e_rand env (w_os w)) mod 101 \<le> uint (i_prob (abs_entry e)) \<and>
    concerns env (abs_entry e) path op"
  have "agrees ?w (if ?fires then trigger env op e rc ?w else Inr (rc, ?w))
      (if ?fires then carry_out env op (abs_entry e) rc (w_os ?w) else Some (rc, w_os ?w))"
    using trigger_agrees [OF assms(1-3), of ?w e rc] by (cases ?fires) (auto simp: agrees_def same_process_def)
  then have "agrees w0 (and_then (if ?fires then trigger env op e rc ?w else Inr (rc, ?w))
        (\<lambda>(rc, w). inject_loop env path op (op_label op) es rc w))
      (inject_all env path op (map abs_entry (e # es)) rc (w_os w))"
    unfolding list.map inject_all.simps w(2) [symmetric]
    by (rule agrees_and_then [OF _ w(1)]) (simp add: Cons.IH)
  moreover have "inject_loop env path op (op_label op) (e # es) rc w =
      and_then (if ?fires then trigger env op e rc ?w else Inr (rc, ?w))
        (\<lambda>(rc, w). inject_loop env path op (op_label op) es rc w)"
    using inject_loop_step [OF assms(1)] by (simp add: applies_concerns draw_def abs_entry_def del: inject_loop.simps)
  ultimately show ?case
    by simp
qed

lemma error_inject_agrees:
  assumes "rand_nonneg env" and "compiles (e_build env)" and "op \<in> set (fuse_ops (e_build env))"
    and "\<not> mutex (w_conf w)" and "path \<noteq> config_path (w_conf w)" and "errors (w_conf w) = Some q"
  shows "agrees w (error_inject env path op w) (inject_all env path op (abs_q q) 0 (w_os w))"
proof -
  have "agrees (set_mutex True w) (inject_loop env path op (op_label op) (q_entries q) 0 (set_mutex True w))
      (inject_all env path op (abs_q q) 0 (w_os w))"
    using inject_loop_agrees [OF assms(1-3), of "set_mutex True w" "set_mutex True w" path "q_entries q" 0]
    by (simp add: same_process_def abs_q_def set_mutex_def)
  then show ?thesis
    using error_inject_other_path [OF assms(4,5,3)] assms(4,6)
    by (auto simp: agrees_def same_process_def set_mutex_def split: option.splits)
qed

section \<open>Injections that are not for a request\<close>

lemma inject_loop_unconcerned:
  assumes "\<forall>e\<in>set es. \<not> concerns env (abs_entry e) path op"
  shows "\<exists>w'. inject_loop env path op (op_label op) es rc w = Inr (rc, w') \<and> same_process w w' \<and>
    w_os w' = ((\<lambda>s. snd (e_rand env s)) ^^ length es) (w_os w)"
  using assms
proof (induction es arbitrary: w)
  case Nil
  then show ?case
    by (simp add: same_process_def)
next
  case (Cons e es)
  let ?w = "snd (rand_range env MIN_PROBABLITY MAX_PROBABLITY w)"
  have w: "same_process w ?w" "w_os ?w = snd (e_rand env (w_os w))"
    by (simp_all add: rand_range_def same_process_def c_rand_def case_prod_unfold)
  obtain w' where "inject_loop env path op (op_label op) es rc ?w = Inr (rc, w')" "same_process ?w w'"
      "w_os w' = ((\<lambda>s. snd (e_rand env s)) ^^ length es) (w_os ?w)"
    using Cons by (metis list.set_intros(2))
  moreover have "inject_loop env path op (op_label op) (e # es) rc w =
      inject_loop env path op (op_label op) es rc ?w"
    using Cons.prems by (simp add: case_prod_unfold applies_concerns)
  ultimately show ?case
    using w by (auto simp: same_process_def funpow_Suc_right simp del: funpow.simps inject_loop.simps)
qed

lemma error_inject_unconcerned:
  assumes "op \<in> set (fuse_ops (e_build env))"
    and "\<not> mutex (w_conf w)" and "path \<noteq> config_path (w_conf w)" and "errors (w_conf w) = Some q"
    and "\<forall>i\<in>set (abs_q q). \<not> concerns env i path op"
  shows "\<exists>w'. error_inject env path op w = Inr (0, w') \<and> same_process w w' \<and>
    w_os w' = ((\<lambda>s. snd (e_rand env s)) ^^ length (abs_q q)) (w_os w)"
proof -
  have "\<forall>e\<in>set (q_entries q). \<not> concerns env (abs_entry e) path op"
    using assms(5) by (simp add: abs_q_def)
  from inject_loop_unconcerned [OF this, of 0 "set_mutex True w"] show ?thesis
    using error_inject_other_path [OF assms(2,3,1)] assms(2,4)
    by (auto simp: same_process_def set_mutex_def abs_q_def)
qed

end
