(* ===== verification/Errinj_Theorems.thy ===== *)
theory Errinj_Theorems
  imports Sample Inject_Spec
begin

text \<open>The properties of the fault injector and its configuration.\<close>

section \<open>Reading a configuration\<close>

text \<open>
  \<^bold>\<open>C3\<close>.  When the configuration file exists and can be read, \<open>config_init\<close> returns the queue the text
  describes: for each section one injection, in the order the sections first appear, with the
  regular expressions, probability and duration its options set last.  The queue owns its memory.
\<close>

theorem config_init_meaning:
  assumes "owns B [] (w_heap w)" and "enough_memory env"
    and "\<And>s. sr_ret (fst (e_sys env (Access path F_OK) s)) = 0"
    and "\<And>s. map_option f_unread (fst (e_fopen env path s)) = Some t"
  shows "\<exists>q w'. config_init env path w = Inr (Some q, w') \<and> abs_q q = injections t \<and> q_inv B q w'"
proof -
  obtain q w' where "config_init env path w = Inr (Some q, w')" "abs_q q = injections t" "q_inv B q w'"
    using config_init_reads [OF assms] .
  then show ?thesis by blast
qed

text \<open>A configuration with two sections, the second one setting its probability twice.\<close>

definition sample_conf :: "ini_section list" where
  "sample_conf =
     [(''errinj_noop'', [(''op_regexp'', ''mkdir''), (''probability'', ''100'')]),
      (''errinj_slowdown'', [(''probability'', ''5''), (''duration'', ''30''), (''probability'', ''50'')])]"

lemma sample_conf_ok: "list_all section_ok sample_conf"
  by (simp add: sample_conf_def section_ok_def pair_ok_def name_ok_def value_ok_def plain_def
      isspace_def rstrip_str_def)

lemma sample_injections:
  "injections (print_ini sample_conf) =
     [\<lparr>i_type = ERRINJ_NOOP, i_path = None, i_op = Some ''mkdir'', i_prob = 100, i_dur = 0\<rparr>,
      \<lparr>i_type = ERRINJ_SLOWDOWN, i_path = None, i_op = None, i_prob = 50, i_dur = 30\<rparr>]"
  by (simp add: injections_def ini_pairs_print [OF sample_conf_ok])
    (simp add: sample_conf_def flat_def inj_step_def inj_type_of_def inj_option_def blank_def atoi_def
      strtol10_def isspace_def isdigit_def)

theorem config_init_meaning_witness:
  "\<exists>q w'. config_init (mini_env (print_ini sample_conf)) ''/c'' (mini_world None mini_os0) =
       Inr (Some q, w') \<and>
     abs_q q =
       [\<lparr>i_type = ERRINJ_NOOP, i_path = None, i_op = Some ''mkdir'', i_prob = 100, i_dur = 0\<rparr>,
        \<lparr>i_type = ERRINJ_SLOWDOWN, i_path = None, i_op = None, i_prob = 50, i_dur = 30\<rparr>] \<and>
     q_inv {} q w'"
  using config_init_meaning [of "{}" "mini_world None mini_os0" "mini_env (print_ini sample_conf)"
      "''/c''" "print_ini sample_conf"] mini_owns [of None mini_os0] mini_plenty(2)
  by (simp add: mini_sys_def sample_injections)

text \<open>
  When the file exists and cannot be opened, \<open>config_init\<close> returns the null pointer and the queue
  head stays allocated, with nobody left to free it.
\<close>

lemma config_init_unreadable_leaks:
  assumes "owns B [] (w_heap w)" and "enough_memory env"
    and "\<And>s. sr_ret (fst (e_sys env (Access path F_OK) s)) = 0"
    and "\<And>s. fst (e_fopen env path s) = None"
  shows "\<exists>w'. config_init env path w = Inr (None, w') \<and> owns B [h_next (w_heap w)] (w_heap w')"
proof -
  obtain w1 where m: "c_malloc env w = (Some (h_next (w_heap w)), w1)"
    using enough_malloc [OF assms(2)] .
  then have o1: "owns B [h_next (w_heap w)] (w_heap w1)"
    using owns_malloc [OF assms(1) m] by simp
  obtain d w2 where a: "do_sys env (Access path F_OK) w1 = (0, d, w2)" and h: "w_heap w2 = w_heap w1"
    using assms(3) [of "w_os w1"] by (simp add: do_sys_def case_prod_unfold)
  obtain os where "e_fopen env path (w_os w2) = (None, os)"
    using assms(4) by (metis prod.collapse)
  with m a h o1 show ?thesis
    by (simp add: config_init_def ini_parse_def q_fopen_def Let_def)
qed

text \<open>
  \<^bold>\<open>C13\<close>.  Reading a configuration and deleting it again leaves the allocated blocks as they were:
  nothing is freed twice, nothing is lost.
\<close>

theorem config_init_delete:
  assumes "owns B [] (w_heap w)" and "config_init env path w = Inr (Some q, w')"
  shows "\<exists>w''. config_delete (Some q) w' = Inr w'' \<and> h_live (w_heap w'') = h_live (w_heap w)"
proof -
  have "q_inv B q w'"
    using config_init_ok [OF assms(1), of env path] assms(2) by auto
  then obtain w'' where "config_delete (Some q) w' = Inr w''" "owns B [] (w_heap w'')"
    by (rule config_delete_ok)
  with assms(1) show ?thesis
    by (auto simp: owns_def)
qed

theorem config_init_delete_witness:
  "\<exists>q w' w''. config_init (mini_env ''[errinj_errno]'') ''/c'' (mini_world None mini_os0) =
       Inr (Some q, w') \<and>
     config_delete (Some q) w' = Inr w'' \<and> h_live (w_heap w'') = {}"
proof -
  obtain q w' where "config_init (mini_env ''[errinj_errno]'') ''/c'' (mini_world None mini_os0) =
      Inr (Some q, w')"
    using config_init_plenty [OF mini_plenty(1) mini_owns] .
  with config_init_delete [OF mini_owns this] show ?thesis
    by auto
qed

text \<open>
  \<^bold>\<open>C19\<close>.  One option of the configuration file changes the queue as the manual says: in a section
  that names a type of injection the injection of that type, and only that one, gets the option;
  it is created when the section is the first of its type.  In an unknown section the queue stays.
\<close>

theorem conf_option_handler_refines:
  assumes "enough_memory env" and "conf_option_handler env (q, w) sec key val = Inr (rc, q', w')"
  shows "abs_q q' = inj_step sec key val (abs_q q)"
  using assms by (rule handler_abs_q)

theorem conf_option_handler_refines_witness:
  "\<exists>rc q' w'. conf_option_handler (mini_env []) (\<lparr>q_addr = 0, q_entries = []\<rparr>, mini_world None mini_os0)
       ''errinj_noop'' ''probability'' ''7'' = Inr (rc, q', w') \<and>
     abs_q q' = [\<lparr>i_type = ERRINJ_NOOP, i_path = None, i_op = None, i_prob = 7, i_dur = 0\<rparr>]"
proof -
  let ?q = "\<lparr>q_addr = 0, q_entries = []\<rparr> :: err_inj_q" and ?w = "mini_world None mini_os0"
  obtain rc q' w' where h: "conf_option_handler (mini_env []) (?q, ?w) ''errinj_noop'' ''probability'' ''7'' =
      Inr (rc, q', w')"
    by (simp add: conf_option_handler_def errinj_type_by_name_def errinj_name_def conf_entry_def
        c_malloc_def conf_set_option_def)
  from conf_option_handler_refines [OF mini_plenty(2) h] h show ?thesis
    by (simp add: abs_q_def inj_step_def inj_type_of_def inj_option_def blank_def atoi_def
        strtol10_def isspace_def isdigit_def)
qed

section \<open>The injector\<close>

text \<open>
  \<^bold>\<open>C14\<close>.  A request that names the configuration file reloads it: the old queue is freed, the new
  one satisfies the invariant, nothing is injected, and the mutex is released.
\<close>

theorem error_inject_reloads:
  assumes "conf_inv B w" and "\<not> mutex (w_conf w)" and "enough_memory env"
    and "\<And>s. sr_ret (fst (e_sys env (Access (config_path (w_conf w)) F_OK) s)) = 0"
    and "\<And>s. map_option f_unread (fst (e_fopen env (config_path (w_conf w)) s)) = Some t"
  shows "\<exists>q w'. error_inject env (config_path (w_conf w)) op w = Inr (0, w') \<and>
    w_conf w' = (w_conf w)\<lparr>errors := Some q\<rparr> \<and> abs_q q = injections t \<and> conf_inv B w'"
proof -
  let ?w = "set_mutex True w"
  obtain w1 where w1: "config_delete (errors (w_conf ?w)) ?w = Inr w1" "owns B [] (w_heap w1)"
      "w_conf w1 = w_conf ?w"
    using config_delete_inv [of B ?w] assms(1) by auto
  obtain q w2 where w2: "config_init env (config_path (w_conf w)) w1 = Inr (Some q, w2)"
      "abs_q q = injections t" "q_inv B q w2" "w_conf w2 = w_conf w1"
    using config_init_reads [OF w1(2) assms(3,4,5)] .
  have "error_inject env (config_path (w_conf w)) op w = Inr (0, set_mutex False (set_errors (Some q) w2))"
    using assms(2) w1 w2 by (simp add: error_inject_def Let_def set_mutex_def)
  moreover have "w_conf (set_mutex False (set_errors (Some q) w2)) = (w_conf w)\<lparr>errors := Some q\<rparr>"
    using assms(2) w1(3) w2(4) by (simp add: set_mutex_def set_errors_def)
  moreover have "conf_inv B (set_mutex False (set_errors (Some q) w2))"
    using w2(3) by (simp add: conf_inv_def set_mutex_def set_errors_def q_inv_def)
  ultimately show ?thesis
    using w2(2) by blast
qed

theorem error_inject_reloads_witness:
  "\<exists>q w'. error_inject (mini_env (print_ini sample_conf)) ''/m/unreliablefs.conf'' OP_GETATTR
       (mini_world None mini_os0) = Inr (0, w') \<and>
     w_conf w' = (w_conf (mini_world None mini_os0))\<lparr>errors := Some q\<rparr> \<and>
     abs_q q = injections (print_ini sample_conf) \<and> conf_inv {} w'"
  using error_inject_reloads [of "{}" "mini_world None mini_os0" "mini_env (print_ini sample_conf)"
      "print_ini sample_conf" OP_GETATTR] mini_plenty(2)
  by (simp add: conf_inv_def owns_def mini_sys_def)

text \<open>
  \<^bold>\<open>C5\<close>.  On any file but the configuration \<open>error_inject\<close> answers what the list of configured injections
  says: they are gone through in order, each fires when \<open>rand() mod 101\<close> is at most its probability
  (so one of probability 0 fires too, when the draw is 0) and its regular expressions match the path
  and the name of the operation; a suppression sets 999, an error is the negated element at \<open>rand() mod
  (n + 1)\<close> of the table named after the operation, and the last one that sets the answer wins.  When
  that remainder is the length of the table, the read past its end is the outcome.  The system sees
  just the draws, signals and delays of the injections that fire; the queue, the heap and the mutex
  are as before.
\<close>

theorem error_inject_refines:
  assumes "rand_nonneg env" and "compiles (e_build env)" and "op \<in> set (fuse_ops (e_build env))"
    and "\<not> mutex (w_conf w)" and "path \<noteq> config_path (w_conf w)" and "errors (w_conf w) = Some q"
  shows "case inject_all env path op (abs_q q) 0 (w_os w) of
      None \<Rightarrow> error_inject env path op w = Inl Read_oob
    | Some (rc, s) \<Rightarrow> \<exists>w'. error_inject env path op w = Inr (rc, w') \<and> w_os w' = s \<and>
        w_conf w' = w_conf w \<and> w_heap w' = w_heap w"
  using error_inject_agrees [OF assms] by (auto simp: agrees_def same_process_def split: option.splits)

text \<open>An entry without regular expressions.\<close>

definition sample_entry :: "errinj_type \<Rightarrow> 32 word \<Rightarrow> errinj_conf" where
  "sample_entry t p = (new_entry 1 t)\<lparr>probability := p\<rparr>"

definition sample_q :: "errinj_conf list \<Rightarrow> err_inj_q" where
  "sample_q es = \<lparr>q_addr = 0, q_entries = es\<rparr>"

lemma sample_entry_simps [simp]:
  "ec_type (sample_entry t p) = t" "probability (sample_entry t p) = p"
  "path_regexp (sample_entry t p) = None" "op_regexp (sample_entry t p) = None"
  "q_entries (sample_q es) = es"
  by (simp_all add: sample_entry_def new_entry_def sample_q_def)

lemma mini_ops [simp]: "op \<in> set (fuse_ops mini_build)"
  by (cases op) (simp_all add: fuse_ops_def mini_build_def only_if_def is_openbsd_def)

lemma applies_plain [simp]: "applies env (sample_entry t p) path opn"
  by (simp add: applies_def is_regex_matched_def)

text \<open>\<open>rand()\<close> first returns 0, which lets the injection fire, then 1, which picks the second error.\<close>

definition sample_errno_world :: "mini_os world" where
  "sample_errno_world =
     mini_world (Some (sample_q [sample_entry ERRINJ_ERRNO 10])) (mini_os0\<lparr>mo_rand := [0, 1]\<rparr>)"

lemma sample_errno_run:
  "\<exists>w'. error_inject (mini_env []) ''/f'' OP_ACCESS sample_errno_world =
     Inr (- mini_errno (linux_errno_access ! 1), w')"
proof -
  let ?w = "snd (c_rand (mini_env []) (set_mutex True sample_errno_world))"
  have "mo_rand (w_os ?w) = [1]"
    by (simp add: sample_errno_world_def set_mutex_def mini_rand_def)
  then have "\<exists>w'. op_random_errno (mini_env []) OP_ACCESS ?w = Inr (mini_errno (linux_errno_access ! 1), w')"
    using op_random_errno_eq [OF mini_rand_nonneg, of "[]" OP_ACCESS A_access linux_errno_access ?w]
    by (simp add: mini_build_def mini_rand_def linux_errno_access_def del: c_rand_world)
  then obtain w' where "trigger (mini_env []) OP_ACCESS (sample_entry ERRINJ_ERRNO 10) 0 ?w =
      Inr (- mini_errno (linux_errno_access ! 1), w')"
    by (auto simp: trigger_def)
  moreover have "draw (mini_env []) (set_mutex True sample_errno_world) = 0"
    by (simp add: draw_def sample_errno_world_def set_mutex_def mini_rand_def)
  ultimately have "inject_loop (mini_env []) ''/f'' OP_ACCESS (op_label OP_ACCESS)
      [sample_entry ERRINJ_ERRNO 10] 0 (set_mutex True sample_errno_world) =
      Inr (- mini_errno (linux_errno_access ! 1), w')"
    by (subst inject_loop_step [OF mini_rand_nonneg]) simp
  then show ?thesis
    using error_inject_other_path [of sample_errno_world "''/f''" OP_ACCESS "mini_env []"]
    by (simp add: sample_errno_world_def del: inject_loop.simps)
qed

lemma mini_compiles [simp]: "compiles mini_build"
  by (simp add: compiles_iff mini_build_def)

theorem error_inject_refines_witness:
  "inject_all (mini_env []) ''/f'' OP_ACCESS (abs_q (sample_q [sample_entry ERRINJ_ERRNO 10])) 0
       (w_os sample_errno_world) = Some (- mini_errno (linux_errno_access ! 1), mini_os0) \<and>
   (\<exists>w'. error_inject (mini_env []) ''/f'' OP_ACCESS sample_errno_world =
       Inr (- mini_errno (linux_errno_access ! 1), w') \<and> w_os w' = mini_os0)"
proof -
  have "op_errnos mini_build OP_ACCESS = linux_errno_access"
    by (simp add: op_errnos_def table_label_def errno_arrays_def mini_build_def)
  then have a: "inject_all (mini_env []) ''/f'' OP_ACCESS (abs_q (sample_q [sample_entry ERRINJ_ERRNO 10])) 0
      (w_os sample_errno_world) = Some (- mini_errno (linux_errno_access ! 1), mini_os0)"
    by (simp add: abs_q_def abs_entry_def sample_errno_world_def concerns_def matches_def carry_out_def
        mini_rand_def Let_def linux_errno_access_def mini_os0_def)
  with error_inject_refines [of "mini_env []" OP_ACCESS sample_errno_world "''/f''"
      "sample_q [sample_entry ERRINJ_ERRNO 10]"] mini_rand_nonneg [of "[]"]
  show ?thesis
    by (auto simp: sample_errno_world_def)
qed

text \<open>
  \<^bold>\<open>C15\<close>.  In a state that satisfies the invariant the only thing that can go wrong inside
  \<open>error_inject\<close> is the choice of a random error number past the end of its table: no double free,
  no deadlock on the mutex, no endless loop; and a reload cannot fail at all.
\<close>

theorem error_inject_fault_is_overrun:
  assumes "conf_inv B w" and "\<not> mutex (w_conf w)" and "op \<in> set (fuse_ops (e_build env))"
    and "error_inject env path op w = Inl e"
  shows "e = Read_oob \<and> path \<noteq> config_path (w_conf w)"
  using assms by (rule error_inject_faults)

text \<open>\<open>rand()\<close> returns 0, then the length of the table.\<close>

definition sample_overrun_world :: "mini_os world" where
  "sample_overrun_world =
     (mini_world (Some (sample_q [sample_entry ERRINJ_ERRNO 10]))
        (mini_os0\<lparr>mo_rand := [0, int (length linux_errno_access)]\<rparr>))
     \<lparr>w_heap := \<lparr>h_next = 2, h_live = {0, 1}\<rparr>\<rparr>"

lemma sample_overrun_inv: "conf_inv {} sample_overrun_world"
  by (auto simp: conf_inv_def sample_overrun_world_def mini_world_def q_inv_def owns_def q_blocks_def
      sample_q_def entry_blocks_def sample_entry_def new_entry_def)

lemma sample_overrun_run: "error_inject (mini_env []) ''/f'' OP_ACCESS sample_overrun_world = Inl Read_oob"
proof -
  let ?w = "snd (c_rand (mini_env []) (set_mutex True sample_overrun_world))"
  have "mo_rand (w_os ?w) = [int (length linux_errno_access)]"
    by (simp add: sample_overrun_world_def set_mutex_def mini_rand_def)
  then have "op_random_errno (mini_env []) OP_ACCESS ?w = Inl Read_oob"
    using op_random_errno_eq [OF mini_rand_nonneg, of "[]" OP_ACCESS A_access linux_errno_access ?w]
    by (simp add: mini_build_def mini_rand_def del: c_rand_world)
  then have "trigger (mini_env []) OP_ACCESS (sample_entry ERRINJ_ERRNO 10) 0 ?w = Inl Read_oob"
    by (simp add: trigger_def)
  moreover have "draw (mini_env []) (set_mutex True sample_overrun_world) = 0"
    by (simp add: draw_def sample_overrun_world_def set_mutex_def mini_rand_def)
  ultimately have "inject_loop (mini_env []) ''/f'' OP_ACCESS (op_label OP_ACCESS)
      [sample_entry ERRINJ_ERRNO 10] 0 (set_mutex True sample_overrun_world) = Inl Read_oob"
    by (subst inject_loop_step [OF mini_rand_nonneg]) simp
  then show ?thesis
    using error_inject_other_path [of sample_overrun_world "''/f''" OP_ACCESS "mini_env []"]
    by (simp add: sample_overrun_world_def del: inject_loop.simps)
qed

theorem error_inject_fault_is_overrun_witness:
  "error_inject (mini_env []) ''/f'' OP_ACCESS sample_overrun_world = Inl Read_oob \<and>
   ''/f'' \<noteq> config_path (w_conf sample_overrun_world)"
proof -
  have "\<not> mutex (w_conf sample_overrun_world)"
    by (simp add: sample_overrun_world_def)
  from error_inject_fault_is_overrun [OF sample_overrun_inv this _ sample_overrun_run] sample_overrun_run
  show ?thesis by simp
qed

text \<open>
  \<^bold>\<open>C16\<close>.  The random error number is the table's entry at \<open>rand() mod (n + 1)\<close>, where \<open>n\<close> is the
  length of the table; for the remainder \<open>n\<close> the element after the last one is read.
\<close>

theorem op_random_errno_exact:
  assumes "rand_nonneg env" and "op_array (e_build env) op = Some a"
    and "errno_table (b_platform (e_build env)) a = Some tbl"
  shows "op_random_errno env op w =
    (let i = nat (fst (e_rand env (w_os w)) mod (int (length tbl) + 1)) in
     if i < length tbl then Inr (e_errno env (tbl ! i), snd (c_rand env w)) else Inl Read_oob)"
  using op_random_errno_eq [OF assms] by (simp add: Let_def)

theorem op_random_errno_exact_witness:
  "op_random_errno (mini_env []) OP_ACCESS
       (mini_world None (mini_os0\<lparr>mo_rand := [int (length linux_errno_access)]\<rparr>)) = Inl Read_oob"
  using op_random_errno_exact [OF mini_rand_nonneg, of "[]" OP_ACCESS A_access linux_errno_access
      "mini_world None (mini_os0\<lparr>mo_rand := [int (length linux_errno_access)]\<rparr>)"]
  by (simp add: mini_build_def mini_rand_def Let_def)

text \<open>
  \<^bold>\<open>C17\<close>.  An injection is for the requests its regular expressions match, and for no others: when for
  every configured injection the path or the name of the operation does not match, or an expression
  does not compile, nothing is injected whatever the probabilities and the random numbers are.  One
  number is drawn per injection and that is all the system sees.
\<close>

theorem error_inject_selects:
  assumes "op \<in> set (fuse_ops (e_build env))"
    and "\<not> mutex (w_conf w)" and "path \<noteq> config_path (w_conf w)" and "errors (w_conf w) = Some q"
    and "\<forall>i\<in>set (abs_q q). \<exists>re s. (i_path i = Some re \<and> s = path \<or> i_op i = Some re \<and> s = op_label op) \<and>
      (e_regcomp env re \<noteq> 0 \<or> e_regexec env re s \<noteq> 0)"
  shows "\<exists>w'. error_inject env path op w = Inr (0, w') \<and> w_conf w' = w_conf w \<and> w_heap w' = w_heap w \<and>
    w_os w' = ((\<lambda>s. snd (e_rand env s)) ^^ length (abs_q q)) (w_os w)"
proof -
  have "\<forall>i\<in>set (abs_q q). \<not> concerns env i path op"
    using assms(5) by (fastforce simp: concerns_def matches_def)
  from error_inject_unconcerned [OF assms(1-4) this] show ?thesis
    by (auto simp: same_process_def)
qed

text \<open>A suppression of \<open>rmdir\<close> with probability 100.\<close>

definition rmdir_entry :: errinj_conf where
  "rmdir_entry = (sample_entry ERRINJ_NOOP 100)\<lparr>op_regexp := Some (2, ''rmdir'')\<rparr>"

theorem error_inject_selects_witness:
  "\<exists>w'. error_inject (mini_env []) ''/f'' OP_MKDIR (mini_world (Some (sample_q [rmdir_entry])) mini_os0) =
       Inr (0, w') \<and> w_os w' = mini_os0"
  using error_inject_selects [of OP_MKDIR "mini_env []" "mini_world (Some (sample_q [rmdir_entry])) mini_os0"
      "''/f''" "sample_q [rmdir_entry]"]
  by (auto simp: abs_q_def abs_entry_def rmdir_entry_def mini_rand_def mini_os0_def)

section \<open>Tables\<close>

text \<open>
  \<^bold>\<open>C20\<close>.  For every build and every operation it declares, \<open>fuse_op_name[operation]\<close> is inside the
  array and is the operation's own name: the enumeration and the table of names are cut by the
  same conditions.
\<close>

theorem fuse_op_name_correct:
  assumes "op \<in> set (fuse_ops b)"
  shows "op_name b op = Some (Inr (op_label op))"
  using assms by (rule op_name_label)

theorem fuse_op_name_correct_witness:
  "op_name \<lparr>b_platform = OpenBSD, HAVE_XATTR = False, HAVE_FLOCK = True, HAVE_FALLOCATE = False,
            HAVE_UTIMENSAT = True\<rparr> OP_UTIMENS = Some (Inr ''utimens'')"
  using fuse_op_name_correct [of OP_UTIMENS "\<lparr>b_platform = OpenBSD, HAVE_XATTR = False, HAVE_FLOCK = True,
      HAVE_FALLOCATE = False, HAVE_UTIMENSAT = True\<rparr>"]
  by (simp add: fuse_ops_def only_if_def)

text \<open>
  \<^bold>\<open>C21\<close>.  The switch of \<open>op_random_errno\<close> finds its tables on Linux with every feature; on the other
  platforms just the features whose tables the header lacks stop the compilation.
\<close>

theorem builds_that_compile:
  "compiles b \<longleftrightarrow>
     (case b_platform b of
        Linux \<Rightarrow> True
      | FreeBSD v \<Rightarrow> \<not> HAVE_XATTR b \<and> \<not> HAVE_FALLOCATE b
      | OpenBSD \<Rightarrow> \<not> HAVE_XATTR b \<and> \<not> HAVE_FALLOCATE b
      | MacOSX \<Rightarrow> \<not> HAVE_FALLOCATE b)"
  by (rule compiles_iff)

end
