(* ===== verification/Conf_Buffers.thy ===== *)
theory Conf_Buffers
  imports Conf_Spec
begin

text \<open>
  The line buffer of the parser on the process heap: \<open>malloc\<close>, \<open>realloc\<close> and \<open>free\<close> on the blocks of
  \<open>Machine\<close> meet the contract \<open>line_memory\<close>.  The parser with its buffer in a block is then
  interpreted for handlers that leave the heap alone and for the handler of the configuration,
  which allocates the queue between the lines.
\<close>

section \<open>The allocation functions\<close>

text \<open>
  The bytes of a new block are whatever \<open>junk\<close> says.  \<open>realloc\<close> moves the block; when it fails the old
  one stays.
\<close>

definition heap_malloc :: "'os env \<Rightarrow> (nat \<Rightarrow> nat \<Rightarrow> char) \<Rightarrow> nat \<Rightarrow> 'q \<times> 'os world \<Rightarrow>
    (nat \<times> buf) option \<times> 'q \<times> 'os world" where
  "heap_malloc env junk n qw =
     (case qw of (q, w) \<Rightarrow>
        (case c_malloc env w of
           (None, w) \<Rightarrow> (None, q, w)
         | (Some a, w) \<Rightarrow> (Some (a, map (junk a) [0..<n]), q, w)))"

definition heap_realloc :: "'os env \<Rightarrow> (nat \<Rightarrow> nat \<Rightarrow> char) \<Rightarrow> nat \<Rightarrow> buf \<Rightarrow> nat \<Rightarrow> 'q \<times> 'os world \<Rightarrow>
    (nat \<times> buf) option \<times> 'q \<times> 'os world" where
  "heap_realloc env junk a l n qw =
     (case heap_malloc env junk n qw of
        (None, qw) \<Rightarrow> (None, qw)
      | (Some (a', l'), q, w) \<Rightarrow>
          (Some (a', take n l @ drop (length l) l'), q,
           w\<lparr>w_heap := (w_heap w)\<lparr>h_live := h_live (w_heap w) - {a}\<rparr>\<rparr>))"

definition heap_free :: "nat \<Rightarrow> 'q \<times> 'os world \<Rightarrow> ('q \<times> 'os world) res" where
  "heap_free a qw = (case qw of (q, w) \<Rightarrow> and_then (c_free a w) (\<lambda>w. Inr (q, w)))"

definition heap_allocator :: "'os env \<Rightarrow> (nat \<Rightarrow> nat \<Rightarrow> char) \<Rightarrow> ('q \<times> 'os world) allocator" where
  "heap_allocator env junk =
     \<lparr>ini_malloc = heap_malloc env junk, ini_realloc = heap_realloc env junk, ini_free = heap_free\<rparr>"

lemma owns_insert: "owns (insert a B) xs h \<and> a \<notin> B \<longleftrightarrow> owns B (a # xs) h"
  by (auto simp: owns_def)

lemma owns_Cons_free:
  assumes "owns B (a # xs) (w_heap w)"
  shows "owns B xs ((w_heap w)\<lparr>h_live := h_live (w_heap w) - {a}\<rparr>)"
  using assms by (auto simp: owns_def)

lemma heap_malloc_Some:
  assumes "owns B xs (w_heap w)" and "heap_malloc env junk n (q, w) = (Some (a, l), q', w')"
  shows "owns B (a # xs) (w_heap w') \<and> q' = q \<and> w_conf w' = w_conf w \<and> length l = n"
proof -
  have m: "c_malloc env w = (Some a, w')" "q' = q" "l = map (junk a) [0..<n]"
    using assms(2) by (auto simp: heap_malloc_def split: prod.splits option.splits)
  with owns_malloc [OF assms(1) m(1)] c_malloc_frame [OF m(1)] show ?thesis
    by simp
qed

lemma heap_malloc_None:
  assumes "owns B xs (w_heap w)" and "heap_malloc env junk n (q, w) = (None, q', w')"
  shows "owns B xs (w_heap w') \<and> q' = q \<and> w_conf w' = w_conf w"
proof -
  have m: "c_malloc env w = (None, w')" "q' = q"
    using assms(2) by (auto simp: heap_malloc_def split: prod.splits option.splits)
  with owns_malloc [OF assms(1) m(1)] c_malloc_frame [OF m(1)] show ?thesis
    by simp
qed

lemma heap_realloc_Some:
  assumes "owns B (a # xs) (w_heap w)" and "heap_realloc env junk a l n (q, w) = (Some (a', l'), q', w')"
  shows "owns B (a' # xs) (w_heap w') \<and> q' = q \<and> w_conf w' = w_conf w \<and> length l' = n \<and>
    take (length l) l' = take n l"
proof -
  obtain l1 w1 where m: "heap_malloc env junk n (q, w) = (Some (a', l1), q', w1)"
      "l' = take n l @ drop (length l) l1"
      "w' = w1\<lparr>w_heap := (w_heap w1)\<lparr>h_live := h_live (w_heap w1) - {a}\<rparr>\<rparr>"
    using assms(2) by (auto simp: heap_realloc_def split: prod.splits option.splits)
  note h = heap_malloc_Some [OF assms(1) m(1)]
  then have "owns B (a # a' # xs) (w_heap w1)"
    using owns_perm [of "a' # a # xs" "a # a' # xs" B] by simp
  moreover have "take (length l) l' = take n l"
    using h m(2) by (cases "n \<le> length l") auto
  ultimately show ?thesis
    using owns_Cons_free [of B a "a' # xs" w1] h m by auto
qed

lemma heap_realloc_None:
  assumes "owns B xs (w_heap w)" and "heap_realloc env junk a l n (q, w) = (None, q', w')"
  shows "owns B xs (w_heap w') \<and> q' = q \<and> w_conf w' = w_conf w"
  using assms(2)
  by (intro heap_malloc_None [OF assms(1), of env junk n])
    (auto simp: heap_realloc_def split: prod.splits option.splits)

lemma heap_free_ok:
  assumes "owns B (a # xs) (w_heap w)"
  shows "\<exists>w'. heap_free a (q, w) = Inr (q, w') \<and> owns B xs (w_heap w') \<and> w_conf w' = w_conf w"
proof -
  have "a \<in> h_live (w_heap w)"
    using assms by (simp add: owns_def)
  with owns_Cons_free [OF assms] show ?thesis
    by (simp add: heap_free_def c_free_def)
qed

lemma heap_never_fails:
  fixes env :: "'os env"
  assumes "enough_memory env"
  shows "never_fails (heap_allocator env junk :: ('q \<times> 'os world) allocator)"
proof -
  have m: "\<exists>a l q w. heap_malloc env junk n qw = (Some (a, l), q, w)" for n and qw :: "'q \<times> 'os world"
  proof -
    obtain w' where "c_malloc env (snd qw) = (Some (h_next (w_heap (snd qw))), w')"
      using enough_malloc [OF assms] .
    then show ?thesis
      by (cases qw) (simp add: heap_malloc_def)
  qed
  have "fst (heap_malloc env junk n qw) \<noteq> None" "fst (heap_realloc env junk a l n qw) \<noteq> None"
    for a l n and qw :: "'q \<times> 'os world"
    using m [of n qw] by (auto simp: heap_realloc_def)
  then show ?thesis
    by (simp add: never_fails_def heap_allocator_def)
qed

text \<open>
  The contract, for any data \<open>q\<close> that owns the blocks \<open>f q\<close> and keeps a property \<open>P\<close> of its own.
\<close>

interpretation heap_memory: line_memory "heap_allocator env junk" "\<lambda>(q, w). v q"
  "\<lambda>B (q, w). P q \<and> owns B (f q) (w_heap w)" for env junk v P f
proof
  fix B u n a l u'
  assume "case u of (q, w) \<Rightarrow> P q \<and> owns B (f q) (w_heap w)"
    and "ini_malloc (heap_allocator env junk) n u = (Some (a, l), u')"
  then show "a \<notin> B \<and> (case u' of (q, w) \<Rightarrow> P q \<and> owns (insert a B) (f q) (w_heap w)) \<and>
      (case u' of (q, w) \<Rightarrow> v q) = (case u of (q, w) \<Rightarrow> v q) \<and> length l = n"
    using heap_malloc_Some [of B "f (fst u)" "snd u" env junk n "fst u" a l "fst u'" "snd u'"]
    by (cases u; cases u') (simp add: heap_allocator_def owns_insert [symmetric])
next
  fix B u n u'
  assume "case u of (q, w) \<Rightarrow> P q \<and> owns B (f q) (w_heap w)"
    and "ini_malloc (heap_allocator env junk) n u = (None, u')"
  then show "(case u' of (q, w) \<Rightarrow> P q \<and> owns B (f q) (w_heap w)) \<and>
      (case u' of (q, w) \<Rightarrow> v q) = (case u of (q, w) \<Rightarrow> v q)"
    using heap_malloc_None [of B "f (fst u)" "snd u" env junk n "fst u" "fst u'" "snd u'"]
    by (cases u; cases u') (simp add: heap_allocator_def)
next
  fix B u a l n a' l' u'
  assume "case u of (q, w) \<Rightarrow> P q \<and> owns (insert a B) (f q) (w_heap w)" and "a \<notin> B"
    and "ini_realloc (heap_allocator env junk) a l n u = (Some (a', l'), u')"
  then show "a' \<notin> B \<and> (case u' of (q, w) \<Rightarrow> P q \<and> owns (insert a' B) (f q) (w_heap w)) \<and>
      (case u' of (q, w) \<Rightarrow> v q) = (case u of (q, w) \<Rightarrow> v q) \<and> length l' = n \<and> take (length l) l' = take n l"
    using heap_realloc_Some [of B a "f (fst u)" "snd u" env junk l n "fst u" a' l' "fst u'" "snd u'"]
    by (cases u; cases u') (simp add: heap_allocator_def owns_insert [symmetric])
next
  fix B u a l n u'
  assume "case u of (q, w) \<Rightarrow> P q \<and> owns (insert a B) (f q) (w_heap w)"
    and "ini_realloc (heap_allocator env junk) a l n u = (None, u')"
  then show "(case u' of (q, w) \<Rightarrow> P q \<and> owns (insert a B) (f q) (w_heap w)) \<and>
      (case u' of (q, w) \<Rightarrow> v q) = (case u of (q, w) \<Rightarrow> v q)"
    using heap_realloc_None [of "insert a B" "f (fst u)" "snd u" env junk a l n "fst u" "fst u'" "snd u'"]
    by (cases u; cases u') (simp add: heap_allocator_def)
next
  fix B a and u :: "'b \<times> 'a world"
  assume "case u of (q, w) \<Rightarrow> P q \<and> owns (insert a B) (f q) (w_heap w)" and "a \<notin> B"
  then show "\<exists>u'. ini_free (heap_allocator env junk) a u = Inr u' \<and>
      (case u' of (q, w) \<Rightarrow> P q \<and> owns B (f q) (w_heap w)) \<and>
      (case u' of (q, w) \<Rightarrow> v q) = (case u of (q, w) \<Rightarrow> v q)"
    using heap_free_ok [of B a "f (fst u)" "snd u" "fst u"]
    by (cases u) (auto simp: heap_allocator_def owns_insert [symmetric])
qed

section \<open>Handlers that leave the heap alone\<close>

definition on_user :: "'q opt_handler \<Rightarrow> ('q \<times> 'os world) opt_handler" where
  "on_user h qw s name val ln =
     (case qw of (q, w) \<Rightarrow> and_then (h q s name val ln) (\<lambda>(rc, q). Inr (rc, q, w)))"

lemma on_user_sim:
  fixes h :: "'q opt_handler"
  shows "handler_sim (on_user h :: ('q \<times> 'os world) opt_handler) h (\<lambda>(q, w). q) (\<lambda>B (q, w). True \<and> owns B ((\<lambda>_. []) q) (w_heap w))"
proof
  fix B and u :: "'q \<times> 'os world" and s name val ln
  assume "case u of (q, w) \<Rightarrow> True \<and> owns B [] (w_heap w)"
  then show "rel_sum (=) (\<lambda>(rc, u') (rc', v'). rc = rc' \<and> (case u' of (q, w) \<Rightarrow> q) = v' \<and>
        (case u' of (q, w) \<Rightarrow> True \<and> owns B [] (w_heap w)))
      (on_user h u s name val ln) (h (case u of (q, w) \<Rightarrow> q) s name val ln)"
    by (cases u; cases "h (fst u) s name val ln") (auto simp: on_user_def)
qed

interpretation user_parse: growing_parse fgets f_unread "\<lambda>_. True" "on_user h" h "\<lambda>(q, w). q"
  "\<lambda>B (q, w). True \<and> owns B ((\<lambda>_. []) q) (w_heap w)" "heap_allocator env junk" for h env junk
  by (intro growing_parse.intro heap_parse.intro stream_parse.intro file_reader.line_reader_axioms
      file_reader.growing_reader_axioms on_user_sim heap_memory.line_memory_axioms)

section \<open>The handler of the configuration\<close>

definition inj_rc :: "string \<Rightarrow> string \<Rightarrow> int" where
  "inj_rc sec key =
     (if inj_type_of sec = None then -1
      else if key \<in> {''path_regexp'', ''op_regexp'', ''probability'', ''duration''} then 1 else 0)"

definition inj_handler :: "injection list ini_handler" where
  "inj_handler is sec key val = Inr (inj_rc sec key, inj_step sec key val is)"

lemma conf_rc:
  assumes "enough_memory env" and "conf_option_handler env (q, w) sec key val = Inr (rc, q', w')"
  shows "rc = inj_rc sec key"
proof (cases "inj_type_of sec")
  case None
  with assms(2) type_by_name [of sec] show ?thesis
    by (auto simp: conf_option_handler_def inj_rc_def)
next
  case (Some t)
  then have t: "errinj_type_by_name sec \<noteq> -1"
    using type_by_name [of sec] by auto
  obtain w0 where "c_malloc env w = (Some (h_next (w_heap w)), w0)"
    using enough_malloc [OF assms(1)] .
  then obtain i q1 w1 where
      e: "conf_entry env (errinj_types ! nat (errinj_type_by_name sec)) (q, w) = (Some i, q1, w1)"
    by (cases "find_entry (errinj_types ! nat (errinj_type_by_name sec)) (q_entries q)")
      (simp_all add: conf_entry_def)
  with t assms(2) Some show ?thesis
    by (auto simp: conf_option_handler_def conf_set_option_def inj_rc_def res_iff case_prod_unfold
        split: if_splits)
qed

lemma conf_sim:
  fixes env :: "'os env"
  shows "handler_sim (plain_handler (conf_option_handler env)) (plain_handler inj_handler) (\<lambda>(q, w). abs_q q)
    (\<lambda>B (q, w). (distinct (map ec_type (q_entries q)) \<and> enough_memory env) \<and> owns B (q_blocks q) (w_heap w))"
proof
  fix B s ln and u :: "err_inj_q \<times> 'os world" and name val :: "string option"
  assume u: "case u of (q, w) \<Rightarrow>
      (distinct (map ec_type (q_entries q)) \<and> enough_memory env) \<and> owns B (q_blocks q) (w_heap w)"
  obtain q w where qw: "u = (q, w)"
    by fastforce
  have inv: "q_inv B q w" and mem: "enough_memory env"
    using u by (simp_all add: qw q_inv_def)
  have h: "\<exists>q' w'. conf_option_handler env u s n v = Inr (inj_rc s n, q', w') \<and> q_inv B q' w' \<and>
      abs_q q' = inj_step s n v (abs_q q)" for n v
  proof -
    obtain rc q' w' where h: "conf_option_handler env (q, w) s n v = Inr (rc, q', w')" "q_inv B q' w'"
      using conf_option_handler_ok [OF inv] by blast
    with conf_rc [OF mem h(1)] handler_abs_q [OF mem h(1)] show ?thesis
      by (simp add: qw)
  qed
  show "rel_sum (=) (\<lambda>(rc, u') (rc', v'). rc = rc' \<and> (case u' of (q, w) \<Rightarrow> abs_q q) = v' \<and>
        (case u' of (q, w) \<Rightarrow> (distinct (map ec_type (q_entries q)) \<and> enough_memory env) \<and>
          owns B (q_blocks q) (w_heap w)))
      (plain_handler (conf_option_handler env) u s name val ln)
      (plain_handler inj_handler (case u of (q, w) \<Rightarrow> abs_q q) s name val ln)"
  proof (cases "name = None \<or> val = None")
    case True
    then show ?thesis
      by (auto simp: plain_handler_def split: option.split)
  next
    case False
    then obtain n v where nv: "name = Some n" "val = Some v"
      by auto
    obtain q' w' where "conf_option_handler env u s n v = Inr (inj_rc s n, q', w')" "q_inv B q' w'"
        "abs_q q' = inj_step s n v (abs_q q)"
      using h by blast
    with nv mem show ?thesis
      by (simp add: plain_handler_def inj_handler_def qw q_inv_def)
  qed
qed

interpretation conf_parse: growing_parse fgets f_unread "\<lambda>_. True"
  "plain_handler (conf_option_handler env)" "plain_handler inj_handler" "\<lambda>(q, w). abs_q q"
  "\<lambda>B (q, w). (distinct (map ec_type (q_entries q)) \<and> enough_memory env) \<and> owns B (q_blocks q) (w_heap w)"
  "heap_allocator env junk" for env junk
  by (intro growing_parse.intro heap_parse.intro stream_parse.intro file_reader.line_reader_axioms
      file_reader.growing_reader_axioms conf_sim heap_memory.line_memory_axioms)

interpretation inj_reading: ini_reading inj_handler "\<lambda>_. True" "\<lambda>is. is" inj_step
  by unfold_locales (simp_all add: inj_handler_def)

section \<open>Results\<close>

text \<open>
  The buffer in a block, fixed or growing, for a handler that works on its own data \<open>q\<close>: the block
  is gone in the end, and -2 is only returned when memory ran out.
\<close>

lemma user_heap_parse:
  fixes env :: "'os env" and h :: "'q opt_handler" and junk q
  assumes k: "2 \<le> k" "k \<le> n" "n < 2 ^ 31" and own: "owns B [] (w_heap w)"
    and grow: "grow \<longrightarrow> c_str (f_unread f)"
  defines "parse \<equiv> \<lambda>opts. opt_parse_stream (with_buffer False n grow k opts) (heap_allocator env junk)
    fgets f (on_user h) (q, w)"
  shows "(\<exists>q' w'. parse opts = Inr (-2, q', w') \<and> owns B [] (w_heap w') \<and> \<not> enough_memory env) \<or>
    rel_sum (=) (\<lambda>(rc, q', w') (rc', q''). rc = rc' \<and> q' = q'' \<and> owns B [] (w_heap w'))
      (parse opts) (opt_text opts (if grow then n else k) h q (f_unread f))"
proof -
  let ?m = "opt_text (with_buffer False n grow k opts) (if grow then n else k) h q (f_unread f)"
  have "user_parse.promised env junk B (parse opts) ?m"
  proof (cases grow)
    case True
    then show ?thesis
      using user_parse.growing_heap_parse [where opts = "with_buffer False n grow k opts" and s = f and u = "(q, w)"
          and B = B and env = env and junk = junk and h = h] k own grow
      by (simp add: parse_def)
  next
    case False
    then show ?thesis
      using user_parse.fixed_heap_parse [where opts = "with_buffer False n grow k opts" and s = f and u = "(q, w)"
          and B = B and env = env and junk = junk and h = h] k own
      by (simp add: parse_def)
  qed
  moreover have "\<not> enough_memory env" if "\<not> never_fails (heap_allocator env junk :: ('q \<times> 'os world) allocator)"
    using that heap_never_fails by blast
  ultimately show ?thesis
    unfolding opt_text_buffer by (auto simp: case_prod_unfold)
qed

text \<open>
  The configuration: the queue is what the text says wherever the line buffer is, as long as a line
  may have its 199 bytes.
\<close>

definition conf_result :: "nat set \<Rightarrow> err_inj_q \<Rightarrow> string \<Rightarrow> (int \<times> err_inj_q \<times> 'os world) res \<Rightarrow> bool" where
  "conf_result B q t r \<longleftrightarrow> rel_sum (=) (\<lambda>(rc, q', w') (rc', is). rc = rc' \<and> abs_q q' = is \<and> q_inv B q' w')
     r (ini_text inj_handler (abs_q q) t)"

lemma conf_resultE:
  assumes "conf_result B q t r"
  obtains rc q' w' where "r = Inr (rc, q', w')" and "0 \<le> rc" and "q_inv B q' w'"
    and "abs_q q' = fold (\<lambda>(s, n, v). inj_step s n v) (ini_pairs t) (abs_q q)"
    and "ini_text inj_handler (abs_q q) t = Inr (rc, abs_q q')"
proof -
  obtain rc where t: "ini_text inj_handler (abs_q q) t =
      Inr (rc, fold (\<lambda>(s, n, v). inj_step s n v) (ini_pairs t) (abs_q q))"
    using inj_reading.text_abs [of "abs_q q" t] by auto
  then have "0 \<le> rc"
    by (auto simp: ini_text_def res_iff)
  with t assms that show thesis
    by (cases r) (auto simp: conf_result_def)
qed

lemma conf_held:
  assumes "q_inv B q w" and "enough_memory env"
  shows "case (q, w) of (q, w) \<Rightarrow>
    (distinct (map ec_type (q_entries q)) \<and> enough_memory env) \<and> owns B (q_blocks q) (w_heap w)"
  using assms by (simp add: q_inv_def)

lemma conf_heap_parse:
  assumes k: "2 \<le> k" "k \<le> INI_MAX_LINE" and grow: "if grow then c_str (f_unread f) else k = INI_MAX_LINE"
    and inv: "q_inv B q w" and mem: "enough_memory env"
  shows "conf_result B q (f_unread f)
    (opt_parse_stream (with_buffer False INI_MAX_LINE grow k default_options) (heap_allocator env junk) fgets f
       (plain_handler (conf_option_handler env)) (q, w))"
proof -
  let ?opts = "with_buffer False INI_MAX_LINE grow k default_options" and ?al = "heap_allocator env junk"
  let ?p = "opt_parse_stream ?opts ?al fgets f (plain_handler (conf_option_handler env)) (q, w)"
  let ?m = "opt_text ?opts INI_MAX_LINE (plain_handler inj_handler) (abs_q q) (f_unread f)"
  have "conf_parse.promised env junk B ?p ?m"
    using k grow conf_held [OF inv mem]
      conf_parse.growing_heap_parse
        [where opts = ?opts and s = f and u = "(q, w)" and B = B and env = env and junk = junk]
      conf_parse.fixed_heap_parse
        [where opts = ?opts and s = f and u = "(q, w)" and B = B and env = env and junk = junk]
    by (cases grow) simp_all
  moreover have "?m = ini_text inj_handler (abs_q q) (f_unread f)"
    unfolding opt_text_buffer by (rule default_text)
  ultimately show ?thesis
    using heap_never_fails [OF mem] by (auto simp: conf_result_def q_inv_def case_prod_unfold mem)
qed

lemma conf_stack_parse:
  assumes inv: "q_inv B q w" and mem: "enough_memory env"
  shows "conf_result B q (f_unread f) (ini_parse_file f (conf_option_handler env) (q, w))"
proof -
  have "o_use_stack default_options" "2 \<le> o_max_line default_options" "o_max_line default_options < 2 ^ 31"
    by (simp_all add: default_options_def)
  note p = conf_parse.stack_parse [OF this TrueI conf_held [OF inv mem], where s = f]
  moreover have "opt_text default_options (o_max_line default_options) (plain_handler inj_handler) (abs_q q)
      (f_unread f) = ini_text inj_handler (abs_q q) (f_unread f)"
    using default_text [of inj_handler "abs_q q" "f_unread f"] by (simp add: default_options_def)
  ultimately show ?thesis
    by (auto simp: conf_result_def ini_parse_file_def default_parse_stream q_inv_def
        case_prod_unfold mem)
qed

end
