(* ===== verification/Buffer_Theorems.thy ===== *)
theory Buffer_Theorems
  imports Sample Ini_Theorems Errinj_Theorems Conf_Buffers
begin

text \<open>The properties of the parser with its line buffer on the heap.\<close>

section \<open>Any handler\<close>

text \<open>
  \<^bold>\<open>C26\<close>.  With the line buffer in a block of \<open>k\<close> bytes, \<open>ini_parse_stream\<close> does what it does with a buffer on
  the stack: one of \<open>k\<close> bytes when \<open>INI_ALLOW_REALLOC\<close> is off, one of \<open>INI_MAX_LINE\<close> bytes when it is on
  and the block grows; in the second case for files without NUL bytes, since the loop that grows the
  block measures the line with \<open>strlen\<close> (\<open>nul_bytes_split\<close> below).  It returns, stays inside the block
  however often that is moved, and frees it on every path; only when memory runs out does it return
  -2 instead.
\<close>

theorem heap_buffer_parses:
  assumes "2 \<le> k" and "k \<le> n" and "n < 2 ^ 31" and "owns B [] (w_heap w)"
    and "grow \<longrightarrow> c_str (f_unread f)"
  shows "(\<exists>q' w'. opt_parse_stream (with_buffer False n grow k opts) (heap_allocator env junk) fgets f
        (on_user h) (q, w) = Inr (-2, q', w') \<and> owns B [] (w_heap w') \<and> \<not> enough_memory env) \<or>
    rel_sum (=) (\<lambda>(rc, q', w') (rc', q''). rc = rc' \<and> q' = q'' \<and> owns B [] (w_heap w'))
      (opt_parse_stream (with_buffer False n grow k opts) (heap_allocator env junk) fgets f (on_user h) (q, w))
      (opt_parse_stream (with_buffer True (if grow then n else k) grow k opts) al fgets f h q)"
proof -
  let ?m = "if grow then n else k"
  have "opt_parse_stream (with_buffer True ?m grow k opts) al fgets f h q = opt_text opts ?m h q (f_unread f)"
    using stack_file [of "with_buffer True ?m grow k opts" al f h q] assms(1-3)
    by (simp add: opt_text_buffer)
  with user_heap_parse [OF assms, of opts env junk h q] show ?thesis
    by simp
qed

text \<open>A line of five bytes, read into a block of four: whole when the block may grow, in two pieces otherwise.\<close>

lemma five_bytes:
  "opt_parse_stream (with_buffer True 8 True 4 default_options) al fgets \<lparr>f_unread = ''ab=cd''\<rparr> note_call [] =
     Inr (0, [('''', Some ''ab'', Some ''cd'', None)])"
  "opt_parse_stream (with_buffer True 4 False 4 default_options) al fgets \<lparr>f_unread = ''ab=cd''\<rparr> note_call [] =
     Inr (2, [('''', Some ''ab'', Some '''', None)])"
proof -
  have c: "chunks 7 ''ab=cd'' = [''ab=cd'']" "chunks 3 ''ab=cd'' = [''ab='', ''cd'']"
    by (simp_all add: chunks.simps numeral_eq_Suc)
  show "opt_parse_stream (with_buffer True 8 True 4 default_options) al fgets \<lparr>f_unread = ''ab=cd''\<rparr> note_call [] =
      Inr (0, [('''', Some ''ab'', Some ''cd'', None)])"
    using stack_file [of "with_buffer True 8 True 4 default_options" al "\<lparr>f_unread = ''ab=cd''\<rparr>" note_call "[]"] c
    by (simp add: opt_text_buffer) (simp add: opt_text_simps)
  show "opt_parse_stream (with_buffer True 4 False 4 default_options) al fgets \<lparr>f_unread = ''ab=cd''\<rparr> note_call [] =
      Inr (2, [('''', Some ''ab'', Some '''', None)])"
    using stack_file [of "with_buffer True 4 False 4 default_options" al "\<lparr>f_unread = ''ab=cd''\<rparr>" note_call "[]"] c
    by (simp add: opt_text_buffer) (simp add: opt_text_simps)
qed

theorem heap_buffer_parses_witness:
  "\<exists>w1 w2.
     opt_parse_stream (with_buffer False 8 True 4 default_options) (heap_allocator (mini_env []) (\<lambda>a i. CHR ''?''))
       fgets \<lparr>f_unread = ''ab=cd''\<rparr> (on_user note_call) ([], mini_world None mini_os0) =
       Inr (0, [('''', Some ''ab'', Some ''cd'', None)], w1) \<and> owns {} [] (w_heap w1) \<and>
     opt_parse_stream (with_buffer False 8 False 4 default_options) (heap_allocator (mini_env []) (\<lambda>a i. CHR ''?''))
       fgets \<lparr>f_unread = ''ab=cd''\<rparr> (on_user note_call) ([], mini_world None mini_os0) =
       Inr (2, [('''', Some ''ab'', Some '''', None)], w2) \<and> owns {} [] (w_heap w2)"
proof -
  let ?p = "\<lambda>grow. opt_parse_stream (with_buffer False 8 grow 4 default_options)
      (heap_allocator (mini_env []) (\<lambda>a i. CHR ''?'')) fgets \<lparr>f_unread = ''ab=cd''\<rparr> (on_user note_call)
      ([], mini_world None mini_os0)"
  have h: "rel_sum (=) (\<lambda>(rc, q', w') (rc', q''). rc = rc' \<and> q' = q'' \<and> owns {} [] (w_heap w')) (?p grow)
      (opt_parse_stream (with_buffer True (if grow then 8 else 4) grow 4 default_options) undefined fgets
        \<lparr>f_unread = ''ab=cd''\<rparr> note_call [])" for grow
    using heap_buffer_parses [of 4 8 "{}" "mini_world None mini_os0" grow "\<lparr>f_unread = ''ab=cd''\<rparr>"
        default_options "mini_env []" "\<lambda>a i. CHR ''?''" note_call "[]" undefined]
      mini_owns [of None mini_os0] mini_plenty(2) [of "[]"]
    by (simp add: c_str_def)
  show ?thesis
    using h [of True] h [of False] by (auto simp: five_bytes rel_sum.simps)
qed

section \<open>The configuration\<close>

text \<open>
  \<^bold>\<open>C27\<close>.  The configuration read through a line buffer on the heap is the one the build reads, when the
  block has the fixed size \<open>INI_MAX_LINE\<close>, or grows up to it from any smaller size and the file has no
  NUL bytes: the same result, the same injections, and in both cases the queue owns exactly its own
  blocks, although the handler allocates entries and strings while the parser holds its block and
  moves it.
\<close>

theorem conf_any_buffer:
  assumes "2 \<le> k" and "k \<le> INI_MAX_LINE" and "if grow then c_str (f_unread f) else k = INI_MAX_LINE"
    and "q_inv B q w" and "enough_memory env"
  shows "\<exists>rc q1 w1 q2 w2.
    opt_parse_stream (with_buffer False INI_MAX_LINE grow k default_options) (heap_allocator env junk) fgets f
      (plain_handler (conf_option_handler env)) (q, w) = Inr (rc, q1, w1) \<and>
    ini_parse_file f (conf_option_handler env) (q, w) = Inr (rc, q2, w2) \<and>
    abs_q q1 = abs_q q2 \<and> q_inv B q1 w1 \<and> q_inv B q2 w2"
  using conf_heap_parse [OF assms, of junk] conf_stack_parse [OF assms(4,5), of f]
  by (elim conf_resultE) auto

theorem conf_any_buffer_witness:
  "let q = \<lparr>q_addr = 0, q_entries = []\<rparr>; w = (mini_world None mini_os0)\<lparr>w_heap := \<lparr>h_next = 1, h_live = {0}\<rparr>\<rparr>;
       env = mini_env []; f = \<lparr>f_unread = print_ini sample_conf\<rparr> in
   \<exists>rc q1 w1 q2 w2.
     opt_parse_stream (with_buffer False INI_MAX_LINE True 16 default_options)
       (heap_allocator env (\<lambda>a i. CHR ''?'')) fgets f (plain_handler (conf_option_handler env)) (q, w) =
       Inr (rc, q1, w1) \<and>
     ini_parse_file f (conf_option_handler env) (q, w) = Inr (rc, q2, w2) \<and>
     abs_q q1 = abs_q q2 \<and> q_inv {} q1 w1 \<and> q_inv {} q2 w2"
proof -
  have "c_str (print_ini sample_conf)"
    by code_simp
  then show ?thesis
    using conf_any_buffer [of 16 True "\<lparr>f_unread = print_ini sample_conf\<rparr>" "{}"
        "\<lparr>q_addr = 0, q_entries = []\<rparr>" "(mini_world None mini_os0)\<lparr>w_heap := \<lparr>h_next = 1, h_live = {0}\<rparr>\<rparr>"
        "mini_env []" "\<lambda>a i. CHR ''?''"] mini_plenty(2) [of "[]"]
    by (simp add: q_inv_def owns_def q_blocks_def)
qed

section \<open>Options that do not fit together\<close>

text \<open>
  \<open>INI_INITIAL_ALLOC\<close> above \<open>INI_MAX_LINE\<close> lets the first line that fills the block shrink it: the
  bytes beyond \<open>INI_MAX_LINE\<close> and the terminator are lost, \<open>fgets\<close> gets a negative size and stores nothing,
  and the scan of the line runs over the end of the block.
\<close>

lemma initial_above_max:
  "opt_parse_stream (with_buffer False 2 True 4 default_options) (heap_allocator (mini_env []) (\<lambda>a i. CHR ''?''))
     fgets \<lparr>f_unread = ''abcde''\<rparr> (on_user note_call) ([], mini_world None mini_os0) = Inl Read_oob"
proof -
  have f: "fgets ''????'' 4 \<lparr>f_unread = ''abcde''\<rparr> = Inr (Some (''abc'' @ [NUL]), \<lparr>f_unread = ''de''\<rparr>)"
    by (simp add: fgets_def store_def numeral_eq_Suc)
  have n: "c_int 4 = 4" "c_int (-1) = -1"
    by (simp_all add: c_int_def)
  have m: "map (\<lambda>i. CHR ''?'') [0..<4] = ''????''" "map (\<lambda>i. CHR ''?'') [0..<2] = ''??''"
    by (simp_all add: numeral_eq_Suc)
  have l: "c_strlen [CHR ''a'', CHR ''b'', CHR ''c'', NUL] 0 = Inr 3"
    by (simp add: c_strlen.simps)
  have l2: "c_strlen ''ab'' 0 = Inl Read_oob"
    by (simp add: c_strlen.simps)
  have r: "fgets [] (-1) g = Inr (None, g)" for g
    by (simp add: fgets_def)
  show ?thesis
    by (simp add: opt_parse_stream_def opt_loop.simps [of "with_buffer _ _ _ _ _"] opt_grow.simps
        heap_allocator_def heap_malloc_def heap_realloc_def c_malloc_def m f n l l2 r opt_refill_def opt_growing_def
        opt_line_def skip_bom_def rstrip_def opt_finish_def rd_def ini_start_def)
qed

text \<open>
  A NUL byte in a line stops the growing: \<open>strlen\<close> does not see that the block is full, and the rest of
  the line is taken for the next one.  A block of four bytes that may grow to eight reports a pair
  in a file in which the buffer of eight bytes on the stack finds none.
\<close>

lemma nul_bytes_split:
  defines "txt \<equiv> ''a'' @ [NUL] @ ''bx=''"
  shows
  "\<exists>w. opt_parse_stream (with_buffer False 8 True 4 default_options) (heap_allocator (mini_env []) (\<lambda>a i. CHR ''?''))
     fgets \<lparr>f_unread = txt\<rparr> (on_user note_call) ([], mini_world None mini_os0) =
     Inr (1, [('''', Some ''x'', Some '''', None)], w)"
  "opt_parse_stream (with_buffer True 8 True 4 default_options) al fgets \<lparr>f_unread = txt\<rparr> note_call [] =
     Inr (1, [])"
proof -
  have c: "chunks 7 txt = [txt]"
    by (simp add: chunks.simps numeral_eq_Suc txt_def)
  show "opt_parse_stream (with_buffer True 8 True 4 default_options) al fgets \<lparr>f_unread = txt\<rparr> note_call [] =
      Inr (1, [])"
    using stack_file [of "with_buffer True 8 True 4 default_options" al "\<lparr>f_unread = txt\<rparr>" note_call "[]"] c
    by (simp add: opt_text_buffer) (simp add: opt_text_simps txt_def)
  have "case opt_parse_stream (with_buffer False 8 True 4 default_options)
      (heap_allocator (mini_env []) (\<lambda>a i. CHR ''?'')) fgets \<lparr>f_unread = ''a'' @ [NUL] @ ''bx=''\<rparr>
      (on_user note_call) ([], mini_world None mini_os0) of
    Inl e \<Rightarrow> False | Inr (rc, calls, w) \<Rightarrow> rc = 1 \<and> calls = [('''', Some ''x'', Some '''', None)]"
    by code_simp
  then show "\<exists>w. opt_parse_stream (with_buffer False 8 True 4 default_options)
      (heap_allocator (mini_env []) (\<lambda>a i. CHR ''?'')) fgets \<lparr>f_unread = txt\<rparr> (on_user note_call)
      ([], mini_world None mini_os0) = Inr (1, [('''', Some ''x'', Some '''', None)], w)"
    unfolding txt_def by (auto split: sum.splits)
qed

end
