(* ===== verification/Ops_Theorems.thy ===== *)
theory Ops_Theorems
  imports Errinj_Theorems
begin

text \<open>The properties of the file operations.\<close>

section \<open>Every callback\<close>

text \<open>
  \<^bold>\<open>C22\<close>.  Every callback of the table obeys the injector: a suppressed operation returns 0 and an
  injected error is returned as it is, both without a system call and with the output argument
  untouched; otherwise the operation runs.  Each callback asks about its own path and enumerator.
\<close>

theorem callback_obeys_injector:
  assumes "unreliable_ops env r = Some f"
  shows "f w =
    (case error_inject env (req_path r) (req_op r) w of
       Inl e \<Rightarrow> Inl e
     | Inr (rc, w') \<Rightarrow>
         if rc = - ERRNO_NOOP then Inr (0, req_out r, w')
         else if rc \<noteq> 0 then Inr (rc, req_out r, w')
         else native env r w')"
  using unreliable_ops_guarded [OF assms] by (simp add: with_injection_def and_then_def)

theorem callback_obeys_injector_witness:
  "\<exists>f w'. unreliable_ops (mini_env []) (Req_access ''/f'' 4 :: unit fuse_request) = Some f \<and>
     f sample_errno_world = Inr (- mini_errno (linux_errno_access ! 1), Out_none, w')"
proof -
  let ?r = "Req_access ''/f'' 4 :: unit fuse_request"
  obtain f where f: "unreliable_ops (mini_env []) ?r = Some f"
    by simp
  obtain w' where "error_inject (mini_env []) ''/f'' OP_ACCESS sample_errno_world =
      Inr (- mini_errno (linux_errno_access ! 1), w')"
    using sample_errno_run by blast
  then show ?thesis
    using callback_obeys_injector [OF f, of sample_errno_world] f
    by (simp add: mini_errno_def ERRNO_NOOP_def)
qed

text \<open>
  \<^bold>\<open>C23\<close>.  The callbacks a build registers with FUSE are those it has an enumerator for, so that the
  injector is never asked about an operation the tables do not know.
\<close>

theorem callbacks_registered:
  "unreliable_ops env r \<noteq> None \<longleftrightarrow> req_op r \<in> set (fuse_ops (e_build env))"
  by (rule unreliable_ops_registered)

text \<open>
  \<^bold>\<open>C24\<close>.  Without a configuration the nineteen callbacks that stand for one system call are that call:
  they make it once, with the arguments of the request, and return 0 or the negated error number;
  only \<open>releasedir\<close> on a handle that is not an open stream goes wrong instead.
\<close>

theorem unconfigured_forwards:
  assumes "unreliable_ops env r = Some f" and "forwarded env r = Some c" and "sys_results env"
    and "errors (w_conf w) = None" and "\<not> mutex (w_conf w)" and "req_path r \<noteq> config_path (w_conf w)"
  shows "if stream_ok env r w
    then \<exists>w'. f w = Inr (fuse_ret (fst (e_sys env c (w_os w))), Out_none, w') \<and>
      w_os w' = snd (e_sys env c (w_os w)) \<and> w_conf w' = w_conf w
    else f w = Inl Bad_stream"
  using callback_unconfigured [OF assms(1,4,5,6) callback_op [OF assms(1)]]
    native_forwarded [OF assms(3,2)] native_bad_stream [of env r w]
  by (auto simp: do_sys_def case_prod_unfold)

theorem unconfigured_forwards_witness:
  "\<exists>f w'. unreliable_ops (mini_env []) (Req_mkdir ''/d'' 448 :: unit fuse_request) = Some f \<and>
     f (mini_world None (mini_os0\<lparr>mo_made := [''/d'']\<rparr>)) = Inr (-17, Out_none, w')"
proof -
  let ?r = "Req_mkdir ''/d'' 448 :: unit fuse_request"
  obtain f where f: "unreliable_ops (mini_env []) ?r = Some f"
    by simp
  show ?thesis
    using unconfigured_forwards [OF f, of "Mkdir ''/d'' 448"
        "mini_world None (mini_os0\<lparr>mo_made := [''/d'']\<rparr>)"] f mini_sys_results [of "[]"]
    by (auto simp: mini_sys_def fuse_ret_def)
qed

text \<open>
  \<^bold>\<open>C8\<close>.  With arguments as FUSE passes them and a system that does not overrun the buffers it is
  given, an operation that the injector lets pass goes wrong in exactly three cases: \<open>readlink\<close> on a
  link that fills the whole buffer writes its terminating byte past the end, \<open>readdir\<close> on a
  directory that never ends does not return, and \<open>releasedir\<close> closes a stream that is none when the
  handle it gets is not the address of an open one.
\<close>

theorem native_faults_exactly:
  assumes "sys_lengths env" and "req_wf r"
  shows "(\<exists>e. native env r w = Inl e) \<longleftrightarrow>
    (case r of
       Req_readlink p b n \<Rightarrow> fst (do_sys env (Readlink p n) w) = int n
     | Req_readdir p b filler off fi \<Rightarrow>
         (case do_sys env (Opendir p) w of (dp, d, w) \<Rightarrow>
            dp \<noteq> 0 \<and> readdir_loop env filler (word_of_int dp) b w = None)
     | Req_releasedir p fi \<Rightarrow> \<not> e_stream env (w_os w) (fi_fh (the fi))
     | _ \<Rightarrow> False)"
proof -
  have "(\<exists>e. native env r w = Inl e) \<longleftrightarrow> \<not> native_safe env r w"
    using native_ok [OF assms, of w] by (cases "native env r w") auto
  then show ?thesis
    using assms(2)
    by (auto simp: native_safe_def simp del: not_None_eq split: fuse_request.splits prod.splits)
qed

theorem native_faults_exactly_witness:
  "sys_lengths (mini_env []) \<and>
   (\<exists>e. native (mini_env []) (Req_readlink ''/l'' ''......'' 6 :: unit fuse_request)
      (mini_world None mini_os0) = Inl e) \<and>
   \<not> (\<exists>e. native (mini_env []) (Req_readlink ''/l'' ''.......'' 7 :: unit fuse_request)
      (mini_world None mini_os0) = Inl e) \<and>
   (\<exists>e. native (mini_env []) (Req_releasedir ''/d'' (Some \<lparr>fi_flags = 0, fi_fh = 0\<rparr>) :: unit fuse_request)
      (mini_world None mini_os0) = Inl e)"
  using native_faults_exactly [OF mini_sys_lengths, of "Req_readlink ''/l'' ''......'' 6 :: unit fuse_request"
      "[]" "mini_world None mini_os0"]
    native_faults_exactly [OF mini_sys_lengths, of "Req_readlink ''/l'' ''.......'' 7 :: unit fuse_request"
      "[]" "mini_world None mini_os0"]
    native_faults_exactly [OF mini_sys_lengths,
      of "Req_releasedir ''/d'' (Some \<lparr>fi_flags = 0, fi_fh = 0\<rparr>) :: unit fuse_request"
      "[]" "mini_world None mini_os0"] mini_sys_lengths [of "[]"]
  by (simp add: do_sys_def mini_sys_def)

text \<open>
  \<^bold>\<open>C18\<close>.  A suppressed \<open>opendir\<close> breaks the \<open>releasedir\<close> that follows: with an injection that suppresses
  \<open>opendir\<close> for certain and is not for \<open>releasedir\<close>, the caller of \<open>opendir\<close> is told that it succeeded
  although the handle still has the value FUSE put there, and \<open>releasedir\<close> then closes that value as
  if it were a stream.
\<close>

theorem suppressed_opendir_breaks_releasedir:
  assumes "rand_nonneg env" and "compiles (e_build env)"
    and "\<not> mutex (w_conf w)" and "p \<noteq> config_path (w_conf w)" and "errors (w_conf w) = Some q"
    and "abs_q q = [j]" and "i_type j = ERRINJ_NOOP" and "100 \<le> uint (i_prob j)"
    and "concerns env j p OP_OPENDIR" and "\<not> concerns env j p OP_RELEASEDIR"
    and "\<forall>s. \<not> e_stream env s (fi_fh i)"
  shows "\<exists>w1. unreliable_opendir env p (Some i) w = Inr (0, Some i, w1) \<and>
    unreliable_releasedir env p (Some i) w1 = Inl Bad_stream"
proof -
  have ops: "OP_OPENDIR \<in> set (fuse_ops (e_build env))" "OP_RELEASEDIR \<in> set (fuse_ops (e_build env))"
    by (simp_all add: fuse_ops_def)
  have "fst (e_rand env (w_os w)) mod 101 \<le> uint (i_prob j)"
    using assms(8) pos_mod_bound [of 101 "fst (e_rand env (w_os w))"] by linarith
  then have "inject_all env p OP_OPENDIR (abs_q q) 0 (w_os w) = Some (999, snd (e_rand env (w_os w)))"
    using assms(6,7,9) by (simp add: carry_out_def)
  with error_inject_agrees [OF assms(1,2) ops(1) assms(3-5)] obtain w1
    where 1: "error_inject env p OP_OPENDIR w = Inr (999, w1)" and c: "w_conf w1 = w_conf w"
    by (auto simp: agrees_def same_process_def)
  from error_inject_unconcerned [OF ops(2), of w1 p q] obtain w2
    where "error_inject env p OP_RELEASEDIR w1 = Inr (0, w2)"
    using assms(3-6,10) c by auto
  with 1 assms(11) show ?thesis
    by (simp add: unreliable_opendir_def unreliable_releasedir_def with_injection_def releasedir_body_def
        with_fi_def ERRNO_NOOP_def)
qed

definition opendir_entry :: errinj_conf where
  "opendir_entry = (sample_entry ERRINJ_NOOP 100)\<lparr>op_regexp := Some (2, ''opendir'')\<rparr>"

theorem suppressed_opendir_breaks_releasedir_witness:
  "let w = mini_world (Some (sample_q [opendir_entry])) mini_os0; i = Some \<lparr>fi_flags = 0, fi_fh = 0\<rparr> in
   \<exists>w1. unreliable_opendir (mini_env []) ''/d'' i w = Inr (0, i, w1) \<and>
     unreliable_releasedir (mini_env []) ''/d'' i w1 = Inl Bad_stream"
  using suppressed_opendir_breaks_releasedir [of "mini_env []" "mini_world (Some (sample_q [opendir_entry])) mini_os0"
      "''/d''" "sample_q [opendir_entry]" "abs_entry opendir_entry" "\<lparr>fi_flags = 0, fi_fh = 0\<rparr>"]
    mini_rand_nonneg [of "[]"]
  by (simp add: abs_q_def abs_entry_def opendir_entry_def concerns_def matches_def Let_def)

section \<open>Descriptors and directories\<close>

text \<open>
  \<^bold>\<open>C25\<close>.  \<open>read\<close> and \<open>write\<close> leave the set of open descriptors as it was, whether they got a handle or had
  to open the file themselves, and whether or not the transfer failed; \<open>flush\<close> closes the duplicate
  it makes and nothing else.
\<close>

theorem transfers_keep_descriptors:
  assumes "fd_kernel env fds"
  shows "(read_body env p b n off fi w = Inr (ret, b', w') \<longrightarrow> fds (w_os w') = fds (w_os w)) \<and>
    (write_body env p str n off fi w = Inr (ret, u, w') \<longrightarrow> fds (w_os w') = fds (w_os w)) \<and>
    (flush_body env p fi w = Inr (ret, u, w') \<longrightarrow> fds (w_os w') = fds (w_os w))"
  by (intro conjI impI read_body_fds [OF assms] write_body_fds [OF assms] flush_body_fds [OF assms])

theorem transfers_keep_descriptors_witness:
  "(\<exists>w'. read_body (mini_env []) ''/f'' ''.....'' 5 0 None (mini_world None mini_os0) =
       Inr (5, ''hello'', w') \<and> mini_fds (w_os w') = {0, 1, 2}) \<and>
   (\<exists>w'. write_body (mini_env []) ''/f'' ''abc'' 3 0 None (mini_world None mini_os0) = Inr (3, (), w') \<and>
       mini_fds (w_os w') = {0, 1, 2}) \<and>
   (\<exists>w'. flush_body (mini_env []) ''/f'' (Some \<lparr>fi_flags = 0, fi_fh = 2\<rparr>) (mini_world None mini_os0) =
       Inr (0, (), w') \<and> mini_fds (w_os w') = {0, 1, 2})"
proof -
  obtain w1 where r: "read_body (mini_env []) ''/f'' ''.....'' 5 0 None (mini_world None mini_os0) =
      Inr (5, ''hello'', w1)"
    by (simp add: read_body_def c_int_id Let_def fd_for_def do_sys_def mini_sys_def fill_def fresh_fd_def mini_os0_def)
  obtain w2 where w: "write_body (mini_env []) ''/f'' ''abc'' 3 0 None (mini_world None mini_os0) =
      Inr (3, (), w2)"
    by (simp add: write_body_def c_int_id Let_def fd_for_def do_sys_def mini_sys_def fresh_fd_def mini_os0_def)
  obtain w3 where f: "flush_body (mini_env []) ''/f'' (Some \<lparr>fi_flags = 0, fi_fh = 2\<rparr>)
      (mini_world None mini_os0) = Inr (0, (), w3)"
    by (simp add: flush_body_def with_fi_def call0_def do_sys_def mini_sys_def)
  have "mini_fds mini_os0 = {0, 1, 2}"
    by (auto simp: mini_fds_def mini_os0_def)
  note k = transfers_keep_descriptors [OF mini_fd_kernel]
  have "mini_fds (w_os w1) = {0, 1, 2}" "mini_fds (w_os w2) = {0, 1, 2}" "mini_fds (w_os w3) = {0, 1, 2}"
    using k [THEN conjunct1, rule_format, OF r] k [THEN conjunct2, THEN conjunct1, rule_format, OF w]
      k [THEN conjunct2, THEN conjunct2, rule_format, OF f] \<open>mini_fds mini_os0 = _\<close>
    by simp_all
  with r w f show ?thesis
    by blast
qed

text \<open>
  \<^bold>\<open>C28\<close>.  \<open>readdir\<close> returns on every directory with finitely many entries and hands the caller exactly
  these entries, in order, with the inode number and the type, until the caller's buffer is full.
\<close>

theorem readdir_lists_directory:
  assumes "do_sys env (Opendir p) w = (dp, d, w1)" and "dp \<noteq> 0"
    and "delivers env (word_of_int dp) w1 es"
  shows "\<exists>w'. readdir_body env p buf filler off fi w = Inr (0, listing filler buf es, w')"
  using assms by (rule readdir_body_listing)

text \<open>A caller with room for two entries.\<close>

definition two_entries :: "string list fuse_fill_dir" where
  "two_entries b name st = (if length b < 2 then (0, b @ [name]) else (1, b))"

theorem readdir_lists_directory_witness:
  "\<exists>w'. readdir_body (mini_env []) ''/d'' [] two_entries 0 None
       (mini_world None (mini_os0\<lparr>mo_dir := [(1, 4, ''a''), (2, 8, ''b''), (3, 8, ''c'')]\<rparr>)) =
     Inr (0, [''a'', ''b''], w')"
  using readdir_lists_directory [of "mini_env []" "''/d''"
      "mini_world None (mini_os0\<lparr>mo_dir := [(1, 4, ''a''), (2, 8, ''b''), (3, 8, ''c'')]\<rparr>)" 1 Nothing
      "mini_world None (mini_os0\<lparr>mo_dir := [(1, 4, ''a''), (2, 8, ''b''), (3, 8, ''c'')]\<rparr>)"
      "[(1, 4, ''a''), (2, 8, ''b''), (3, 8, ''c'')]" "[]" two_entries 0 None]
  by (simp add: do_sys_def mini_sys_def sys_fails_def two_entries_def mini_world_def)

text \<open>
  \<^bold>\<open>C29\<close>.  A handle finds its file again: after an \<open>open\<close> that returned 0, \<open>read\<close> with the
  \<open>fuse_file_info\<close> that \<open>open\<close> filled in reads from the very descriptor the system had returned.
\<close>

theorem open_then_read_descriptor:
  assumes "do_sys env (Open p (fi_flags i) None) w = (fd, d, w1)" and "0 \<le> fd" and "fd < 2 ^ 31"
  shows "\<exists>i'. open_body env p (Some i) w = Inr (0, Some i', w1) \<and>
    read_body env p b n off (Some i') w1 =
      (case do_sys env (Pread fd n off) w1 of (ret, d, w2) \<Rightarrow>
         if c_int ret = -1 then Inr (- w_errno w2, b, w2)
         else and_then (fill b d) (\<lambda>b. Inr (c_int ret, b, w2)))"
proof -
  have "fd_of_fh (fh_of_fd fd) = fd"
    using assms(2,3) by (intro fd_of_fh_of_fd) auto
  then show ?thesis
    using assms(1,2)
    by (intro exI [of _ "i\<lparr>fi_fh := fh_of_fd fd\<rparr>"])
      (simp add: open_body_def with_fi_def read_body_def fd_for_def close_if_null_def Let_def split: prod.splits)
qed

theorem open_then_read_descriptor_witness:
  "\<exists>i' w1. open_body (mini_env []) ''/f'' (Some \<lparr>fi_flags = 0, fi_fh = 0\<rparr>) (mini_world None mini_os0) =
       Inr (0, Some i', w1) \<and>
     read_body (mini_env []) ''/f'' ''...'' 3 0 (Some i') w1 = Inr (3, ''hel'', w1)"
proof -
  let ?w = "mini_world None mini_os0"
  obtain d w1 where o: "do_sys (mini_env []) (Open ''/f'' (fi_flags \<lparr>fi_flags = 0, fi_fh = 0\<rparr>) None) ?w =
      (3, d, w1)"
    by (simp add: do_sys_def mini_sys_def fresh_fd_def mini_os0_def)
  have "do_sys (mini_env []) (Pread 3 3 0) w1 = (3, Bytes ''hel'', w1)"
    by (simp add: do_sys_def mini_sys_def sys_fails_def)
  then show ?thesis
    using open_then_read_descriptor [OF o, of "''...''" 3 0] by (auto simp: fill_def c_int_id)
qed

section \<open>Sequences\<close>

text \<open>
  \<^bold>\<open>C30\<close>.  A callback changes the injections only when its path is that of the configuration file.
\<close>

theorem callback_keeps_injections:
  assumes "unreliable_ops env r = Some f" and "f w = Inr (ret, out, w')"
    and "req_path r \<noteq> config_path (w_conf w)"
  shows "errors (w_conf w') = errors (w_conf w)"
  using assms by (rule callback_errors)

theorem callback_keeps_injections_witness:
  "\<exists>f ret out w'. unreliable_ops (mini_env []) (Req_access ''/f'' 4 :: unit fuse_request) = Some f \<and>
     f sample_errno_world = Inr (ret, out, w') \<and>
     errors (w_conf w') = errors (w_conf sample_errno_world)"
proof -
  let ?r = "Req_access ''/f'' 4 :: unit fuse_request"
  obtain f where f: "unreliable_ops (mini_env []) ?r = Some f"
    by simp
  obtain w' where "error_inject (mini_env []) ''/f'' OP_ACCESS sample_errno_world =
      Inr (- mini_errno (linux_errno_access ! 1), w')"
    using sample_errno_run by blast
  then have "f sample_errno_world = Inr (- mini_errno (linux_errno_access ! 1), Out_none, w')"
    using callback_injected [OF f, of sample_errno_world] by (simp add: mini_errno_def ERRNO_NOOP_def)
  with callback_keeps_injections [OF f this] f show ?thesis
    by (simp add: sample_errno_world_def)
qed

section \<open>Faults of single operations\<close>

text \<open>\<open>getxattr\<close> never returns the size of the value: 0 or a negated \<open>errno\<close> is all a caller sees.\<close>

lemma getxattr_hides_size:
  assumes "getxattr_body env path name val sz w = Inr (ret, val', w')"
  shows "ret = 0 \<or> ret = - w_errno w'"
  using assms by (auto simp: getxattr_body_def res_iff split: prod.splits if_splits)

text \<open>\<open>fallocate\<close> without a handle opens the file and then uses the handle it does not have.\<close>

lemma fallocate_without_handle:
  "fallocate_body env path 0 off len None w =
     (case do_sys env (Open path O_WRONLY None) w of (fd, d, w') \<Rightarrow>
        if fd = -1 then Inr (- w_errno w', (), w') else Inl Null_deref)"
  by (simp add: fallocate_body_def fd_for_def with_fi_def split: prod.splits)

text \<open>\<open>fsyncdir\<close> returns right after a failed sync: the stream it opened is not closed.\<close>

lemma fsyncdir_failure_keeps_stream:
  assumes "do_sys env (Opendir path) w = (dir, d1, w1)" and "dir \<noteq> 0"
    and "do_sys env (Dirfd (word_of_int dir)) w1 = (fd, d2, w2)"
    and "do_sys env (if datasync \<noteq> 0 then Fdatasync fd else Fsync fd) w2 = (-1, d3, w3)"
  shows "fsyncdir_body env path datasync fi w = Inr (- w_errno w3, (), w3)"
  using assms by (simp add: fsyncdir_body_def)

end
