(* ===== verification/Threads_Theorems.thy ===== *)
theory Threads_Theorems
  imports Threads Ops_Theorems
begin

text \<open>The properties of the threads that share the injector's state.\<close>

section \<open>A sample run\<close>

text \<open>Thread 0 has called \<open>access\<close>, taken the mutex and started to walk over the queue.\<close>

abbreviation sample_req :: "unit fuse_request" where
  "sample_req \<equiv> Req_access ''/f'' 4"

definition sample_scan :: "(unit, mini_os) threads" where
  "sample_scan =
     \<lparr>t_pc = (\<lambda>_. Idle)(0 := Scan sample_req [sample_entry ERRINJ_ERRNO 10] 0),
      t_world = set_mutex True sample_overrun_world\<rparr>"

lemma sample_unlocked: "\<not> mutex (w_conf sample_overrun_world)"
  by (simp add: sample_overrun_world_def)

lemma sample_scan_reached: "reaches (mini_env []) (threads_init sample_overrun_world) sample_scan"
proof -
  let ?step = "sys_step (mini_env []) :: (unit, mini_os) threads \<Rightarrow> _"
  let ?s = "\<lambda>p w. \<lparr>t_pc = (\<lambda>_. Idle)(0 := p), t_world = w\<rparr> :: (unit, mini_os) threads"
  let ?w = "sample_overrun_world" and ?w1 = "set_mutex True sample_overrun_world"
  have lift: "?step (?s p w) (?s p' w')" if "tstep (mini_env []) (p, w) (p', w')" for p w p' w'
    using one [of "mini_env []" "?s p w" 0 p' w'] that by simp
  have e: "errors (w_conf ?w1) = Some (sample_q [sample_entry ERRINJ_ERRNO 10])"
    by (simp add: sample_overrun_world_def)
  have "?s Idle ?w = threads_init ?w"
    by (simp add: threads_init_def fun_upd_idem)
  moreover have "?step (?s Idle ?w) (?s (Enter sample_req) ?w)"
    by (intro lift t_call) simp
  ultimately have 1: "?step\<^sup>*\<^sup>* (threads_init ?w) (?s (Enter sample_req) ?w)"
    by (simp add: r_into_rtranclp)
  have "?step (?s (Enter sample_req) ?w) (?s (Check sample_req) ?w1)"
    by (intro lift t_lock sample_unlocked)
  with 1 have 2: "?step\<^sup>*\<^sup>* (threads_init ?w) (?s (Check sample_req) ?w1)"
    by (rule rtranclp.rtrancl_into_rtrancl)
  have "tstep (mini_env []) (Check sample_req, ?w1)
      (Scan sample_req (q_entries (sample_q [sample_entry ERRINJ_ERRNO 10])) 0, ?w1)"
    using e by (intro t_scan) (simp_all add: sample_overrun_world_def)
  then have "?step (?s (Check sample_req) ?w1) sample_scan"
    using lift unfolding sample_scan_def by simp
  with 2 show ?thesis
    by (rule rtranclp.rtrancl_into_rtrancl)
qed

section \<open>Properties\<close>

text \<open>
  \<^bold>\<open>C36\<close>.  Mutual exclusion: however the threads are interleaved, at most one is between the lock and
  the unlock of \<open>error_inject\<close>.
\<close>

theorem threads_mutual_exclusion:
  assumes "reaches env (threads_init w) s" and "conf_inv B w" and "\<not> mutex (w_conf w)"
    and "holds (t_pc s i)" and "holds (t_pc s j)"
  shows "i = j"
  using threads_inv_reaches [OF assms(1-3)] assms(4,5) by (rule holds_unique)

theorem threads_mutual_exclusion_witness: "holds (t_pc sample_scan 0) \<and> \<not> holds (t_pc sample_scan 1)"
  using threads_mutual_exclusion [OF sample_scan_reached sample_overrun_inv sample_unlocked, of 0 1]
  by (auto simp: sample_scan_def)

text \<open>
  \<^bold>\<open>C37\<close>.  No use after free: the entries a thread still has to visit in its walk over the queue stay
  allocated, with their strings, whatever the other threads do, a reload of the configuration
  included.
\<close>

theorem threads_no_use_after_free:
  assumes "reaches env (threads_init w) s" and "conf_inv B w" and "\<not> mutex (w_conf w)"
    and "t_pc s i = Scan r es rc" and "e \<in> set es" and "a \<in> set (entry_blocks e)"
  shows "a \<in> h_live (w_heap (t_world s))"
  using threads_inv_reaches [OF assms(1-3)] assms(4-6) by (rule scan_live)

theorem threads_no_use_after_free_witness:
  "1 \<in> set (entry_blocks (sample_entry ERRINJ_ERRNO 10)) \<and> 1 \<in> h_live (w_heap (t_world sample_scan))"
proof -
  have "1 \<in> set (entry_blocks (sample_entry ERRINJ_ERRNO 10))"
    by (simp add: entry_blocks_def sample_entry_def new_entry_def)
  with threads_no_use_after_free [OF sample_scan_reached sample_overrun_inv sample_unlocked, of 0 sample_req
      "[sample_entry ERRINJ_ERRNO 10]" 0 "sample_entry ERRINJ_ERRNO 10" 1]
  show ?thesis
    by (simp add: sample_scan_def)
qed

text \<open>
  \<^bold>\<open>C38\<close>.  No deadlock: as long as some thread is busy with a request, some busy thread can make a step,
  unless it is about to read past the end of an error table or to fault in its operation.
\<close>

theorem threads_no_deadlock:
  assumes "reaches env (threads_init w) s" and "conf_inv B w" and "\<not> mutex (w_conf w)"
    and "t_pc s i \<noteq> Idle"
  shows "\<exists>j. t_pc s j \<noteq> Idle \<and>
    ((\<exists>p w. tstep env (t_pc s j, t_world s) (p, w)) \<or> faulty env (t_pc s j) (t_world s))"
  using threads_inv_reaches [OF assms(1-3)] assms(4) by (rule threads_progress)

theorem threads_no_deadlock_witness:
  "\<exists>j. t_pc sample_scan j \<noteq> Idle \<and>
    ((\<exists>p w. tstep (mini_env []) (t_pc sample_scan j, t_world sample_scan) (p, w)) \<or>
     faulty (mini_env []) (t_pc sample_scan j) (t_world sample_scan))"
  using threads_no_deadlock [OF sample_scan_reached sample_overrun_inv sample_unlocked, of 0]
  by (simp add: sample_scan_def)

text \<open>
  \<^bold>\<open>C39\<close>.  Isolation: whatever the other threads do while one is between the lock and the unlock, their
  steps change neither the configuration nor the heap, so that the thread finds the queue it saw when
  it took the mutex, not one that was replaced under its feet.
\<close>

theorem threads_isolation:
  assumes "reaches env (threads_init w) s" and "conf_inv B w" and "\<not> mutex (w_conf w)"
    and "holds (t_pc s i)" and "(other_step env i)\<^sup>*\<^sup>* s s'"
  shows "t_pc s' i = t_pc s i \<and> w_conf (t_world s') = w_conf (t_world s) \<and>
    w_heap (t_world s') = w_heap (t_world s)"
proof -
  obtain h B' where inv: "holder_inv h B' s"
    using threads_inv_reaches [OF assms(1-3)] by (auto simp: threads_inv_def)
  with assms(4) have "h = Some i"
    by (simp add: holder_inv_def)
  with inv others_frame [OF assms(5)] show ?thesis
    by blast
qed

text \<open>Thread 1 asks for a reload while thread 0 walks over the queue: it has to wait.\<close>

theorem threads_isolation_witness:
  "\<exists>s'. (other_step (mini_env []) 0)\<^sup>*\<^sup>* sample_scan s' \<and>
     t_pc s' 1 = Enter (Req_access ''/m/unreliablefs.conf'' 4) \<and> t_pc s' 0 = t_pc sample_scan 0 \<and>
     w_conf (t_world s') = w_conf (t_world sample_scan)"
proof -
  let ?r = "Req_access ''/m/unreliablefs.conf'' 4 :: unit fuse_request"
  let ?s = "sample_scan\<lparr>t_pc := (t_pc sample_scan)(1 := Enter ?r), t_world := t_world sample_scan\<rparr>"
  have "tstep (mini_env []) (t_pc sample_scan 1, t_world sample_scan) (Enter ?r, t_world sample_scan)"
    using t_call [of "mini_env []" ?r "t_world sample_scan"] by (simp add: sample_scan_def)
  then have r: "(other_step (mini_env []) 0)\<^sup>*\<^sup>* sample_scan ?s"
    by (intro r_into_rtranclp other) simp_all
  have "holds (t_pc sample_scan 0)"
    by (simp add: sample_scan_def)
  from threads_isolation [OF sample_scan_reached sample_overrun_inv sample_unlocked this r] r show ?thesis
    by (intro exI [of _ ?s]) simp
qed

end
