(* ===== verification/Afs.thy ===== *)
theory Afs
  imports Machine
begin

text \<open>
  The remote file service (\<^verbatim>\<open>unreliable_afs_server.cc\<close>, \<^verbatim>\<open>unreliable_afs_client.cc\<close> and the messages
  of \<^verbatim>\<open>protos/unreliable_afs.proto\<close>): the \<open>Mkdir\<close> procedure on both sides, the start of the server and
  the two \<open>main\<close> functions.  gRPC is a parameter: the client's stub is a function argument, and the
  functions the server calls are the record \<open>grpc\<close>.
\<close>

section \<open>Messages\<close>

record MkdirRequest =
  req_dir :: string
  req_mode :: "32 word"

record MkdirReply =
  rep_err :: "32 word"

section \<open>Server\<close>

text \<open>
  \<open>std::string::c_str()\<close> in front of \<open>mkdir\<close>: the system sees the bytes before the first NUL.  The
  reply's field is an \<open>int32\<close>.
\<close>

definition server_Mkdir ::
    "'os env \<Rightarrow> string \<Rightarrow> MkdirRequest \<Rightarrow> 'os world \<Rightarrow> MkdirReply \<times> 'os world" where
  "server_Mkdir env server_base_directory request w =
     (let reply = \<lparr>rep_err = 0\<rparr>;
          path = server_base_directory @ req_dir request in
      case do_sys env (Mkdir (takeWhile (\<lambda>c. c \<noteq> NUL) path) (sint (req_mode request))) w of (res, d, w) \<Rightarrow>
        if res = -1 then (reply\<lparr>rep_err := word_of_int (- w_errno w)\<rparr>, w)
        else (reply\<lparr>rep_err := word_of_int res\<rparr>, w))"

section \<open>Client\<close>

text \<open>The stub returns whether the status is OK, and the reply.\<close>

type_synonym 'os stub = "MkdirRequest \<Rightarrow> 'os world \<Rightarrow> (bool \<times> MkdirReply) \<times> 'os world"

definition client_Mkdir :: "'os stub \<Rightarrow> string \<Rightarrow> int \<Rightarrow> 'os world \<Rightarrow> int \<times> 'os world" where
  "client_Mkdir stub path mode w =
     (case stub \<lparr>req_dir = path, req_mode = word_of_int mode\<rparr> w of ((ok, reply), w) \<Rightarrow>
        (if ok then sint (rep_err reply) else -1, w))"

section \<open>Command lines\<close>

text \<open>\<open>std::string::find\<close>: the first position where the text occurs.\<close>

fun find_sub :: "string \<Rightarrow> string \<Rightarrow> nat option" where
  "find_sub pat [] = (if pat = [] then Some 0 else None)"
| "find_sub pat (c # s) =
     (if take (length pat) (c # s) = pat then Some 0 else map_option Suc (find_sub pat s))"

text \<open>\<open>arg_val[start_pos]\<close>; at the end of a \<open>std::string\<close> it is the NUL character.\<close>

definition string_at :: "string \<Rightarrow> nat \<Rightarrow> char" where
  "string_at s i = (if i < length s then s ! i else NUL)"

datatype flag_result = Flag_value string | Bad_syntax | Bad_argument

definition parse_flag :: "string \<Rightarrow> string \<Rightarrow> flag_result" where
  "parse_flag arg_str arg_val =
     (case find_sub arg_str arg_val of
        Some start_pos \<Rightarrow>
          let start_pos = start_pos + length arg_str in
          if string_at arg_val start_pos = CHR ''='' then Flag_value (drop (start_pos + 1) arg_val)
          else Bad_syntax
      | None \<Rightarrow> Bad_argument)"

text \<open>What the programs print.\<close>

datatype message = Wrong_syntax string | Wrong_argument string | Server_listening string | Greeter_received int

text \<open>
  The head of the two \<open>main\<close> functions: the base directory or target, or the complaint with which
  \<open>main\<close> returns 0.  \<open>argv\<close> starts with the program's name.
\<close>

definition flag_or_default :: "string \<Rightarrow> string \<Rightarrow> string list \<Rightarrow> message + string" where
  "flag_or_default arg_str def argv =
     (if length argv > 1
      then (case parse_flag arg_str (argv ! 1) of
              Flag_value v \<Rightarrow> Inr v
            | Bad_syntax \<Rightarrow> Inl (Wrong_syntax arg_str)
            | Bad_argument \<Rightarrow> Inl (Wrong_argument arg_str))
      else Inr def)"

section \<open>The server program\<close>

type_synonym 'os service = "MkdirRequest \<Rightarrow> 'os world \<Rightarrow> MkdirReply \<times> 'os world"

text \<open>
  What the server calls of gRPC, which is not part of the program: builders \<open>'b\<close>, credentials \<open>'c\<close> and
  servers \<open>'srv\<close> are opaque.  \<open>BuildAndStart\<close> gives a server or the null pointer; \<open>Wait\<close> returns when
  the server has been shut down, which may never happen (\<open>None\<close>).
\<close>

record ('b, 'c, 'srv, 'os) grpc =
  g_EnableDefaultHealthCheckService :: "bool \<Rightarrow> 'os world \<Rightarrow> 'os world"
  g_ServerBuilder :: 'b
  g_InsecureServerCredentials :: 'c
  g_AddListeningPort :: "string \<Rightarrow> 'c \<Rightarrow> 'b \<Rightarrow> 'b"
  g_RegisterService :: "'os service \<Rightarrow> 'b \<Rightarrow> 'b"
  g_BuildAndStart :: "'b \<Rightarrow> 'os world \<Rightarrow> 'srv option \<times> 'os world"
  g_Wait :: "'srv \<Rightarrow> 'os world \<Rightarrow> 'os world option"

text \<open>
  What is printed, and how the function ends.  The message is printed before \<open>server\<close> is used for the
  first time; a null pointer is only noticed at \<open>server->Wait()\<close>.
\<close>

definition RunServer ::
    "'os env \<Rightarrow> ('b, 'c, 'srv, 'os) grpc \<Rightarrow> string \<Rightarrow> 'os world \<Rightarrow> message list \<times> 'os world res" where
  "RunServer env g base_path_str w =
     (let server_address = ''0.0.0.0:50051'';
          service = server_Mkdir env base_path_str;
          w = g_EnableDefaultHealthCheckService g True w;
          builder = g_ServerBuilder g;
          builder = g_AddListeningPort g server_address (g_InsecureServerCredentials g) builder;
          builder = g_RegisterService g service builder in
      case g_BuildAndStart g builder w of (server, w) \<Rightarrow>
        ([Server_listening server_address],
         case server of
           None \<Rightarrow> Inl Null_deref
         | Some srv \<Rightarrow>
             (case g_Wait g srv w of
                None \<Rightarrow> Inl Nonterminating
              | Some w \<Rightarrow> Inr w)))"

definition server_main ::
    "'os env \<Rightarrow> ('b, 'c, 'srv, 'os) grpc \<Rightarrow> string list \<Rightarrow> 'os world \<Rightarrow> message list \<times> (int \<times> 'os world) res"
where
  "server_main env g argv w =
     (case flag_or_default ''--base'' ''/tmp/uafs'' argv of
        Inl msg \<Rightarrow> ([msg], Inr (0, w))
      | Inr base_path_str \<Rightarrow>
          (case RunServer env g base_path_str w of (out, r) \<Rightarrow> (out, and_then r (\<lambda>w. Inr (0, w)))))"

section \<open>The client program\<close>

definition client_main :: "(string \<Rightarrow> 'os stub) \<Rightarrow> string list \<Rightarrow> 'os world \<Rightarrow> int \<times> message list \<times> 'os world"
where
  "client_main channel argv w =
     (case flag_or_default ''--target'' ''localhost:50051'' argv of
        Inl msg \<Rightarrow> (0, [msg], w)
      | Inr target_str \<Rightarrow>
          (case client_Mkdir (channel target_str) ''/world'' 511 w of (res, w) \<Rightarrow>
             (0, [Greeter_received res], w)))"

section \<open>Facts\<close>

lemma find_sub_Some: "find_sub pat s = Some i \<Longrightarrow> take (length pat) (drop i s) = pat"
  by (induction pat s arbitrary: i rule: find_sub.induct) (auto split: if_splits)

lemma find_sub_None: "find_sub pat s = None \<Longrightarrow> s \<noteq> xs @ pat @ ys"
proof (induction pat s arbitrary: xs rule: find_sub.induct)
  case (2 pat c s)
  then have "find_sub pat s = None" and "take (length pat) (c # s) \<noteq> pat"
    by (auto split: if_splits)
  with 2(1) show ?case
    by (cases xs) auto
qed (auto split: if_splits)

text \<open>A value is what follows the first occurrence of the flag and an equals sign.\<close>

lemma parse_flag_sound:
  assumes "parse_flag f arg = Flag_value v"
  shows "\<exists>pre. arg = pre @ f @ ''='' @ v \<and> find_sub f arg = Some (length pre)"
proof -
  obtain i where i: "find_sub f arg = Some i" and eq: "string_at arg (i + length f) = CHR ''=''"
      and v: "v = drop (i + length f + 1) arg"
    using assms by (auto simp: parse_flag_def Let_def split: option.splits if_splits)
  have lt: "i + length f < length arg" and nth: "arg ! (i + length f) = CHR ''=''"
    using eq by (auto simp: string_at_def split: if_splits)
  have "drop i arg = f @ drop (length f) (drop i arg)"
    using find_sub_Some [OF i] by (metis append_take_drop_id)
  moreover have "drop (length f) (drop i arg) = CHR ''='' # v"
    using Cons_nth_drop_Suc [OF lt] nth v by (simp add: add.commute)
  ultimately have "arg = take i arg @ f @ ''='' @ v"
    by (metis append_Cons append_Nil append_take_drop_id)
  then show ?thesis
    using i lt by (intro exI [of _ "take i arg"]) simp
qed

text \<open>A transport that hands requests to a server and its replies back.\<close>

definition connected :: "'os env \<Rightarrow> string \<Rightarrow> 'os stub \<Rightarrow> bool" where
  "connected env base stub \<longleftrightarrow>
     (\<forall>r w. case stub r w of ((ok, reply), w') \<Rightarrow> ok \<longrightarrow> (reply, w') = server_Mkdir env base r w)"

text \<open>The first occurrence of a text in another one, with what stands before and after it.\<close>

definition first_split :: "string \<Rightarrow> string \<Rightarrow> string \<Rightarrow> string \<Rightarrow> bool" where
  "first_split pat s pre post \<longleftrightarrow>
     s = pre @ pat @ post \<and> (\<forall>xs ys. s = xs @ pat @ ys \<longrightarrow> length pre \<le> length xs)"

lemma find_sub_least: "find_sub pat s = Some i \<Longrightarrow> s = xs @ pat @ ys \<Longrightarrow> i \<le> length xs"
proof (induction pat s arbitrary: i xs rule: find_sub.induct)
  case (2 pat c s)
  show ?case
  proof (cases "take (length pat) (c # s) = pat")
    case True
    with 2(2) show ?thesis
      by simp
  next
    case False
    then obtain j where j: "find_sub pat s = Some j" "i = Suc j"
      using 2(2) by auto
    from False 2(3) obtain xs' where "xs = c # xs'" "s = xs' @ pat @ ys"
      by (cases xs) auto
    with 2(1) [OF False j(1)] j(2) show ?thesis
      by simp
  qed
qed (auto split: if_splits)

lemma find_sub_first:
  assumes "first_split pat s pre post"
  shows "find_sub pat s = Some (length pre)"
proof (cases "find_sub pat s")
  case None
  with assms find_sub_None show ?thesis
    unfolding first_split_def by metis
next
  case (Some i)
  have "s = take i s @ pat @ drop (length pat) (drop i s)"
    using find_sub_Some [OF Some] by (metis append_take_drop_id)
  then have "length pre \<le> length (take i s)"
    using assms unfolding first_split_def by blast
  moreover have "i \<le> length pre"
    using find_sub_least [OF Some] assms unfolding first_split_def by blast
  ultimately show ?thesis
    using Some by simp
qed

lemma flag_or_default_cases:
  "flag_or_default f d [prog] = Inr d"
  "first_split f arg pre (CHR ''='' # v) \<Longrightarrow> flag_or_default f d (prog # arg # rest) = Inr v"
  "first_split f arg pre post \<Longrightarrow> (\<And>v. post \<noteq> CHR ''='' # v) \<Longrightarrow>
     flag_or_default f d (prog # arg # rest) = Inl (Wrong_syntax f)"
  "(\<And>pre post. arg \<noteq> pre @ f @ post) \<Longrightarrow> flag_or_default f d (prog # arg # rest) = Inl (Wrong_argument f)"
proof -
  show "flag_or_default f d [prog] = Inr d"
    by (simp add: flag_or_default_def)
next
  assume *: "first_split f arg pre (CHR ''='' # v)"
  then have "arg = pre @ f @ CHR ''='' # v"
    by (simp add: first_split_def)
  then show "flag_or_default f d (prog # arg # rest) = Inr v"
    using find_sub_first [OF *] by (simp add: flag_or_default_def parse_flag_def string_at_def nth_append)
next
  assume *: "first_split f arg pre post" and post: "\<And>v. post \<noteq> CHR ''='' # v"
  have "string_at arg (length pre + length f) \<noteq> CHR ''=''"
    using * post by (cases post) (auto simp: first_split_def string_at_def nth_append)
  then show "flag_or_default f d (prog # arg # rest) = Inl (Wrong_syntax f)"
    using find_sub_first [OF *] by (simp add: flag_or_default_def parse_flag_def)
next
  assume *: "\<And>pre post. arg \<noteq> pre @ f @ post"
  then have "find_sub f arg = None"
    using find_sub_Some [of f arg] by (cases "find_sub f arg") (auto, metis append_take_drop_id)
  then show "flag_or_default f d (prog # arg # rest) = Inl (Wrong_argument f)"
    by (simp add: flag_or_default_def parse_flag_def)
qed

end
