(* ===== verification/Spec2Isabelle.thy ===== *)
theory Spec2Isabelle
  imports Ini_Theorems Errinj_Theorems Buffer_Theorems Ops_Theorems Threads_Theorems Mount_Spec Afs
begin

text \<open>
  \<^bold>\<open>A verification of unreliablefs\<close>

  The program (directory \<^verbatim>\<open>src/unreliablefs\<close>) is a FUSE file system that passes every request on
  to the directory below it and injects faults on the way: errors, suppressed operations,
  slowdowns, a signal to the caller.  What is injected is read from a configuration file in INI
  format, which is read again when a request names it.  Beside it there is a small remote file
  service over gRPC with one procedure.

  \<^bold>\<open>The parts and where they are modelled\<close>

  \<^item> Prelude: faults (what the C standard leaves undefined, and not returning) as values, results
    \<open>'a res\<close> and their sequencing \<open>and_then\<close>, byte buffers with checked access, C strings.
  \<^item> Ini_Strings, Ini_Reader, Ini_Parser: the parser of \<^verbatim>\<open>conf.c\<close> on its three stack buffers, with the
    options of \<^verbatim>\<open>conf.h\<close> as the build has them.  \<open>ini_line\<close> is the body of the loop of
    \<open>ini_parse_stream\<close>, \<open>ini_loop\<close> the loop (a partial function: not returning is a value, and is
    excluded by proof).  The reader passed as a function pointer is the locale \<open>line_reader\<close>,
    interpreted for \<open>fgets\<close> and \<open>ini_reader_string\<close>.  \<open>ini_text\<close> is the specification.
  \<^item> Ini_Options: the same function with every compile option of \<^verbatim>\<open>conf.h\<close>, the options being a record
    (\<open>ini_options\<close>) and each \<open>#if\<close> a test: \<open>opt_line\<close> is the body of the loop, \<open>opt_grow\<close> the inner
    loop that makes a heap buffer longer, \<open>opt_loop\<close> the loop, \<open>opt_parse_stream\<close> the function.
    Ini_Options_Spec: its specification \<open>opt_text\<close>.
  \<^item> Ini_Line_Refine, Ini_Stream_Refine, Ini_Growing: the proof that it refines the specification, once
    for all options.  A handler and the one of the specification are related by the locale
    \<open>handler_sim\<close>, an allocator is the locale \<open>line_memory\<close>; \<open>stream_parse\<close> has the line buffer on the
    stack, \<open>heap_parse\<close> in a block of fixed size, \<open>growing_parse\<close> in one that grows.  Ini_Build: the
    functions of Ini_Parser are those of Ini_Options at \<open>default_options\<close>, and so refine \<open>ini_text\<close>.
  \<^item> Ini_Print: which line a parse reports, and the round trip through \<open>print_ini\<close>.
  \<^item> Errno_Names, Errno_Linux, Errno_FreeBSD, Errno_OpenBSD, Errno_MacOSX: the error tables of the
    platform headers.  Fuse_Op: the enumeration of \<^verbatim>\<open>unreliablefs_ops.h\<close>, the names of
    \<^verbatim>\<open>unreliablefs_ops.c\<close> and the switch of \<open>op_random_errno\<close>, each as a function of the build.
  \<^item> Machine: the operating system as a parameter (\<open>env\<close>: how it answers a \<open>syscall\<close>, \<open>rand\<close>,
    whether memory is left, \<open>fopen\<close>, the regular expression matcher), the heap as a set of
    allocated blocks, and \<open>struct unreliablefs_config\<close>.
  \<^item> Errinj: \<^verbatim>\<open>unreliablefs_errinj.c\<close>.  Errinj_Inv: the invariant \<open>q_inv\<close>/\<open>conf_inv\<close> (which blocks the
    queue owns) and that every function keeps it; the parser's client side is the locale
    \<open>ini_client\<close>.  Errinj_Spec: the draws of \<open>rand\<close>.  Conf_Spec: the meaning of a configuration
    (\<open>injections\<close>), by the locale \<open>ini_reading\<close> that extends \<open>ini_client\<close>.  Inject_Spec: what a list
    of such injections does to an operation (\<open>inject_all\<close>), with error tables looked up by name.  Conf_Buffers: \<open>malloc\<close>,
    \<open>realloc\<close> and \<open>free\<close> on the heap of Machine as an allocator of the parser, and the configuration
    read through a line buffer on that heap.
  \<^item> Ops: the operations of \<^verbatim>\<open>unreliablefs_ops.c\<close>.  Dispatch: the table \<open>unreliable_ops\<close> of
    \<^verbatim>\<open>unreliablefs.c\<close>, the contract of a callback (locale \<open>injected_op\<close>, met by the whole table) and
    sequences of requests (\<open>fs_run\<close>).  Ops_Spec: descriptors, forwarding, memory, listings.
  \<^item> Threads: the critical section of \<open>error_inject\<close> in steps and its interleavings (\<open>tstep\<close>,
    \<open>sys_step\<close>, and \<open>sys_run\<close>, which counts the configurations that could not be read), with an
    invariant by rule induction.
  \<^item> Mount, Mount_Spec: \<open>main\<close> of \<^verbatim>\<open>unreliablefs.c\<close>; libfuse is a parameter (\<open>host\<close>) of which it is
    assumed that, if it returns, its threads have run callbacks, interleaved in any way
    (\<open>fuse_threads\<close>).
  \<^item> Afs: \<open>Mkdir\<close> of the server and the client, the start of the server (\<open>RunServer\<close>) and both \<open>main\<close>
    functions; gRPC is a parameter of opaque types (\<open>grpc\<close>, and the client's stub).
  \<^item> Sample: a concrete system on which the hypotheses hold, for the witnesses.

  \<^bold>\<open>What is shown\<close>

  Ini_Theorems: the parser refines its specification for files and strings, under every choice of
  the options, the two readers agree,
  the reported line is the first malformed one, \<open>ini_parse\<close> returns for every file and names a line
  it has read, and printed configurations are read back.
  Buffer_Theorems: with its line buffer on the heap the parser does what it does on the stack, frees
  the block on every path, and reads the same configuration; a growing block does so for files
  without NUL bytes only, and a lemma shows what goes wrong with them.
  Errinj_Theorems: the queue is what the file says, memory is freed once, a reload replaces the
  queue, and \<open>error_inject\<close> does what the list of injections says, the read past the end of an error
  table included; it leaves alone the operations that no injection concerns.  Ops_Theorems: every
  callback obeys the injector, forwards its call, keeps
  the descriptors, and faults only in three named cases, one of which a suppressed \<open>opendir\<close> leads to;
  three lemmas at the end show what single
  operations get wrong outside them.  Threads_Theorems: mutual exclusion, no use
  after free, no deadlock, and isolation: a thread in the critical section is not disturbed by what
  others do.  This theory: invariants over
  sequences of requests, a configuration's effect from file to caller, the life of a mount, and the
  remote service.

  \<^bold>\<open>Bounds and hypotheses\<close>

  The only loops without a structural argument are the parser's, which consumes its input (proved),
  the one that grows its buffer, which ends at \<open>INI_MAX_LINE\<close> (proved), and the one of \<open>readdir\<close>,
  which returns for every finite directory (\<open>delivers\<close>).  Integers keep their width where it
  matters: probability and duration are 32 bits, \<open>fi->fh\<close> is 64 bits and is cut to \<open>int\<close>, and so is
  the size of the line buffer, which has at least 2 and less than \<open>2^31\<close> bytes, and the lengths that
  \<open>pread\<close>, \<open>pwrite\<close>, \<open>readlink\<close> and the attribute calls return.  The line counters of the parser are
  unbounded; the theorems on the number it returns are for fewer than \<open>2^31\<close> lines.  Hypotheses about the
  outside are documented behaviour: \<open>rand_nonneg\<close>, \<open>sys_results\<close>, \<open>sys_lengths\<close>, \<open>fd_kernel\<close>,
  \<open>enough_memory\<close>, \<open>fuse_threads\<close>, \<open>connected\<close>, and \<open>stream_ok\<close>: \<open>closedir\<close> is called on a stream that
  \<open>opendir\<close> has returned.

  \<^bold>\<open>Not modelled\<close>

  Messages to stderr, and those to stdout but for what the two programs of the remote service print at
  their start and end; \<open>regfree\<close>;
  \<open>unreliable_read_buf\<close> and \<open>unreliable_write_buf\<close>, which are declared and never defined; build files,
  manual pages, tests.
\<close>

section \<open>The mounted file system\<close>

text \<open>
  \<^bold>\<open>C4\<close>.  Over any sequence of requests the state of the injector stays sound: the queue's memory is
  allocated and owned once, it has at most one entry per type and so at most four, the mutex is free
  between requests, and the path of the configuration does not change.
\<close>

theorem fs_run_keeps_invariant:
  assumes "fs_run env w tr w'" and "conf_inv B w" and "\<not> mutex (w_conf w)"
  shows "(\<exists>B'. B \<subseteq> B' \<and> conf_inv B' w') \<and> \<not> mutex (w_conf w') \<and>
    config_path (w_conf w') = config_path (w_conf w) \<and>
    (case errors (w_conf w') of
       None \<Rightarrow> True
     | Some q \<Rightarrow> distinct (map ec_type (q_entries q)) \<and> length (q_entries q) \<le> 4)"
proof -
  note inv = fs_run_inv [OF assms]
  then obtain B' where "conf_inv B' w'"
    by blast
  then have "case errors (w_conf w') of None \<Rightarrow> True
      | Some q \<Rightarrow> distinct (map ec_type (q_entries q)) \<and> length (q_entries q) \<le> 4"
    by (auto simp: conf_inv_def q_inv_def q_types_bound split: option.splits)
  with inv show ?thesis
    by simp
qed

lemma sample_run:
  "\<exists>tr w'. fs_run (mini_env (print_ini sample_conf)) (mini_world None mini_os0)
     (tr :: (unit fuse_request \<times> int \<times> unit fuse_out) list) w' \<and> length tr = 1 \<and>
     errors (w_conf w') \<noteq> None"
proof -
  let ?env = "mini_env (print_ini sample_conf)" and ?w = "mini_world None mini_os0"
  let ?r = "Req_mkdir ''/m/unreliablefs.conf'' 0 :: unit fuse_request"
  obtain f where f: "unreliable_ops ?env ?r = Some f"
    by simp
  have inv: "conf_inv {} ?w"
    by (simp add: conf_inv_def owns_def)
  obtain w1 where 1: "config_delete (errors (w_conf (set_mutex True ?w))) (set_mutex True ?w) = Inr w1"
      "owns {} [] (w_heap w1)" "w_conf w1 = w_conf (set_mutex True ?w)"
    using config_delete_inv [of "{}" "set_mutex True ?w"] inv by auto
  obtain q w2 where "config_init ?env ''/m/unreliablefs.conf'' w1 = Inr (Some q, w2)"
    using config_init_plenty [OF mini_plenty(1) 1(2)] .
  then have "error_inject ?env (req_path ?r) (req_op ?r) ?w =
      Inr (0, set_mutex False (set_errors (Some q) w2))"
    using 1(1,3) by (simp add: error_inject_def Let_def set_mutex_def)
  then have "f ?w = native ?env ?r (set_mutex False (set_errors (Some q) w2))"
    by (rule callback_passed [OF f])
  moreover have "forwarded ?env ?r = Some (Mkdir ''/m/unreliablefs.conf'' 0)"
      "stream_ok ?env ?r (set_mutex False (set_errors (Some q) w2))"
    by simp_all
  note native_forwarded [OF mini_sys_results this]
  ultimately obtain ret out w3 where w3: "f ?w = Inr (ret, out, w3)"
      "w_conf w3 = w_conf (set_mutex False (set_errors (Some q) w2))"
    by (metis do_sys_process(1))
  have "fs_run ?env ?w ([] @ [(?r, ret, out)]) w3"
    using run_start f w3(1) by (rule run_call)
  then show ?thesis
    using w3(2) by (intro exI [of _ "[(?r, ret, out)]"] exI [of _ w3]) (simp add: set_mutex_def set_errors_def)
qed

theorem fs_run_keeps_invariant_witness:
  "\<exists>tr w' q. fs_run (mini_env (print_ini sample_conf)) (mini_world None mini_os0)
     (tr :: (unit fuse_request \<times> int \<times> unit fuse_out) list) w' \<and> length tr = 1 \<and>
     errors (w_conf w') = Some q \<and> length (q_entries q) \<le> 4 \<and> \<not> mutex (w_conf w')"
proof -
  obtain w' q and tr :: "(unit fuse_request \<times> int \<times> unit fuse_out) list"
    where run: "fs_run (mini_env (print_ini sample_conf)) (mini_world None mini_os0) tr w'"
      and tr: "length tr = 1" and q: "errors (w_conf w') = Some q"
    using sample_run by blast
  have "conf_inv {} (mini_world None mini_os0)"
    by (simp add: conf_inv_def owns_def)
  from fs_run_keeps_invariant [OF run this] q have "length (q_entries q) \<le> 4" "\<not> mutex (w_conf w')"
    by simp_all
  with run tr q show ?thesis
    by blast
qed

text \<open>
  \<^bold>\<open>C6\<close>.  From the configuration file to the caller: with a configuration that describes one
  \<open>errinj_noop\<close> of probability 100 for all paths and operations, every callback on any other file
  returns 0, leaves its output argument alone and makes no system call at all; only a random
  number is drawn.
\<close>

theorem noop_configuration_suppresses:
  assumes "rand_nonneg env" and "enough_memory env" and "owns B [] (w_heap w)"
    and "\<And>s. sr_ret (fst (e_sys env (Access (config_path (w_conf w)) F_OK) s)) = 0"
    and "\<And>s. map_option f_unread (fst (e_fopen env (config_path (w_conf w)) s)) = Some t"
    and "injections t = [i]" and "i_type i = ERRINJ_NOOP" and "i_path i = None" and "i_op i = None"
    and "100 \<le> uint (i_prob i)"
    and "config_init env (config_path (w_conf w)) w = Inr (q, w1)"
    and "\<not> mutex (w_conf w)"
    and "unreliable_ops env r = Some f" and "req_path r \<noteq> config_path (w_conf w)"
  shows "\<exists>w'. f (set_errors q w1) = Inr (0, req_out r, w') \<and>
    w_os w' = snd (e_rand env (w_os w1)) \<and> w_conf w' = w_conf (set_errors q w1)"
proof -
  let ?w = "set_errors q w1"
  obtain q' w2 where "config_init env (config_path (w_conf w)) w = Inr (Some q', w2)"
      "abs_q q' = injections t" "w_conf w2 = w_conf w"
    using config_init_reads [OF assms(3,2,4,5)] .
  then have q: "q = Some q'" "abs_q q' = [i]" "w_conf w1 = w_conf w"
    using assms(6,11) by auto
  then obtain e where e: "q_entries q' = [e]" "abs_entry e = i"
    by (auto simp: abs_q_def)
  have w: "\<not> mutex (w_conf ?w)" "req_path r \<noteq> config_path (w_conf ?w)" "errors (w_conf ?w) = Some q'"
    using assms(12,14) q by (simp_all add: set_errors_def)
  have "applies env e (req_path r) (op_label (req_op r))"
    using e(2) assms(8,9) by (auto simp: abs_entry_def applies_def is_regex_matched_def)
  moreover have "draw env (set_mutex True ?w) \<le> uint (probability e)"
    using draw_bounds [of env "set_mutex True ?w"] assms(10) e(2) by (auto simp: abs_entry_def)
  moreover have "ec_type e = ERRINJ_NOOP"
    using e(2) assms(7) by (auto simp: abs_entry_def)
  ultimately have "inject_loop env (req_path r) (req_op r) (op_label (req_op r)) [e] 0 (set_mutex True ?w) =
      Inr (- ERRNO_NOOP, snd (c_rand env (set_mutex True ?w)))"
    by (subst inject_loop_step [OF assms(1)]) (simp add: trigger_def)
  then have "error_inject env (req_path r) (req_op r) ?w =
      Inr (- ERRNO_NOOP, set_mutex False (snd (c_rand env (set_mutex True ?w))))"
    using error_inject_other_path [OF w(1,2) callback_op [OF assms(13)]] w(3) e(1)
    by (simp del: inject_loop.simps)
  then have "f ?w = Inr (0, req_out r, set_mutex False (snd (c_rand env (set_mutex True ?w))))"
    by (rule callback_suppressed [OF assms(13)])
  then show ?thesis
    using w(1) by (auto simp: set_mutex_def set_errors_def)
qed

text \<open>The configuration of the manual's first example.\<close>

definition noop_conf :: "ini_section list" where
  "noop_conf = [(''errinj_noop'', [(''probability'', ''100'')])]"

lemma noop_injections:
  "injections (print_ini noop_conf) =
     [\<lparr>i_type = ERRINJ_NOOP, i_path = None, i_op = None, i_prob = 100, i_dur = 0\<rparr>]"
proof -
  have "list_all section_ok noop_conf"
    by (simp add: noop_conf_def section_ok_def pair_ok_def name_ok_def value_ok_def plain_def
        isspace_def rstrip_str_def)
  then show ?thesis
    by (simp add: injections_def ini_pairs_print)
      (simp add: noop_conf_def flat_def inj_step_def inj_type_of_def inj_option_def blank_def atoi_def
        strtol10_def isspace_def isdigit_def)
qed

theorem noop_configuration_suppresses_witness:
  "\<exists>q w1 f w'. config_init (mini_env (print_ini noop_conf)) ''/m/unreliablefs.conf''
       (mini_world None mini_os0) = Inr (q, w1) \<and>
     unreliable_ops (mini_env (print_ini noop_conf)) (Req_mkdir ''/m/d'' 448 :: unit fuse_request) = Some f \<and>
     f (set_errors q w1) = Inr (0, Out_none, w') \<and> w_os w' = snd (mini_rand (w_os w1))"
proof -
  let ?env = "mini_env (print_ini noop_conf)" and ?w = "mini_world None mini_os0"
  let ?r = "Req_mkdir ''/m/d'' 448 :: unit fuse_request"
  obtain f where f: "unreliable_ops ?env ?r = Some f"
    by simp
  obtain q w1 where q: "config_init ?env ''/m/unreliablefs.conf'' ?w = Inr (Some q, w1)"
    using config_init_plenty [OF mini_plenty(1) mini_owns] .
  have "\<exists>w'. f (set_errors (Some q) w1) = Inr (0, req_out ?r, w') \<and>
      w_os w' = snd (e_rand ?env (w_os w1)) \<and> w_conf w' = w_conf (set_errors (Some q) w1)"
    using noop_configuration_suppresses [OF mini_rand_nonneg mini_plenty(2) mini_owns _ _ noop_injections
        _ _ _ _ _ _ f, of None mini_os0 "Some q" w1] q
    by (simp add: mini_sys_def)
  with f q show ?thesis
    by auto
qed

section \<open>Start and end of the program\<close>

text \<open>
  \<^bold>\<open>C7\<close>.  What a process that mounts and unmounts leaves in memory, once \<open>realpath\<close> has found the base
  directory and the mutex is made.  It fails only where \<open>fuse_main\<close> fails.  When \<open>fuse_main\<close> returns,
  whatever requests its threads have served, interleaved in any way, the last configuration and its
  path are freed, nothing twice; left are the block that \<open>realpath\<close> returned and at most one block for
  each time the configuration could not be read, at the start or by a request: the queue head that
  \<open>config_init\<close> forgets.  When memory does not run out and \<open>fopen\<close> succeeds, it is the block of
  \<open>realpath\<close> alone.
\<close>

theorem mount_frees_configuration:
  assumes "fuse_threads env h" and "owns B [] (w_heap w)"
    and "build_config_path env h w = (Some p, w1)" and "\<forall>s. fst (m_mutex_init h s) = 0"
  shows "\<exists>q w2. config_init env (config_path (w_conf w1)) w1 = Inr (q, w2) \<and>
    (case m_fuse_main h args (started h q w2) of
       Inl e \<Rightarrow> mount env h args w = Inl e
     | Inr (ret, w4) \<Rightarrow> \<exists>w' k L. mount env h args w = Inr (ret, w') \<and>
         fuse_run env (started h q w2) k w4 \<and>
         h_live (w_heap w') = insert (h_next (w_heap w)) (h_live (w_heap w)) \<union> L \<and>
         finite L \<and> card L \<le> k + (if q = None then 1 else 0) \<and> (plenty env \<longrightarrow> L = {}))"
proof -
  obtain B1 where "owns B1 [] (w_heap w1)"
    using build_config_path_ok [OF assms(3,2)] by blast
  then obtain q w2 where c: "config_init env (config_path (w_conf w1)) w1 = Inr (q, w2)"
    using config_init_ok [of B1 w1 env "config_path (w_conf w1)"] by blast
  have B: "B = h_live (w_heap w)"
    using assms(2) by (simp add: owns_def)
  show ?thesis
  proof (cases "m_fuse_main h args (started h q w2)")
    case (Inl e)
    then show ?thesis
      using c mount_eq [OF assms(3,4) c, of args] by auto
  next
    case (Inr x)
    then obtain ret w4 where x: "m_fuse_main h args (started h q w2) = Inr (ret, w4)"
      by (cases x) auto
    from mount_cleans [OF assms c x] c x B show ?thesis
      by auto
  qed
qed

text \<open>A FUSE loop that serves one request, a \<open>mkdir\<close>, and gives up when that goes wrong.\<close>

definition mini_fuse_main :: "string list \<Rightarrow> mini_os world \<Rightarrow> (int \<times> mini_os world) res" where
  "mini_fuse_main args w =
     (case map_out (\<lambda>_. Out_none :: dir_buf fuse_out) (unreliable_mkdir (mini_env (print_ini noop_conf)) ''/m/d'' 448) w of
        Inr (ret, out, w') \<Rightarrow> Inr (0, w')
      | Inl e \<Rightarrow> Inr (1, w))"

definition mini_host :: "mini_os host" where
  "mini_host =
     \<lparr>m_time = (\<lambda>s. (7, s)), m_opt_parse = (\<lambda>opts proc args w. Inr (Returns args w)),
      m_srand = (\<lambda>n s. s), m_stat = (\<lambda>p s. (Some (zero_stat\<lparr>st_mode := 0x41ED\<rparr>), s)),
      m_realpath = (\<lambda>p s. (Some ''/m'', s)), m_mutex_init = (\<lambda>s. (0, s)),
      m_fuse_main = mini_fuse_main, m_PATH_MAX = 4096\<rparr>"

lemma mini_fuse_main_returns: "\<exists>ret w'. m_fuse_main mini_host args w = Inr (ret, w')"
  by (simp add: mini_host_def mini_fuse_main_def split: sum.split prod.split)

lemma mini_fuse_threads: "fuse_threads (mini_env (print_ini noop_conf)) mini_host"
  unfolding fuse_threads_def
proof (intro allI impI, elim conjE)
  fix args B ret and w w' :: "mini_os world"
  assume m: "m_fuse_main mini_host args w = Inr (ret, w')"
  let ?env = "mini_env (print_ini noop_conf)" and ?r = "Req_mkdir ''/m/d'' 448 :: dir_buf fuse_request"
  let ?f = "map_out (\<lambda>_. Out_none :: dir_buf fuse_out) (unreliable_mkdir ?env ''/m/d'' 448)"
  have "\<exists>k. sys_run ?env (threads_init w :: (dir_buf, _) threads) k (threads_init w')"
  proof (cases "?f w")
    case (Inl e)
    then have "w' = w"
      using m by (simp add: mini_host_def mini_fuse_main_def)
    then show ?thesis
      using run_none by blast
  next
    case (Inr x)
    then obtain ret' out where f: "?f w = Inr (ret', out, w')"
      using m by (cases x) (auto simp: mini_host_def mini_fuse_main_def)
    have "unreliable_ops ?env ?r = Some ?f"
      by simp
    from served_run [OF this f] show ?thesis .
  qed
  then obtain k where "sys_run ?env (threads_init w :: (dir_buf, _) threads) k (threads_init w')"
    by blast
  then have "fuse_run ?env w k w'"
    unfolding fuse_run_def by (intro exI [of _ "threads_init w'"]) (simp add: threads_init_def)
  then show "\<exists>k. fuse_run ?env w k w'"
    by blast
qed

theorem mount_frees_configuration_witness:
  "\<exists>ret w'. mount (mini_env (print_ini noop_conf)) mini_host [] (mini_world None mini_os0) = Inr (ret, w') \<and>
     h_live (w_heap w') = {0}"
proof -
  let ?env = "mini_env (print_ini noop_conf)" and ?w = "mini_world None mini_os0"
  obtain p w1 where b: "build_config_path ?env mini_host ?w = (Some p, w1)"
    by (simp add: build_config_path_def mini_host_def c_malloc_def Let_def)
  have m: "\<forall>s. fst (m_mutex_init mini_host s) = 0"
    by (simp add: mini_host_def)
  obtain q w2 where c: "case m_fuse_main mini_host [] (started mini_host q w2) of
       Inl e \<Rightarrow> mount ?env mini_host [] ?w = Inl e
     | Inr (ret, w4) \<Rightarrow> \<exists>w' k L. mount ?env mini_host [] ?w = Inr (ret, w') \<and>
         fuse_run ?env (started mini_host q w2) k w4 \<and>
         h_live (w_heap w') = insert (h_next (w_heap ?w)) (h_live (w_heap ?w)) \<union> L \<and>
         finite L \<and> card L \<le> k + (if q = None then 1 else 0) \<and> (plenty ?env \<longrightarrow> L = {})"
    using mount_frees_configuration [OF mini_fuse_threads mini_owns b m, of "[]"] by blast
  obtain ret w4 where "m_fuse_main mini_host [] (started mini_host q w2) = Inr (ret, w4)"
    using mini_fuse_main_returns by blast
  with c mini_plenty(1) show ?thesis
    by auto
qed

text \<open>
  \<^bold>\<open>C31\<close>.  The configuration is looked for in the file \<open>unreliablefs.conf\<close> of the resolved base directory:
  the buffer for the path is exactly large enough, so that \<open>snprintf\<close> does not cut it.
\<close>

theorem config_path_exact:
  assumes "build_config_path env h w = (Some p, w')"
  shows "\<exists>real os. m_realpath h (basedir (w_conf w)) (w_os w) = (Some real, os) \<and>
    basedir (w_conf w') = real \<and> config_path (w_conf w') = real @ ''/'' @ DEFAULT_CONF_NAME"
  using assms
  by (auto simp: build_config_path_def c_malloc_def with_conf_def snprintf_array_def Let_def
      split: prod.splits option.splits if_splits)

theorem config_path_exact_witness:
  "\<exists>p w'. build_config_path (mini_env []) mini_host (mini_world None mini_os0) = (Some p, w') \<and>
     config_path (w_conf w') = ''/m/unreliablefs.conf''"
proof -
  obtain p w' where "build_config_path (mini_env []) mini_host (mini_world None mini_os0) = (Some p, w')"
    by (simp add: build_config_path_def mini_host_def c_malloc_def Let_def)
  with config_path_exact [OF this] show ?thesis
    by (auto simp: mini_host_def DEFAULT_CONF_NAME_def)
qed

text \<open>
  \<^bold>\<open>C32\<close>.  After the options are parsed \<open>main\<close> fails with status 1 when the base directory is not a
  directory; otherwise it mounts when the directory's name leaves 25 bytes of \<open>PATH_MAX\<close>, and writes
  past the array \<open>subdir_option\<close> when it does not.
\<close>

theorem main_base_directory:
  assumes "m_opt_parse h unreliablefs_opts (unreliablefs_opt_proc h) argv
      (w\<lparr>w_os := snd (m_time h (w_os w)), w_conf := default_conf (fst (m_time h (w_os w)))\<rparr>) =
      Inr (Returns args w1)"
    and "is_dir h (basedir (w_conf w1)) (w1\<lparr>w_os := m_srand h (seed (w_conf w1)) (w_os w1)\<rparr>) = (ok, w2)"
  shows "main env h argv w =
    (if \<not> ok then Inr (1, w2)
     else if length (basedir (w_conf w2)) + 25 \<le> m_PATH_MAX h
     then mount env h (args @ [''-omodules=subdir,subdir='' @ basedir (w_conf w2)]) w2
     else Inl Write_oob)"
  using assms
  by (auto simp: main_def sprintf_array_def subdir_prefix_def EXIT_FAILURE_def case_prod_unfold Let_def)

theorem main_base_directory_witness:
  "main (mini_env []) (mini_host\<lparr>m_PATH_MAX := 25\<rparr>) [] (mini_world None mini_os0) = Inl Write_oob"
  using main_base_directory [of "mini_host\<lparr>m_PATH_MAX := 25\<rparr>" "[]" "mini_world None mini_os0" "[]"
      "(mini_world None mini_os0)\<lparr>w_conf := default_conf 7\<rparr>" True
      "(mini_world None mini_os0)\<lparr>w_conf := default_conf 7\<rparr>" "mini_env []"]
  by (simp add: mini_host_def is_dir_def S_ISDIR_def mini_world_def default_conf_def)

section \<open>The remote service\<close>

text \<open>
  \<^bold>\<open>C33\<close>.  The command line parsers of client and server accept only what they should: a value is what
  follows the first occurrence of the flag and an equals sign.
\<close>

theorem flag_value_sound:
  assumes "parse_flag f arg = Flag_value v"
  shows "\<exists>pre. arg = pre @ f @ ''='' @ v \<and> find_sub f arg = Some (length pre)"
  using assms by (rule parse_flag_sound)

theorem flag_value_sound_witness:
  "\<exists>pre. ''--base=/srv'' = pre @ ''--base'' @ ''='' @ ''/srv'' \<and>
     find_sub ''--base'' ''--base=/srv'' = Some (length pre)"
  using flag_value_sound [of "''--base''" "''--base=/srv''" "''/srv''"]
  by (simp add: parse_flag_def string_at_def)

text \<open>
  \<^bold>\<open>C34\<close>.  The two programs, from the command line on, for every first argument.  When the first
  occurrence of \<open>--base\<close> in it is followed by an equals sign, the server runs with what follows as base
  directory: \<open>RunServer\<close> builds a server that listens on port 50051 and makes directories below that
  base, says that it listens, then dereferences the null pointer if gRPC could not start it, waits
  for ever if \<open>Wait\<close> never returns, and returns 0 when it does.  When something else follows, the
  server complains about the syntax, and when \<open>--base\<close> does not occur, about the argument; in both
  cases it returns 0 and does nothing else.  Without an argument the base is \<^verbatim>\<open>/tmp/uafs\<close>.  The client treats
  \<open>--target\<close> the same way and makes one call to the target.  Nothing is assumed of gRPC.
\<close>

theorem command_lines:
  assumes "\<And>base. g_BuildAndStart g (g_RegisterService g (server_Mkdir env base)
      (g_AddListeningPort g ''0.0.0.0:50051'' (g_InsecureServerCredentials g) (g_ServerBuilder g)))
      (g_EnableDefaultHealthCheckService g True w) = (srv base, w1 base)"
  shows "let runs = (\<lambda>base. ([Server_listening ''0.0.0.0:50051''],
           case srv base of
             None \<Rightarrow> Inl Null_deref
           | Some s \<Rightarrow> (case g_Wait g s (w1 base) of None \<Rightarrow> Inl Nonterminating | Some w' \<Rightarrow> Inr (0, w'))));
         calls = (\<lambda>target. case client_Mkdir (channel target) ''/world'' 511 w of
             (res, w') \<Rightarrow> (0, [Greeter_received res], w')) in
    server_main env g [prog] w = runs ''/tmp/uafs'' \<and>
    (\<forall>pre v. first_split ''--base'' arg pre (CHR ''='' # v) \<longrightarrow>
       server_main env g (prog # arg # rest) w = runs v) \<and>
    (\<forall>pre post. first_split ''--base'' arg pre post \<and> (\<forall>v. post \<noteq> CHR ''='' # v) \<longrightarrow>
       server_main env g (prog # arg # rest) w = ([Wrong_syntax ''--base''], Inr (0, w))) \<and>
    ((\<forall>pre post. arg \<noteq> pre @ ''--base'' @ post) \<longrightarrow>
       server_main env g (prog # arg # rest) w = ([Wrong_argument ''--base''], Inr (0, w))) \<and>
    client_main channel [prog] w = calls ''localhost:50051'' \<and>
    (\<forall>pre v. first_split ''--target'' arg pre (CHR ''='' # v) \<longrightarrow>
       client_main channel (prog # arg # rest) w = calls v) \<and>
    (\<forall>pre post. first_split ''--target'' arg pre post \<and> (\<forall>v. post \<noteq> CHR ''='' # v) \<longrightarrow>
       client_main channel (prog # arg # rest) w = (0, [Wrong_syntax ''--target''], w)) \<and>
    ((\<forall>pre post. arg \<noteq> pre @ ''--target'' @ post) \<longrightarrow>
       client_main channel (prog # arg # rest) w = (0, [Wrong_argument ''--target''], w))"
proof -
  have run: "RunServer env g base w = ([Server_listening ''0.0.0.0:50051''],
      case srv base of
        None \<Rightarrow> Inl Null_deref
      | Some s \<Rightarrow> (case g_Wait g s (w1 base) of None \<Rightarrow> Inl Nonterminating | Some w' \<Rightarrow> Inr w'))" for base
    by (simp add: RunServer_def assms)
  have accepted: "flag_or_default f d (prog # arg # rest) = Inr v"
    if "first_split f arg pre (CHR ''='' # v)" for f d pre v
    using that by (rule flag_or_default_cases)
  have malformed: "flag_or_default f d (prog # arg # rest) = Inl (Wrong_syntax f)"
    if "first_split f arg pre post" "\<forall>v. post \<noteq> CHR ''='' # v" for f d pre post
    using that by (intro flag_or_default_cases(3)) auto
  have unknown: "flag_or_default f d (prog # arg # rest) = Inl (Wrong_argument f)"
    if "\<forall>pre post. arg \<noteq> pre @ f @ post" for f d
    using that by (intro flag_or_default_cases(4)) auto
  show ?thesis
    unfolding Let_def
    by (intro conjI allI impI; (elim conjE)?)
      (simp_all add: server_main_def client_main_def flag_or_default_cases(1) accepted malformed unknown run
        split: option.split)
qed

text \<open>A gRPC that cannot bind the port.\<close>

definition no_port :: "(unit, unit, unit, mini_os) grpc" where
  "no_port =
     \<lparr>g_EnableDefaultHealthCheckService = (\<lambda>b w. w), g_ServerBuilder = (), g_InsecureServerCredentials = (),
      g_AddListeningPort = (\<lambda>a c b. b), g_RegisterService = (\<lambda>s b. b),
      g_BuildAndStart = (\<lambda>b w. (None, w)), g_Wait = (\<lambda>s w. Some w)\<rparr>"

text \<open>A gRPC whose server gets one request.\<close>

definition one_request :: "(mini_os service list, unit, mini_os service list, mini_os) grpc" where
  "one_request =
     \<lparr>g_EnableDefaultHealthCheckService = (\<lambda>b w. w), g_ServerBuilder = [], g_InsecureServerCredentials = (),
      g_AddListeningPort = (\<lambda>a c b. b), g_RegisterService = (\<lambda>s b. s # b),
      g_BuildAndStart = (\<lambda>b w. (Some b, w)),
      g_Wait = (\<lambda>b w. Some (snd (hd b \<lparr>req_dir = ''/d'', req_mode = 448\<rparr> w)))\<rparr>"

lemma base_flag: "first_split ''--base'' ''--base=/srv'' [] ''=/srv''"
  by (simp add: first_split_def)

theorem command_lines_witness:
  "(\<exists>w. server_main (mini_env []) one_request [''server'', ''--base=/srv''] (mini_world None mini_os0) =
       ([Server_listening ''0.0.0.0:50051''], Inr (0, w)) \<and> mo_made (w_os w) = [''/srv/d'']) \<and>
   server_main (mini_env []) no_port [''server''] (mini_world None mini_os0) =
     ([Server_listening ''0.0.0.0:50051''], Inl Null_deref)"
proof -
  let ?w = "mini_world None mini_os0"
  have "g_BuildAndStart one_request (g_RegisterService one_request (server_Mkdir (mini_env []) base)
      (g_AddListeningPort one_request ''0.0.0.0:50051'' (g_InsecureServerCredentials one_request)
        (g_ServerBuilder one_request))) (g_EnableDefaultHealthCheckService one_request True ?w) =
      (Some [server_Mkdir (mini_env []) base], ?w)" for base
    by (simp add: one_request_def)
  note one = command_lines [OF this, of undefined "''server''" "''--base=/srv''" "[]"]
  have "g_BuildAndStart no_port (g_RegisterService no_port (server_Mkdir (mini_env []) base)
      (g_AddListeningPort no_port ''0.0.0.0:50051'' (g_InsecureServerCredentials no_port)
        (g_ServerBuilder no_port))) (g_EnableDefaultHealthCheckService no_port True ?w) = (None, ?w)" for base
    by (simp add: no_port_def)
  note none = command_lines [OF this, of undefined "''server''"]
  have "\<exists>w. server_main (mini_env []) one_request [''server'', ''--base=/srv''] ?w =
       ([Server_listening ''0.0.0.0:50051''], Inr (0, w)) \<and> mo_made (w_os w) = [''/srv/d'']"
    using one base_flag
    by (simp add: one_request_def Let_def)
      (simp add: server_Mkdir_def do_sys_def mini_sys_def sys_fails_def mini_os0_def)
  moreover have "server_main (mini_env []) no_port [''server''] ?w =
      ([Server_listening ''0.0.0.0:50051''], Inl Null_deref)"
    using none by (simp add: Let_def)
  ultimately show ?thesis ..
qed

text \<open>
  \<^bold>\<open>C35\<close>.  A remote \<open>Mkdir\<close> over a transport that delivers is the local call below the server's base
  directory: the client gets 0 or the negated error number, at the width of the message's fields.
\<close>

theorem remote_mkdir:
  assumes "connected env base stub" and "c_str base" and "c_str path"
    and "- (2 ^ 31) \<le> mode" and "mode < 2 ^ 31"
    and "e_sys env (Mkdir (base @ path) mode) (w_os w) = (r, os)"
    and "sr_ret r \<in> {-1, 0}" and "0 \<le> sr_errno r" and "sr_errno r < 2 ^ 31"
    and "fst (fst (stub \<lparr>req_dir = path, req_mode = word_of_int mode\<rparr> w))"
  shows "\<exists>w'. client_Mkdir stub path mode w = (if sr_ret r = -1 then - sr_errno r else 0, w') \<and> w_os w' = os"
proof -
  let ?q = "\<lparr>req_dir = path, req_mode = word_of_int mode\<rparr> :: MkdirRequest"
  have mode: "sint (word_of_int mode :: 32 word) = mode"
    using assms(4,5) by (rule sint32_of_int)
  have err: "sint (word_of_int (- sr_errno r) :: 32 word) = - sr_errno r"
    using assms(8,9) by (intro sint32_of_int) simp_all
  have "c_str (base @ path)"
    using assms(2,3) by simp
  then have "takeWhile (\<lambda>c. c \<noteq> NUL) (base @ path) = base @ path"
    by (rule takeWhile_NUL_id)
  then have "server_Mkdir env base ?q w =
      (case do_sys env (Mkdir (base @ path) mode) w of (res, d, w) \<Rightarrow>
         if res = -1 then (\<lparr>rep_err = word_of_int (- w_errno w)\<rparr>, w)
         else (\<lparr>rep_err = word_of_int res\<rparr>, w))"
    unfolding server_Mkdir_def Let_def by (simp only: MkdirRequest.simps mode MkdirReply.simps)
  then have s: "server_Mkdir env base ?q w =
      (\<lparr>rep_err = word_of_int (if sr_ret r = -1 then - sr_errno r else sr_ret r)\<rparr>,
       w\<lparr>w_os := os, w_errno := (if sr_ret r = -1 then sr_errno r else w_errno w)\<rparr>)"
    using assms(6) by (simp add: do_sys_def sys_fails_def)
  obtain ok reply w' where st: "stub ?q w = ((ok, reply), w')"
    by (cases "stub ?q w") auto
  then have "(reply, w') = server_Mkdir env base ?q w"
    using assms(1,10) unfolding connected_def by (metis (mono_tags, lifting) case_prod_conv fst_conv)
  with s st assms(7,10) err show ?thesis
    by (auto simp: client_Mkdir_def)
qed

text \<open>A transport that always delivers.\<close>

definition direct :: "'os env \<Rightarrow> string \<Rightarrow> 'os stub" where
  "direct env base r w = (case server_Mkdir env base r w of (reply, w') \<Rightarrow> ((True, reply), w'))"

theorem remote_mkdir_witness:
  "\<exists>w'. client_Mkdir (direct (mini_env []) ''/tmp/uafs'') ''/world'' 511
     (mini_world None (mini_os0\<lparr>mo_made := [''/tmp/uafs/world'']\<rparr>)) = (-17, w')"
proof -
  have "connected (mini_env []) ''/tmp/uafs'' (direct (mini_env []) ''/tmp/uafs'')"
    by (simp add: connected_def direct_def split: prod.splits)
  from remote_mkdir [OF this, of "''/world''" 511 "mini_world None (mini_os0\<lparr>mo_made := [''/tmp/uafs/world'']\<rparr>)"]
  show ?thesis
    by (auto simp: mini_sys_def direct_def case_prod_unfold)
qed

end
